(* ===== verification/UAM_Prelude.thy ===== *)
theory UAM_Prelude
  imports Complex_Main "HOL-Library.Sublist"
begin

text \<open>
  Shared vocabulary of the development: the JavaScript notions the sources use (string
  operations, \<open>parseInt\<close>, \<open>parseFloat\<close>, \<open>Math.min\<close> and \<open>Math.max\<close> clamping, array
  \<open>slice\<close>), the state-and-exception computations in which request handlers are written, runs
  of event-driven components, and the generic lemmas the component theories rest on.

  Strings are ASCII (\<^typ>\<open>string\<close> is a list of bytes); instants are milliseconds since the
  epoch (\<open>Date.now()\<close>), as \<^typ>\<open>int\<close>.
\<close>

type_synonym ms = int

text \<open>The process environment: \<open>process.env[name]\<close>, \<open>None\<close> for an unset variable.\<close>

type_synonym env = "string \<Rightarrow> string option"

section \<open>Strings\<close>

definition is_digit :: "char \<Rightarrow> bool" where
  "is_digit c \<longleftrightarrow> 48 \<le> (of_char c :: nat) \<and> (of_char c :: nat) \<le> 57"

definition digit_val :: "char \<Rightarrow> int" where
  "digit_val c = of_char c - 48"

definition is_space :: "char \<Rightarrow> bool" where
  "is_space c \<longleftrightarrow> (of_char c :: nat) \<in> {9, 10, 11, 12, 13, 32}"

definition is_upper :: "char \<Rightarrow> bool" where
  "is_upper c \<longleftrightarrow> 65 \<le> (of_char c :: nat) \<and> (of_char c :: nat) \<le> 90"

definition lower_char :: "char \<Rightarrow> char" where
  "lower_char c = (if is_upper c then char_of ((of_char c :: nat) + 32) else c)"

text \<open>\<open>s.toLowerCase()\<close> and \<open>s.trim()\<close>.\<close>

definition toLowerCase :: "string \<Rightarrow> string" where
  "toLowerCase s = map lower_char s"

definition trim :: "string \<Rightarrow> string" where
  "trim s = rev (dropWhile is_space (rev (dropWhile is_space s)))"

text \<open>\<open>s.split(c)\<close> for a one-character separator, and \<open>s.replace(/\\/$/, '')\<close>.\<close>

fun split_char :: "char \<Rightarrow> string \<Rightarrow> string list" where
  "split_char c [] = [[]]"
| "split_char c (x # s) =
     (if x = c then [] # split_char c s
      else (case split_char c s of [] \<Rightarrow> [[x]] | w # ws \<Rightarrow> (x # w) # ws))"

lemma split_char_nonempty [simp]: "split_char c s \<noteq> []"
  by (induction s) (auto split: list.splits)

definition strip_slash :: "string \<Rightarrow> string" where
  "strip_slash s = (if s \<noteq> [] \<and> last s = CHR ''/'' then butlast s else s)"

text \<open>\<open>s || d\<close> for a string that may be undefined or empty.\<close>

definition or_str :: "string option \<Rightarrow> string \<Rightarrow> string" where
  "or_str s d = (case s of None \<Rightarrow> d | Some v \<Rightarrow> (if v = [] then d else v))"

definition or_undef :: "string option \<Rightarrow> string option" where
  "or_undef s = (if s = Some [] then None else s)"

text \<open>\<open>s.includes(t)\<close>: some suffix of \<open>s\<close> starts with \<open>t\<close>.\<close>

fun str_includes :: "string \<Rightarrow> string \<Rightarrow> bool" where
  "str_includes [] t = (t = [])"
| "str_includes (c # s) t = (prefix t (c # s) \<or> str_includes s t)"

lemma str_includes_iff_sublist: "str_includes s t \<longleftrightarrow> sublist t s"
  by (induction s) (auto simp: sublist_Cons_right)

lemma lower_char_idem [simp]: "lower_char (lower_char c) = lower_char c"
proof (cases "is_upper c")
  case True
  then have "(of_char c :: nat) + 32 < 256"
    by (simp add: is_upper_def)
  with True show ?thesis
    by (auto simp: lower_char_def is_upper_def)
next
  case False
  then show ?thesis by (simp add: lower_char_def)
qed

lemma toLowerCase_idem [simp]: "toLowerCase (toLowerCase s) = toLowerCase s"
  by (simp add: toLowerCase_def)

lemma toLowerCase_Nil_iff [simp]: "toLowerCase s = [] \<longleftrightarrow> s = []"
  by (simp add: toLowerCase_def)

lemma dropWhile_idem_rev:
  "dropWhile P (rev (dropWhile P (rev (dropWhile P xs)))) = rev (dropWhile P (rev (dropWhile P xs)))"
proof (cases "dropWhile P xs")
  case Nil
  show ?thesis unfolding Nil by simp
next
  case (Cons y ys)
  then have "\<not> P y" by (metis dropWhile_eq_Cons_conv)
  then have "dropWhile P (rev ys @ [y]) = dropWhile P (rev ys) @ [y]"
    by (induction "rev ys" arbitrary: ys) (simp_all add: dropWhile_append)
  with \<open>\<not> P y\<close> Cons show ?thesis by simp
qed

lemma trim_idem [simp]: "trim (trim s) = trim s"
  by (simp add: trim_def dropWhile_idem_rev)

section \<open>Numbers read from text\<close>

text \<open>
  \<open>parseInt(raw, 10)\<close>: leading white space, an optional sign, the longest run of decimal
  digits; \<open>None\<close> is \<open>NaN\<close>.
\<close>

definition digits_val :: "string \<Rightarrow> int" where
  "digits_val ds = foldl (\<lambda>a d. 10 * a + digit_val d) 0 ds"

definition split_sign :: "string \<Rightarrow> int \<times> string" where
  "split_sign s = (case s of
      c # s' \<Rightarrow> (if c = CHR ''-'' then (-1, s') else if c = CHR ''+'' then (1, s') else (1, s))
    | [] \<Rightarrow> (1, []))"

definition parseInt :: "string \<Rightarrow> int option" where
  "parseInt s =
     (let (sg, body) = split_sign (dropWhile is_space s); ds = takeWhile is_digit body
      in if ds = [] then None else Some (sg * digits_val ds))"

text \<open>
  \<open>Number.isFinite\<close> of the double nearest to an integer or rational: everything from
  \<open>2^1024 - 2^970\<close> on rounds to \<open>Infinity\<close>.
\<close>

definition js_finite :: "rat \<Rightarrow> bool" where
  "js_finite x \<longleftrightarrow> \<bar>x\<bar> < 2 ^ 1024 - 2 ^ 970"

definition js_finite_int :: "int \<Rightarrow> bool" where
  "js_finite_int n = js_finite (of_int n)"

lemma js_finite_int_code [code]:
  "js_finite_int n \<longleftrightarrow> \<bar>n\<bar> <
     179769313486231580793728971405303415079934132710037826936173778980444968292764750946649017977587207096330286416692887910946555547851940402630657488671505820681908902000708383676273854845817711531764475730270069855571366959622842914819860834936475292719074168444365510704342711559699508093042880177904174497792"
proof -
  have "\<bar>of_int n :: rat\<bar> = of_int \<bar>n\<bar>" by simp
  then show ?thesis unfolding js_finite_int_def js_finite_def by (simp del: of_int_abs)
qed

text \<open>
  \<open>parseFloat(raw)\<close>: sign, digits with an optional fraction, an optional exponent with at
  least one digit (otherwise the exponent is not part of the literal). \<open>Infinity\<close> is
  reported as \<open>None\<close>, since every caller tests the result with \<open>Number.isFinite\<close>.
\<close>

definition parse_exponent :: "string \<Rightarrow> int" where
  "parse_exponent s = (case s of
      c # s' \<Rightarrow>
        (if c = CHR ''e'' \<or> c = CHR ''E''
         then (let (sg, body) = split_sign s'; ds = takeWhile is_digit body
               in if ds = [] then 0 else sg * digits_val ds)
         else 0)
    | [] \<Rightarrow> 0)"

definition pow10 :: "int \<Rightarrow> rat" where
  "pow10 e = (if 0 \<le> e then 10 ^ nat e else inverse (10 ^ nat (- e)))"

definition parseFloat :: "string \<Rightarrow> rat option" where
  "parseFloat s =
     (let (sg, body) = split_sign (dropWhile is_space s);
          ip = takeWhile is_digit body;
          rest = dropWhile is_digit body;
          (fp, tl0) = (case rest of
              c # r \<Rightarrow> (if c = CHR ''.'' then (takeWhile is_digit r, dropWhile is_digit r) else ([], rest))
            | [] \<Rightarrow> ([], []))
      in if ip = [] \<and> fp = [] then None
         else Some (of_int sg * of_int (digits_val (ip @ fp))
                    * pow10 (parse_exponent tl0 - int (length fp))))"

text \<open>\<open>Math.min(hi, Math.max(lo, x))\<close>.\<close>

definition clamp :: "'a::linorder \<Rightarrow> 'a \<Rightarrow> 'a \<Rightarrow> 'a" where
  "clamp lo hi x = min hi (max lo x)"

lemma clamp_bounds: "lo \<le> hi \<Longrightarrow> lo \<le> clamp lo hi x \<and> clamp lo hi x \<le> hi"
  by (auto simp: clamp_def)

lemma clamp_ge [simp]: "lo \<le> hi \<Longrightarrow> lo \<le> clamp lo hi x"
  and clamp_le [simp]: "clamp lo hi x \<le> hi"
  by (auto simp: clamp_def)

lemma clamp_id [simp]: "lo \<le> x \<Longrightarrow> x \<le> hi \<Longrightarrow> clamp lo hi x = x"
  by (simp add: clamp_def)

section \<open>Arrays\<close>

text \<open>\<open>xs.slice(-n)\<close> for a positive \<open>n\<close>: the last \<open>n\<close> elements.\<close>

definition slice_last :: "nat \<Rightarrow> 'a list \<Rightarrow> 'a list" where
  "slice_last n xs = drop (length xs - n) xs"

lemma length_slice_last [simp]: "length (slice_last n xs) = min n (length xs)"
  by (simp add: slice_last_def)

lemma set_slice_last_subset: "set (slice_last n xs) \<subseteq> set xs"
  by (simp add: slice_last_def set_drop_subset)

lemma slice_last_all [simp]: "length xs \<le> n \<Longrightarrow> slice_last n xs = xs"
  by (simp add: slice_last_def)

lemma slice_last_snoc: "0 < n \<Longrightarrow> slice_last n (xs @ [x]) = slice_last (n - 1) xs @ [x]"
  by (cases "n \<le> length xs") (auto simp: slice_last_def Suc_diff_le)

lemma distinct_slice_last [intro]: "distinct xs \<Longrightarrow> distinct (slice_last n xs)"
  by (simp add: slice_last_def)

section \<open>Runs of event-driven components\<close>

fun run :: "('s \<Rightarrow> 'e \<Rightarrow> 's) \<Rightarrow> 's \<Rightarrow> 'e list \<Rightarrow> 's" where
  "run step s [] = s"
| "run step s (e # es) = run step (step s e) es"

lemma run_append [simp]: "run step s (es @ fs) = run step (run step s es) fs"
  by (induction es arbitrary: s) auto

text \<open>
  A component with a well-formedness invariant: \<open>ok\<close> is what the callers guarantee about an
  event. Every state of a run from a good state is good.
\<close>

locale invariant_system =
  fixes step :: "'s \<Rightarrow> 'e \<Rightarrow> 's"
    and inv :: "'s \<Rightarrow> bool"
    and ok :: "'e \<Rightarrow> bool"
  assumes step_inv: "inv s \<Longrightarrow> ok e \<Longrightarrow> inv (step s e)"
begin

lemma run_inv: "inv s \<Longrightarrow> list_all ok es \<Longrightarrow> inv (run step s es)"
  by (induction es arbitrary: s) (auto intro: step_inv)

lemma run_prefix_inv: "inv s \<Longrightarrow> list_all ok (es @ fs) \<Longrightarrow> inv (run step s es)"
  by (rule run_inv) auto

end

section \<open>JavaScript values\<close>

text \<open>
  The values the code stores, compares and serialises. \<open>JNum\<close> is an integral number (the
  modelled code stores counters, versions and instants), \<open>JDate\<close> a \<open>Date\<close> by its time
  value; an object is the list of its own properties.
\<close>

datatype js =
    JUndef
  | JNull
  | JBool bool
  | JNum int
  | JStr string
  | JDate ms
  | JArr "js list"
  | JObj "(string \<times> js) list"

fun truthy :: "js \<Rightarrow> bool" where
  "truthy JUndef = False"
| "truthy JNull = False"
| "truthy (JBool b) = b"
| "truthy (JNum n) = (n \<noteq> 0)"
| "truthy (JStr s) = (s \<noteq> [])"
| "truthy (JDate t) = True"
| "truthy (JArr xs) = True"
| "truthy (JObj fs) = True"

fun js_get :: "js \<Rightarrow> string \<Rightarrow> js" where
  "js_get (JObj fs) k = (case map_of fs k of Some v \<Rightarrow> v | None \<Rightarrow> JUndef)"
| "js_get v k = JUndef"

text \<open>\<open>a ?? b\<close>.\<close>

fun nullish :: "js \<Rightarrow> bool" where
  "nullish JUndef = True"
| "nullish JNull = True"
| "nullish v = False"

definition coalesce :: "js \<Rightarrow> js \<Rightarrow> js" where
  "coalesce a b = (if nullish a then b else a)"

text \<open>
  The texts kept in Redis: a raw string, or the JSON text of a value, represented by the value
  itself, so that \<open>JSON.stringify\<close> is the constructor and \<open>JSON.parse\<close> inverts it. No key
  that is read back with \<open>JSON.parse\<close> is ever written with a raw string.
\<close>

datatype rtext = Raw string | Json js

fun JSON_parse :: "rtext \<Rightarrow> js option" where
  "JSON_parse (Json v) = Some v"
| "JSON_parse (Raw s) = None"

fun text_nonempty :: "rtext \<Rightarrow> bool" where
  "text_nonempty (Raw s) = (s \<noteq> [])"
| "text_nonempty (Json v) = True"

text \<open>\<open>String(n)\<close> for an integer.\<close>

fun nat_digits :: "nat \<Rightarrow> string" where
  "nat_digits n = (if n < 10 then [char_of (48 + n)] else nat_digits (n div 10) @ [char_of (48 + n mod 10)])"

definition show_int :: "int \<Rightarrow> string" where
  "show_int n = (if n < 0 then CHR ''-'' # nat_digits (nat (- n)) else nat_digits (nat n))"

text \<open>\<open>String(v)\<close> of the scalars that can reach it.\<close>

fun js_String :: "js \<Rightarrow> string" where
  "js_String (JStr s) = s"
| "js_String (JNum n) = show_int n"
| "js_String (JBool b) = (if b then ''true'' else ''false'')"
| "js_String JNull = ''null''"
| "js_String JUndef = ''undefined''"
| "js_String v = ''''"

section \<open>Computations with state and exceptions\<close>

text \<open>
  A computation on a state \<open>'w\<close> returns a value or throws; what it did to the state before
  throwing persists. \<open>Thrown\<close> is a thrown value that is not an error object.
\<close>

datatype exn =
    Error string
  | UniqueViolation string "string option"
  | PgUnique "(string \<times> string) list"
  | RateLimiterUnavailableError
  | Thrown js

type_synonym ('w, 'a) act = "'w \<Rightarrow> (exn + 'a) \<times> 'w"

definition ret :: "'a \<Rightarrow> ('w, 'a) act" where
  "ret a w = (Inr a, w)"

definition raise :: "exn \<Rightarrow> ('w, 'a) act" where
  "raise e w = (Inl e, w)"

definition bindE :: "('w, 'a) act \<Rightarrow> ('a \<Rightarrow> ('w, 'b) act) \<Rightarrow> ('w, 'b) act" where
  "bindE m f w = (case m w of (Inl e, w') \<Rightarrow> (Inl e, w') | (Inr a, w') \<Rightarrow> f a w')"

definition thenE :: "('w, unit) act \<Rightarrow> ('w, 'b) act \<Rightarrow> ('w, 'b) act" where
  "thenE m n = bindE m (\<lambda>_. n)"

definition catchE :: "('w, 'a) act \<Rightarrow> (exn \<Rightarrow> ('w, 'a) act) \<Rightarrow> ('w, 'a) act" where
  "catchE m h w = (case m w of (Inl e, w') \<Rightarrow> h e w' | (Inr a, w') \<Rightarrow> (Inr a, w'))"

definition gets :: "('w \<Rightarrow> 'a) \<Rightarrow> ('w, 'a) act" where
  "gets f w = (Inr (f w), w)"

definition modify :: "('w \<Rightarrow> 'w) \<Rightarrow> ('w, unit) act" where
  "modify f w = (Inr (), f w)"

text \<open>A computation that does not throw.\<close>

definition total_act :: "('w \<Rightarrow> 'a \<times> 'w) \<Rightarrow> ('w, 'a) act" where
  "total_act f w = (case f w of (a, w') \<Rightarrow> (Inr a, w'))"

text \<open>\<open>v.f\<close>, which throws on null and undefined.\<close>

definition type_error :: exn where
  "type_error = Error ''TypeError''"

definition field_of :: "js \<Rightarrow> string \<Rightarrow> ('w, js) act" where
  "field_of v f = (if nullish v then raise type_error else ret (js_get v f))"

named_theorems act_simps "evaluation of computations"

lemma ret_apply [act_simps]: "ret a w = (Inr a, w)"
  and raise_apply [act_simps]: "raise e w = (Inl e, w)"
  and gets_apply [act_simps]: "gets f w = (Inr (f w), w)"
  and modify_apply [act_simps]: "modify g w = (Inr (), g w)"
  by (simp_all add: ret_def raise_def gets_def modify_def)

lemma bindE_Inr [act_simps]: "m w = (Inr a, w') \<Longrightarrow> bindE m f w = f a w'"
  and bindE_Inl [act_simps]: "m w = (Inl e, w') \<Longrightarrow> bindE m f w = (Inl e, w')"
  by (simp_all add: bindE_def)

lemma thenE_Inr [act_simps]: "m w = (Inr u, w') \<Longrightarrow> thenE m n w = n w'"
  and thenE_Inl [act_simps]: "m w = (Inl e, w') \<Longrightarrow> thenE m n w = (Inl e, w')"
  by (simp_all add: thenE_def bindE_def)

lemma catchE_Inr [act_simps]: "m w = (Inr a, w') \<Longrightarrow> catchE m h w = (Inr a, w')"
  and catchE_Inl [act_simps]: "m w = (Inl e, w') \<Longrightarrow> catchE m h w = h e w'"
  by (simp_all add: catchE_def)

lemma total_act_apply [act_simps]: "f w = (a, w') \<Longrightarrow> total_act f w = (Inr a, w')"
  by (simp add: total_act_def)

lemma bindE_assoc: "bindE (bindE m f) g = bindE m (\<lambda>x. bindE (f x) g)"
  by (rule ext) (auto simp: bindE_def split: prod.splits sum.splits)

lemma bindE_eq_Inr:
  "bindE m f w = (Inr b, w2) \<longleftrightarrow> (\<exists>a w1. m w = (Inr a, w1) \<and> f a w1 = (Inr b, w2))"
  by (auto simp: bindE_def split: prod.splits sum.splits)

text \<open>A predicate on states that a computation keeps, whether it returns or throws.\<close>

definition keeps :: "('w \<Rightarrow> bool) \<Rightarrow> ('w, 'a) act \<Rightarrow> bool" where
  "keeps P m \<longleftrightarrow> (\<forall>w. P w \<longrightarrow> P (snd (m w)))"

lemma keepsD: "keeps P m \<Longrightarrow> P w \<Longrightarrow> m w = (r, w') \<Longrightarrow> P w'"
  by (metis keeps_def snd_conv)

lemma find_append: "find P (xs @ ys) = (case find P xs of None \<Rightarrow> find P ys | Some x \<Rightarrow> Some x)"
  by (induction xs) auto

lemma keeps_ret [intro]: "keeps P (ret a)"
  and keeps_raise [intro]: "keeps P (raise e)"
  and keeps_gets [intro]: "keeps P (gets f)"
  by (simp_all add: keeps_def act_simps)

lemma keeps_bindE [intro]: "keeps P m \<Longrightarrow> (\<And>a. keeps P (f a)) \<Longrightarrow> keeps P (bindE m f)"
  by (fastforce simp: keeps_def bindE_def split: prod.splits sum.splits)

lemma keeps_thenE [intro]: "keeps P m \<Longrightarrow> keeps P n \<Longrightarrow> keeps P (thenE m n)"
  by (simp add: thenE_def keeps_bindE)

lemma keeps_catchE [intro]: "keeps P m \<Longrightarrow> (\<And>e. keeps P (h e)) \<Longrightarrow> keeps P (catchE m h)"
  by (fastforce simp: keeps_def catchE_def split: prod.splits sum.splits)

lemma keeps_modify [intro]: "(\<And>w. P w \<Longrightarrow> P (f w)) \<Longrightarrow> keeps P (modify f)"
  by (simp add: keeps_def act_simps)

end
