(* ===== verification/Breaker.thy ===== *)
theory Breaker
  imports UAM_Prelude
begin

text \<open>
  The Redis circuit breaker of \<open>uam-backend/src/config/redisCircuitBreaker.ts\<close>: its
  configuration, the time-bucketed rolling window with its latency histogram, the breaker's
  state machine, and the wrapper \<open>withCircuitBreaker\<close> that races a command against the
  breaker's own deadline.

  Every operation takes the instants and the random draw it reads (\<open>Date.now()\<close>,
  \<open>Math.random()\<close>) as arguments; the JavaScript methods are synchronous, so one instant per call
  is read once. Rates and thresholds are exact rationals. Log output is not modelled.
\<close>

section \<open>States, outcomes and configuration\<close>

datatype circuit_state = CLOSED | OPEN | HALF_OPEN

datatype outcome = SUCCESS | REDIS_ERROR | TIMEOUT | CIRCUIT_OPEN | CONCURRENCY_REJECTED

fun STATE_VALUE :: "circuit_state \<Rightarrow> nat" where
  "STATE_VALUE CLOSED = 0"
| "STATE_VALUE OPEN = 1"
| "STATE_VALUE HALF_OPEN = 2"

record cb_config =
  windowSecs :: int
  minSamples :: int
  consecutiveFailOpen :: int
  consecutiveTimeoutOpen :: int
  errorRateOpen :: rat
  timeoutRateOpen :: rat
  p99UsOpen :: int
  p99UsRecovery :: rat
  errorRateRecovery :: rat
  openCooldownMs :: int
  cooldownJitterMs :: int
  halfOpenProbes :: int
  recoverySuccesses :: int
  maxInflight :: int
  halfOpenMaxMs :: int
  operationTimeoutMs :: int

definition intEnv :: "env \<Rightarrow> string \<Rightarrow> int \<Rightarrow> int" where
  "intEnv env name fallback = (case env name of
      None \<Rightarrow> fallback
    | Some raw \<Rightarrow>
        (if raw = '''' then fallback
         else (case parseInt raw of
                 None \<Rightarrow> fallback
               | Some n \<Rightarrow> (if js_finite_int n then n else fallback))))"

definition floatEnv :: "env \<Rightarrow> string \<Rightarrow> rat \<Rightarrow> rat" where
  "floatEnv env name fallback = (case env name of
      None \<Rightarrow> fallback
    | Some raw \<Rightarrow>
        (if raw = '''' then fallback
         else (case parseFloat raw of
                 None \<Rightarrow> fallback
               | Some n \<Rightarrow> (if js_finite n then n else fallback))))"

definition defaultCircuitBreakerConfig :: "env \<Rightarrow> cb_config" where
  "defaultCircuitBreakerConfig env = \<lparr>
     windowSecs = intEnv env ''REDIS_CB_WINDOW_SECS'' 10,
     minSamples = intEnv env ''REDIS_CB_MIN_SAMPLES'' 20,
     consecutiveFailOpen = intEnv env ''REDIS_CB_CONSECUTIVE_FAIL_OPEN'' 5,
     consecutiveTimeoutOpen = intEnv env ''REDIS_CB_CONSECUTIVE_TIMEOUT_OPEN'' 3,
     errorRateOpen = floatEnv env ''REDIS_CB_ERROR_RATE_OPEN'' (1/2),
     timeoutRateOpen = floatEnv env ''REDIS_CB_TIMEOUT_RATE_OPEN'' (2/5),
     p99UsOpen = intEnv env ''REDIS_CB_P99_US_OPEN'' 250000,
     p99UsRecovery = floatEnv env ''REDIS_CB_P99_US_RECOVERY'' 50000,
     errorRateRecovery = floatEnv env ''REDIS_CB_ERROR_RATE_RECOVERY'' (1/10),
     openCooldownMs = intEnv env ''REDIS_CB_OPEN_COOLDOWN_MS'' 5000,
     cooldownJitterMs = intEnv env ''REDIS_CB_COOLDOWN_JITTER_MS'' 2000,
     halfOpenProbes = intEnv env ''REDIS_CB_HALF_OPEN_PROBES'' 3,
     recoverySuccesses = intEnv env ''REDIS_CB_RECOVERY_SUCCESSES'' 3,
     maxInflight = intEnv env ''REDIS_CB_MAX_INFLIGHT'' 32,
     halfOpenMaxMs = intEnv env ''REDIS_CB_HALF_OPEN_MAX_MS'' 10000,
     operationTimeoutMs = intEnv env ''REDIS_CB_OPERATION_TIMEOUT_MS'' 5000\<rparr>"

definition clampConfig :: "cb_config \<Rightarrow> cb_config" where
  "clampConfig c =
     (let clamped = c\<lparr>
        windowSecs := clamp 1 60 (windowSecs c),
        minSamples := clamp 5 1000 (minSamples c),
        consecutiveFailOpen := clamp 1 100 (consecutiveFailOpen c),
        consecutiveTimeoutOpen := clamp 1 100 (consecutiveTimeoutOpen c),
        errorRateOpen := clamp 0 1 (errorRateOpen c),
        timeoutRateOpen := clamp 0 1 (timeoutRateOpen c),
        p99UsOpen := clamp 1000 60000000 (p99UsOpen c),
        p99UsRecovery := clamp 1000 60000000 (p99UsRecovery c),
        errorRateRecovery := clamp 0 1 (errorRateRecovery c),
        openCooldownMs := clamp 100 300000 (openCooldownMs c),
        cooldownJitterMs := clamp 0 60000 (cooldownJitterMs c),
        halfOpenProbes := clamp 1 20 (halfOpenProbes c),
        recoverySuccesses := clamp 1 20 (recoverySuccesses c),
        maxInflight := clamp 1 10000 (maxInflight c),
        halfOpenMaxMs := clamp 1000 600000 (halfOpenMaxMs c),
        operationTimeoutMs := clamp 100 60000 (operationTimeoutMs c)\<rparr>
      in if halfOpenProbes clamped < recoverySuccesses clamped
         then clamped\<lparr>recoverySuccesses := halfOpenProbes clamped\<rparr>
         else clamped)"

section \<open>The rolling window\<close>

definition HIST_BANDS :: nat where "HIST_BANDS = 18"

definition HIST_BOUNDS_US :: "int list" where
  "HIST_BOUNDS_US =
     [500, 1000, 2000, 4000, 8000, 16000, 32000, 64000,
      100000, 150000, 200000, 300000, 400000, 500000,
      750000, 1000000, 2000000]"

definition MAX_WINDOW_BUCKETS :: int where "MAX_WINDOW_BUCKETS = 64"

definition MAX_SAFE_INTEGER :: int where "MAX_SAFE_INTEGER = 9007199254740991"

record time_bucket =
  b_ts :: int
  b_total :: nat
  b_errors :: nat
  b_timeouts :: nat
  b_latencySum :: int
  b_hist :: "nat list"

record window_stats =
  s_total :: nat
  s_errors :: nat
  s_timeouts :: nat
  s_hist :: "nat list"

type_synonym window = "time_bucket list"

definition zero_bucket :: "int \<Rightarrow> time_bucket" where
  "zero_bucket ts =
     \<lparr>b_ts = ts, b_total = 0, b_errors = 0, b_timeouts = 0, b_latencySum = 0,
      b_hist = replicate HIST_BANDS 0\<rparr>"

definition rw_new :: "int \<Rightarrow> window" where
  "rw_new sz = replicate (nat (min MAX_WINDOW_BUCKETS (max 1 sz))) (zero_bucket 0)"

definition nowSecs :: "ms \<Rightarrow> int" where
  "nowSecs now = now div 1000"

text \<open>The band loop of \<open>record\<close>: the first bound at or above the latency, else the last band.\<close>

fun band_loop :: "nat \<Rightarrow> int list \<Rightarrow> int \<Rightarrow> nat" where
  "band_loop i [] latencyUs = HIST_BANDS - 1"
| "band_loop i (b # bs) latencyUs = (if latencyUs \<le> b then i else band_loop (Suc i) bs latencyUs)"

definition band_of :: "int \<Rightarrow> nat" where
  "band_of latencyUs = band_loop 0 HIST_BOUNDS_US latencyUs"

definition bucket_record :: "int \<Rightarrow> outcome \<Rightarrow> int \<Rightarrow> time_bucket \<Rightarrow> time_bucket" where
  "bucket_record ts out latencyUs b0 =
     (let b = (if b_ts b0 \<noteq> ts then zero_bucket ts else b0);
          band = band_of latencyUs
      in b\<lparr>b_total := b_total b + 1,
           b_latencySum := b_latencySum b + latencyUs,
           b_hist := (b_hist b)[band := b_hist b ! band + 1],
           b_errors := (if out = REDIS_ERROR then b_errors b + 1 else b_errors b),
           b_timeouts := (if out = TIMEOUT then b_timeouts b + 1 else b_timeouts b)\<rparr>)"

definition rw_record :: "ms \<Rightarrow> outcome \<Rightarrow> int \<Rightarrow> window \<Rightarrow> window" where
  "rw_record now out latencyUs w =
     (let ts = nowSecs now; i = nat (ts mod int (length w))
      in w[i := bucket_record ts out latencyUs (w ! i)])"

definition zero_stats :: window_stats where
  "zero_stats = \<lparr>s_total = 0, s_errors = 0, s_timeouts = 0, s_hist = replicate HIST_BANDS 0\<rparr>"

definition add_bucket :: "time_bucket \<Rightarrow> window_stats \<Rightarrow> window_stats" where
  "add_bucket b st =
     st\<lparr>s_total := s_total st + b_total b,
        s_errors := s_errors st + b_errors b,
        s_timeouts := s_timeouts st + b_timeouts b,
        s_hist := map2 (+) (s_hist st) (b_hist b)\<rparr>"

fun aggregate_loop :: "int \<Rightarrow> int \<Rightarrow> window \<Rightarrow> window_stats \<Rightarrow> window_stats" where
  "aggregate_loop cutoff nowTs [] st = st"
| "aggregate_loop cutoff nowTs (b # bs) st =
     aggregate_loop cutoff nowTs bs
       (if b_ts b < cutoff \<or> nowTs < b_ts b then st else add_bucket b st)"

definition rw_aggregate :: "ms \<Rightarrow> int \<Rightarrow> window \<Rightarrow> window_stats" where
  "rw_aggregate now secs w = aggregate_loop (nowSecs now - secs) (nowSecs now) w zero_stats"

definition rw_reset :: "window \<Rightarrow> window" where
  "rw_reset w = map (\<lambda>_. zero_bucket 0) w"

definition errorRate :: "window_stats \<Rightarrow> rat" where
  "errorRate st = (if s_total st = 0 then 0 else of_nat (s_errors st) / of_nat (s_total st))"

definition timeoutRate :: "window_stats \<Rightarrow> rat" where
  "timeoutRate st = (if s_total st = 0 then 0 else of_nat (s_timeouts st) / of_nat (s_total st))"

text \<open>
  \<open>percentileUs\<close>: \<open>Math.ceil(total * pct / 100)\<close> samples must be covered. The division of the
  integer \<open>total * pct\<close> by 100 is at least 1/100 away from every integer it is not equal to,
  so the double's ceiling is the exact one.
\<close>

fun percentile_loop :: "nat \<Rightarrow> nat \<Rightarrow> nat \<Rightarrow> nat list \<Rightarrow> int" where
  "percentile_loop target i cumulative [] = MAX_SAFE_INTEGER"
| "percentile_loop target i cumulative (h # hs) =
     (if target \<le> cumulative + h
      then (if i < length HIST_BOUNDS_US then HIST_BOUNDS_US ! i else MAX_SAFE_INTEGER)
      else percentile_loop target (Suc i) (cumulative + h) hs)"

definition percentile_target :: "nat \<Rightarrow> nat \<Rightarrow> nat" where
  "percentile_target n pct = (n * pct + 99) div 100"

definition percentileUs :: "window_stats \<Rightarrow> nat \<Rightarrow> int" where
  "percentileUs st pct =
     (if s_total st = 0 then 0
      else percentile_loop (percentile_target (s_total st) pct) 0 0 (s_hist st))"

section \<open>The circuit breaker\<close>

record breaker =
  config :: cb_config
  state :: circuit_state
  openedAtMs :: ms
  cooldownMs :: int
  consecutiveFail :: nat
  consecutiveTimeout :: nat
  probesDispatched :: nat
  halfOpenSuccesses :: nat
  halfOpenStartedAtMs :: ms
  inflight :: nat
  window :: window
  requestsTotal :: nat
  successTotal :: nat
  errorsTotal :: nat
  timeoutsTotal :: nat
  circuitOpenTotal :: nat
  circuitHalfOpenTotal :: nat
  circuitRejectedTotal :: nat

definition new_breaker :: "cb_config \<Rightarrow> breaker" where
  "new_breaker c =
     \<lparr>config = clampConfig c, state = CLOSED, openedAtMs = 0, cooldownMs = 0,
      consecutiveFail = 0, consecutiveTimeout = 0, probesDispatched = 0, halfOpenSuccesses = 0,
      halfOpenStartedAtMs = 0, inflight = 0, window = rw_new (windowSecs (clampConfig c)),
      requestsTotal = 0, successTotal = 0, errorsTotal = 0, timeoutsTotal = 0,
      circuitOpenTotal = 0, circuitHalfOpenTotal = 0, circuitRejectedTotal = 0\<rparr>"

definition p50Us :: "ms \<Rightarrow> breaker \<Rightarrow> int" where
  "p50Us now b = percentileUs (rw_aggregate now (windowSecs (config b)) (window b)) 50"

definition p95Us :: "ms \<Rightarrow> breaker \<Rightarrow> int" where
  "p95Us now b = percentileUs (rw_aggregate now (windowSecs (config b)) (window b)) 95"

definition p99Us :: "ms \<Rightarrow> breaker \<Rightarrow> int" where
  "p99Us now b = percentileUs (rw_aggregate now (windowSecs (config b)) (window b)) 99"

definition breaker_errorRate :: "ms \<Rightarrow> breaker \<Rightarrow> rat" where
  "breaker_errorRate now b = errorRate (rw_aggregate now (windowSecs (config b)) (window b))"

text \<open>
  \<open>tripOpen\<close>. The argument \<open>rnd\<close> is the draw of \<open>Math.random()\<close>, in \<open>[0, 1)\<close>.
\<close>

definition jitterMs :: "rat \<Rightarrow> cb_config \<Rightarrow> int" where
  "jitterMs rnd c = (if 0 < cooldownJitterMs c then \<lfloor>rnd * of_int (cooldownJitterMs c)\<rfloor> else 0)"

definition tripOpen :: "ms \<Rightarrow> rat \<Rightarrow> breaker \<Rightarrow> breaker" where
  "tripOpen now rnd b =
     (let effectiveCooldown = openCooldownMs (config b) + jitterMs rnd (config b)
      in if state b \<noteq> OPEN
         then b\<lparr>state := OPEN, openedAtMs := now, cooldownMs := effectiveCooldown,
                circuitOpenTotal := circuitOpenTotal b + 1\<rparr>
         else b)"

definition reject :: "breaker \<Rightarrow> breaker" where
  "reject b = b\<lparr>circuitRejectedTotal := circuitRejectedTotal b + 1\<rparr>"

definition acquireHalfOpen :: "ms \<Rightarrow> rat \<Rightarrow> breaker \<Rightarrow> outcome option \<times> breaker" where
  "acquireHalfOpen now rnd b =
     (if halfOpenMaxMs (config b) \<le> now - halfOpenStartedAtMs b
      then (Some CIRCUIT_OPEN, reject (if state b = HALF_OPEN then tripOpen now rnd b else b))
      else if halfOpenProbes (config b) \<le> int (probesDispatched b)
      then (Some CIRCUIT_OPEN, reject b)
      else if halfOpenProbes (config b) \<le> int (inflight b)
      then (Some CONCURRENCY_REJECTED, reject b)
      else (None, b\<lparr>probesDispatched := probesDispatched b + 1, inflight := inflight b + 1\<rparr>))"

text \<open>\<open>acquire\<close> returns \<open>None\<close> (the source's \<open>null\<close>) to proceed, or the rejection.\<close>

definition acquire :: "ms \<Rightarrow> rat \<Rightarrow> breaker \<Rightarrow> outcome option \<times> breaker" where
  "acquire now rnd b =
     (if state b = CLOSED
      then (if maxInflight (config b) \<le> int (inflight b)
            then (Some CONCURRENCY_REJECTED, reject b)
            else (None, b\<lparr>inflight := inflight b + 1\<rparr>))
      else if state b = OPEN
      then (if cooldownMs b \<le> now - openedAtMs b
            then acquireHalfOpen now rnd
                   (b\<lparr>state := HALF_OPEN, probesDispatched := 0, halfOpenSuccesses := 0,
                      halfOpenStartedAtMs := now,
                      circuitHalfOpenTotal := circuitHalfOpenTotal b + 1\<rparr>)
            else (Some CIRCUIT_OPEN, reject b))
      else acquireHalfOpen now rnd b)"

definition checkStatisticalOpen :: "ms \<Rightarrow> rat \<Rightarrow> breaker \<Rightarrow> breaker" where
  "checkStatisticalOpen now rnd b =
     (let cfg = config b; st = rw_aggregate now (windowSecs cfg) (window b)
      in if int (s_total st) < minSamples cfg then b
         else if errorRateOpen cfg \<le> errorRate st \<or> timeoutRateOpen cfg \<le> timeoutRate st
                 \<or> p99UsOpen cfg \<le> percentileUs st 99
         then tripOpen now rnd b
         else b)"

text \<open>The three outcome branches of \<open>release\<close>, after its common prefix.\<close>

definition release_success :: "ms \<Rightarrow> rat \<Rightarrow> breaker \<Rightarrow> breaker" where
  "release_success now rnd b0 =
     (let b = b0\<lparr>successTotal := successTotal b0 + 1, consecutiveFail := 0, consecutiveTimeout := 0\<rparr>
      in if state b = HALF_OPEN
         then (let b1 = b\<lparr>halfOpenSuccesses := halfOpenSuccesses b + 1\<rparr>
               in if recoverySuccesses (config b1) \<le> int (halfOpenSuccesses b1)
                  then (let st = rw_aggregate now (windowSecs (config b1)) (window b1)
                        in if of_int (percentileUs st 99) \<le> p99UsRecovery (config b1)
                              \<and> errorRate st \<le> errorRateRecovery (config b1)
                           then b1\<lparr>state := CLOSED\<rparr>
                           else b1)
                  else b1)
         else checkStatisticalOpen now rnd b)"

definition release_timeout :: "ms \<Rightarrow> rat \<Rightarrow> breaker \<Rightarrow> breaker" where
  "release_timeout now rnd b0 =
     (let b = b0\<lparr>timeoutsTotal := timeoutsTotal b0 + 1, consecutiveFail := consecutiveFail b0 + 1,
                 consecutiveTimeout := consecutiveTimeout b0 + 1\<rparr>
      in if state b = HALF_OPEN then tripOpen now rnd b
         else if consecutiveTimeoutOpen (config b) \<le> int (consecutiveTimeout b)
                 \<or> consecutiveFailOpen (config b) \<le> int (consecutiveFail b)
         then tripOpen now rnd b
         else checkStatisticalOpen now rnd b)"

definition release_error :: "ms \<Rightarrow> rat \<Rightarrow> breaker \<Rightarrow> breaker" where
  "release_error now rnd b0 =
     (let b = b0\<lparr>errorsTotal := errorsTotal b0 + 1, consecutiveFail := consecutiveFail b0 + 1\<rparr>
      in if state b = HALF_OPEN then tripOpen now rnd b
         else if consecutiveFailOpen (config b) \<le> int (consecutiveFail b)
         then tripOpen now rnd b
         else checkStatisticalOpen now rnd b)"

definition release :: "ms \<Rightarrow> rat \<Rightarrow> outcome \<Rightarrow> int \<Rightarrow> breaker \<Rightarrow> breaker" where
  "release now rnd out latencyUs b0 =
     (let b = b0\<lparr>inflight := inflight b0 - 1,
                 window := rw_record now out latencyUs (window b0),
                 requestsTotal := requestsTotal b0 + 1\<rparr>
      in if out = SUCCESS then release_success now rnd b
         else if out = TIMEOUT then release_timeout now rnd b
         else if out = REDIS_ERROR then release_error now rnd b
         else b)"

definition reset :: "breaker \<Rightarrow> breaker" where
  "reset b =
     b\<lparr>state := CLOSED, consecutiveFail := 0, consecutiveTimeout := 0, probesDispatched := 0,
       halfOpenSuccesses := 0, halfOpenStartedAtMs := 0, inflight := 0,
       window := rw_reset (window b)\<rparr>"

section \<open>Running a command under the breaker\<close>

text \<open>
  A rejection value: its \<open>message\<close> and \<open>code\<close> properties, and \<open>String(err)\<close>, which
  replaces an absent message.
\<close>

record js_error =
  err_message :: "string option"
  err_code :: "string option"
  err_string :: string

definition classifyRedisError :: "js_error \<Rightarrow> outcome" where
  "classifyRedisError e =
     (let message = toLowerCase (case err_message e of Some m \<Rightarrow> m | None \<Rightarrow> err_string e)
      in if str_includes message ''timed out'' \<or> str_includes message ''wouldblock''
            \<or> str_includes message ''timeout'' \<or> err_code e = Some ''ETIMEDOUT''
         then TIMEOUT else REDIS_ERROR)"

text \<open>
  \<open>withCircuitBreaker\<close>: after a granted \<open>acquire\<close>, the timer and the command's promise race;
  each calls \<open>finish\<close>, and the flag \<open>settled\<close> lets the first call through only. A
  settlement carries the instant, the random draw and the elapsed nanoseconds it reads.
\<close>

datatype 'v settlement = TimerFires | FnResolves 'v | FnRejects js_error

datatype 'v cb_result = Ok 'v | NotOk outcome

record 'v pending =
  p_breaker :: breaker
  p_settled :: bool
  p_result :: "'v cb_result option"

definition elapsedUs :: "int \<Rightarrow> int" where
  "elapsedUs ns = (ns + 500) div 1000"

definition finish :: "ms \<Rightarrow> rat \<Rightarrow> int \<Rightarrow> outcome \<Rightarrow> 'v option \<Rightarrow> 'v pending \<Rightarrow> 'v pending" where
  "finish now rnd ns out val p =
     (if p_settled p then p
      else p\<lparr>p_settled := True,
             p_breaker := release now rnd out (elapsedUs ns) (p_breaker p),
             p_result := Some (case (out, val) of (SUCCESS, Some v) \<Rightarrow> Ok v | _ \<Rightarrow> NotOk out)\<rparr>)"

fun settle :: "'v pending \<Rightarrow> ms \<times> rat \<times> int \<times> 'v settlement \<Rightarrow> 'v pending" where
  "settle p (now, rnd, ns, TimerFires) = finish now rnd ns TIMEOUT None p"
| "settle p (now, rnd, ns, FnResolves v) = finish now rnd ns SUCCESS (Some v) p"
| "settle p (now, rnd, ns, FnRejects e) = finish now rnd ns (classifyRedisError e) None p"

definition withCircuitBreaker ::
    "ms \<Rightarrow> rat \<Rightarrow> (ms \<times> rat \<times> int \<times> 'v settlement) list \<Rightarrow> breaker \<Rightarrow> 'v cb_result option \<times> breaker" where
  "withCircuitBreaker now rnd events b =
     (case acquire now rnd b of
        (Some out, b') \<Rightarrow> (Some (NotOk out), b')
      | (None, b') \<Rightarrow>
          (let p = run settle \<lparr>p_breaker = b', p_settled = False, p_result = None\<rparr> events
           in (p_result p, p_breaker p)))"

end
