(* ===== verification/Breaker_Window.thy ===== *)
theory Breaker_Window
  imports Breaker "HOL-Library.Multiset"
begin

text \<open>
  Correctness of the rolling window and its histogram. A window is a ring of one-second
  buckets that are reused as time passes; the abstract view is the log of all samples ever
  recorded. The ring's aggregate is shown to be the statistics of exactly the samples of the
  last \<open>windowSecs\<close> seconds, and the histogram percentile to be the percentile of the recorded
  latencies at the resolution of the histogram's bounds.
\<close>

section \<open>Buckets and windows\<close>

definition bucket_ok :: "time_bucket \<Rightarrow> bool" where
  "bucket_ok b \<longleftrightarrow> length (b_hist b) = HIST_BANDS \<and> sum_list (b_hist b) = b_total b
     \<and> b_errors b + b_timeouts b \<le> b_total b"

definition wf_window :: "window \<Rightarrow> bool" where
  "wf_window w \<longleftrightarrow> w \<noteq> [] \<and> list_all bucket_ok w"

definition stats_ok :: "window_stats \<Rightarrow> bool" where
  "stats_ok st \<longleftrightarrow> length (s_hist st) = HIST_BANDS \<and> sum_list (s_hist st) = s_total st
     \<and> s_errors st + s_timeouts st \<le> s_total st"

lemma band_loop_less: "i + length bs < HIST_BANDS \<Longrightarrow> band_loop i bs lat < HIST_BANDS"
  by (induction bs arbitrary: i) (auto simp: HIST_BANDS_def)

lemma band_of_less [simp]: "band_of lat < HIST_BANDS"
  unfolding band_of_def by (rule band_loop_less) (simp add: HIST_BOUNDS_US_def HIST_BANDS_def)

lemma sum_list_bump:
  "i < length xs \<Longrightarrow> sum_list (xs[i := xs ! i + (1::nat)]) = sum_list xs + 1"
  by (induction xs arbitrary: i) (auto split: nat.splits)

lemma zero_bucket_ok [simp]: "bucket_ok (zero_bucket ts)"
  by (simp add: bucket_ok_def zero_bucket_def)

lemma bucket_record_ok: "bucket_ok b \<Longrightarrow> bucket_ok (bucket_record ts out lat b)"
  by (auto simp: bucket_record_def bucket_ok_def zero_bucket_def Let_def sum_list_bump
      simp flip: One_nat_def)

lemma rw_new_wf [simp]: "wf_window (rw_new n)"
  by (auto simp: wf_window_def rw_new_def MAX_WINDOW_BUCKETS_def list_all_iff)

lemma length_rw_record [simp]: "length (rw_record now out lat w) = length w"
  by (simp add: rw_record_def Let_def)

lemma rw_record_wf: "wf_window w \<Longrightarrow> wf_window (rw_record now out lat w)"
proof -
  assume w: "wf_window w"
  let ?i = "nat (nowSecs now mod int (length w))"
  from w have "?i < length w"
    by (simp add: wf_window_def nat_less_iff)
  with w have "bucket_ok (bucket_record (nowSecs now) out lat (w ! ?i))"
    by (intro bucket_record_ok) (simp add: wf_window_def list_all_length)
  with w show ?thesis
    by (auto simp: wf_window_def rw_record_def Let_def list_all_iff
        dest!: set_update_subset_insert [THEN subsetD])
qed

lemma rw_reset_wf: "wf_window w \<Longrightarrow> wf_window (rw_reset w)"
  by (auto simp: wf_window_def rw_reset_def list_all_iff)

lemma length_rw_reset [simp]: "length (rw_reset w) = length w"
  by (simp add: rw_reset_def)

lemma sum_list_map2_add:
  "length xs = length ys \<Longrightarrow> sum_list (map2 (+) xs ys) = sum_list xs + (sum_list ys :: nat)"
  by (induction xs ys rule: list_induct2) auto

lemma add_bucket_ok: "stats_ok st \<Longrightarrow> bucket_ok b \<Longrightarrow> stats_ok (add_bucket b st)"
  by (auto simp: stats_ok_def bucket_ok_def add_bucket_def sum_list_map2_add)

lemma aggregate_loop_ok:
  "list_all bucket_ok w \<Longrightarrow> stats_ok st \<Longrightarrow> stats_ok (aggregate_loop c n w st)"
  by (induction w arbitrary: st) (auto intro: add_bucket_ok)

lemma rw_aggregate_ok: "wf_window w \<Longrightarrow> stats_ok (rw_aggregate now secs w)"
  unfolding rw_aggregate_def
  by (rule aggregate_loop_ok) (auto simp: wf_window_def stats_ok_def zero_stats_def)

lemma length_rw_new: "length (rw_new n) = nat (min 64 (max 1 n))"
  by (simp add: rw_new_def MAX_WINDOW_BUCKETS_def)

section \<open>Histogram bands\<close>

definition band_bound :: "nat \<Rightarrow> int" where
  "band_bound i = (if i < length HIST_BOUNDS_US then HIST_BOUNDS_US ! i else MAX_SAFE_INTEGER)"

lemma band_loop_ge: "i + length bs < HIST_BANDS \<Longrightarrow> i \<le> band_loop i bs lat"
proof (induction bs arbitrary: i)
  case (Cons b bs)
  from Cons.IH [of "Suc i"] Cons.prems show ?case by simp
qed (simp add: HIST_BANDS_def)

lemma band_loop_le_iff:
  assumes "sorted bs" and "k < length bs" and "i + length bs < HIST_BANDS"
  shows "band_loop i bs lat \<le> i + k \<longleftrightarrow> lat \<le> bs ! k"
  using assms
proof (induction bs arbitrary: i k)
  case (Cons b bs)
  show ?case
  proof (cases k)
    case 0
    from band_loop_ge [of "Suc i" bs lat] Cons.prems have "\<not> band_loop (Suc i) bs lat \<le> i" by simp
    with 0 show ?thesis by auto
  next
    case (Suc j)
    with Cons.IH [of j "Suc i"] Cons.prems have
      IH: "band_loop (Suc i) bs lat \<le> Suc i + j \<longleftrightarrow> lat \<le> bs ! j" by simp
    from Suc Cons.prems have "b \<le> bs ! j" by auto
    with IH Suc show ?thesis by auto
  qed
qed simp

lemma HIST_BOUNDS_US_sorted: "sorted HIST_BOUNDS_US"
  by (simp add: HIST_BOUNDS_US_def)

lemma length_HIST_BOUNDS_US [simp]: "length HIST_BOUNDS_US = 17"
  by (simp add: HIST_BOUNDS_US_def)

lemma band_of_le_iff: "i < 17 \<Longrightarrow> band_of lat \<le> i \<longleftrightarrow> lat \<le> HIST_BOUNDS_US ! i"
  using band_loop_le_iff [OF HIST_BOUNDS_US_sorted, of i 0 lat]
  by (simp add: band_of_def HIST_BANDS_def)

lemma band_of_le_bound:
  "i < HIST_BANDS \<Longrightarrow> lat \<le> MAX_SAFE_INTEGER \<Longrightarrow> band_of lat \<le> i \<longleftrightarrow> lat \<le> band_bound i"
proof (cases "i < 17")
  case False
  assume "i < HIST_BANDS" "lat \<le> MAX_SAFE_INTEGER"
  with False band_of_less [of lat] show ?thesis
    by (simp add: band_bound_def HIST_BANDS_def)
qed (simp add: band_bound_def band_of_le_iff)

text \<open>The histogram of a list of latencies.\<close>

definition hist_of :: "int list \<Rightarrow> nat list" where
  "hist_of ls = map (\<lambda>i. length (filter (\<lambda>l. band_of l = i) ls)) [0..<HIST_BANDS]"

lemma length_hist_of [simp]: "length (hist_of ls) = HIST_BANDS"
  by (simp add: hist_of_def)

lemma hist_of_Nil [simp]: "hist_of [] = replicate HIST_BANDS 0"
  by (simp add: hist_of_def map_replicate_const)

lemma hist_of_snoc: "hist_of (ls @ [l]) = (hist_of ls)[band_of l := hist_of ls ! band_of l + 1]"
  by (rule nth_equalityI) (auto simp: hist_of_def nth_list_update)

lemma hist_of_append: "hist_of (xs @ ys) = map2 (+) (hist_of xs) (hist_of ys)"
  by (rule nth_equalityI) (auto simp: hist_of_def)

lemma sum_take_hist_of:
  "k \<le> HIST_BANDS \<Longrightarrow> sum_list (take k (hist_of ls)) = length (filter (\<lambda>l. band_of l < k) ls)"
proof (induction k)
  case (Suc k)
  have "length (filter (\<lambda>l. band_of l < Suc k) ls)
        = length (filter (\<lambda>l. band_of l < k) ls) + length (filter (\<lambda>l. band_of l = k) ls)"
    by (induction ls) auto
  with Suc show ?case by (simp add: take_Suc_conv_app_nth hist_of_def)
qed simp

lemma sum_hist_of [simp]: "sum_list (hist_of ls) = length ls"
  using sum_take_hist_of [of HIST_BANDS ls] by simp

section \<open>Percentiles\<close>

lemma percentile_loop_spec:
  assumes "target \<le> c + sum_list hs" and "c < target"
  shows "\<exists>k<length hs. percentile_loop target i c hs = band_bound (i + k)
           \<and> target \<le> c + sum_list (take (Suc k) hs) \<and> c + sum_list (take k hs) < target"
  using assms
proof (induction hs arbitrary: i c)
  case (Cons h hs)
  show ?case
  proof (cases "target \<le> c + h")
    case True
    with Cons.prems show ?thesis by (intro exI [of _ 0]) (simp add: band_bound_def)
  next
    case False
    with Cons.IH [of "c + h" "Suc i"] Cons.prems obtain k where
      "k < length hs" "percentile_loop target (Suc i) (c + h) hs = band_bound (Suc i + k)"
      "target \<le> c + h + sum_list (take (Suc k) hs)" "c + h + sum_list (take k hs) < target"
      by (auto simp: add.assoc)
    with False show ?thesis by (intro exI [of _ "Suc k"]) (simp add: add.assoc)
  qed
qed simp

lemma percentile_target_bounds:
  assumes "0 < n" and "0 < pct" and "pct \<le> 100"
  shows "0 < percentile_target n pct" and "percentile_target n pct \<le> n"
    and "n * pct \<le> 100 * percentile_target n pct"
proof -
  have "n * 1 \<le> n * pct" using assms by (intro mult_le_mono2) simp
  then show "0 < percentile_target n pct" using assms
    by (simp add: percentile_target_def div_greater_zero_iff)
  have "n * pct \<le> n * 100" using assms by (intro mult_le_mono2) simp
  then have "(n * pct + 99) div 100 \<le> (n * 100 + 99) div 100" by (intro div_le_mono) simp
  then show "percentile_target n pct \<le> n" by (simp add: percentile_target_def)
  show "n * pct \<le> 100 * percentile_target n pct"
    unfolding percentile_target_def by simp
qed

lemma percentile_of_hist:
  assumes "ls \<noteq> []" and "0 < pct" and "pct \<le> 100" and "s_total st = length ls" and "s_hist st = hist_of ls"
  obtains k where "k < HIST_BANDS" and "percentileUs st pct = band_bound k"
    and "percentile_target (length ls) pct \<le> length (filter (\<lambda>l. band_of l \<le> k) ls)"
    and "length (filter (\<lambda>l. band_of l < k) ls) < percentile_target (length ls) pct"
proof -
  let ?t = "percentile_target (length ls) pct"
  from assms have t: "0 < ?t" "?t \<le> length ls"
    using percentile_target_bounds [of "length ls" pct] by auto
  then obtain k where k: "k < HIST_BANDS" "percentile_loop ?t 0 0 (hist_of ls) = band_bound k"
      "?t \<le> sum_list (take (Suc k) (hist_of ls))" "sum_list (take k (hist_of ls)) < ?t"
    using percentile_loop_spec [of ?t 0 "hist_of ls" 0] by auto
  from k(3) k(1) have "?t \<le> length (filter (\<lambda>l. band_of l < Suc k) ls)"
    by (simp only: sum_take_hist_of Suc_leI)
  moreover from k(4) k(1) have "length (filter (\<lambda>l. band_of l < k) ls) < ?t"
    by (simp add: sum_take_hist_of)
  moreover have "percentileUs st pct = band_bound k"
    using assms k(2) by (simp add: percentileUs_def)
  ultimately show ?thesis using k(1) that [of k] by (simp add: less_Suc_eq_le)
qed

text \<open>
  The percentile that \<open>percentileUs\<close> reads from the histogram of any non-empty list of
  latencies is right at the histogram's resolution: at least \<open>pct\<close> percent of the latencies are
  at or below the reported value, and for every histogram bound below the reported value fewer
  than that many latencies are at or below it.
\<close>

theorem percentileUs_correct:
  assumes "ls \<noteq> []" and "0 < pct" and "pct \<le> 100"
    and "s_total st = length ls" and "s_hist st = hist_of ls"
    and "\<forall>l\<in>set ls. l \<le> MAX_SAFE_INTEGER"
  shows "length ls * pct \<le> 100 * length (filter (\<lambda>l. l \<le> percentileUs st pct) ls)
         \<and> (\<forall>q\<in>set HIST_BOUNDS_US. q < percentileUs st pct \<longrightarrow>
              100 * length (filter (\<lambda>l. l \<le> q) ls) < length ls * pct)"
proof -
  obtain k where k: "k < HIST_BANDS" "percentileUs st pct = band_bound k"
      "percentile_target (length ls) pct \<le> length (filter (\<lambda>l. band_of l \<le> k) ls)"
      "length (filter (\<lambda>l. band_of l < k) ls) < percentile_target (length ls) pct"
    using percentile_of_hist [OF assms(1-5)] by blast
  have le: "filter (\<lambda>l. band_of l \<le> k) ls = filter (\<lambda>l. l \<le> percentileUs st pct) ls"
    using assms(6) k(1,2) by (intro filter_cong) (simp_all add: band_of_le_bound)
  have "100 * length (filter (\<lambda>l. l \<le> q) ls) < length ls * pct"
    if q: "q \<in> set HIST_BOUNDS_US" "q < band_bound k" for q
  proof -
    from q(1) obtain j where j: "j < 17" "q = HIST_BOUNDS_US ! j" by (auto simp: in_set_conv_nth)
    have "\<not> k \<le> j"
    proof
      assume "k \<le> j"
      with j have "band_bound k \<le> q"
        using HIST_BOUNDS_US_sorted by (simp add: band_bound_def sorted_nth_mono)
      with q(2) show False by simp
    qed
    then have "length (filter (\<lambda>l. l \<le> q) ls) \<le> length (filter (\<lambda>l. band_of l < k) ls)"
      using j by (induction ls) (auto simp flip: band_of_le_iff)
    then show ?thesis using k(4) by (simp add: percentile_target_def)
  qed
  with k le percentile_target_bounds(3) [of "length ls" pct] assms(1-3) show ?thesis by auto
qed

theorem percentileUs_correct_witness:
  "3 * 50 \<le> 100 * length (filter (\<lambda>l. l \<le> 1000) [400, 900, 70000 :: int])
   \<and> percentileUs \<lparr>s_total = 3, s_errors = 0, s_timeouts = 0, s_hist = hist_of [400, 900, 70000]\<rparr> 50 = 1000"
  using percentileUs_correct [of "[400, 900, 70000]" 50
      "\<lparr>s_total = 3, s_errors = 0, s_timeouts = 0, s_hist = hist_of [400, 900, 70000]\<rparr>"]
  by (simp add: MAX_SAFE_INTEGER_def) code_simp

section \<open>The ring and the log\<close>

type_synonym sample = "ms \<times> outcome \<times> int"

abbreviation sec :: "sample \<Rightarrow> int" where "sec s \<equiv> nowSecs (fst s)"

definition record_sample :: "window \<Rightarrow> sample \<Rightarrow> window" where
  "record_sample w s = rw_record (fst s) (fst (snd s)) (snd (snd s)) w"

definition count_outcome :: "outcome \<Rightarrow> sample list \<Rightarrow> nat" where
  "count_outcome out xs = length (filter (\<lambda>s. fst (snd s) = out) xs)"

abbreviation latencies :: "sample list \<Rightarrow> int list" where "latencies xs \<equiv> map (snd \<circ> snd) xs"

text \<open>The statistics of a list of samples, and the bucket that holds exactly these samples.\<close>

definition stats_of :: "sample list \<Rightarrow> window_stats" where
  "stats_of xs = \<lparr>s_total = length xs, s_errors = count_outcome REDIS_ERROR xs,
                  s_timeouts = count_outcome TIMEOUT xs, s_hist = hist_of (latencies xs)\<rparr>"

definition bucket_of :: "int \<Rightarrow> sample list \<Rightarrow> time_bucket" where
  "bucket_of ts xs = \<lparr>b_ts = ts, b_total = length xs, b_errors = count_outcome REDIS_ERROR xs,
                     b_timeouts = count_outcome TIMEOUT xs,
                     b_latencySum = sum_list (latencies xs), b_hist = hist_of (latencies xs)\<rparr>"

lemma b_ts_bucket_of [simp]: "b_ts (bucket_of ts xs) = ts"
  by (simp add: bucket_of_def)

lemma zero_bucket_eq: "zero_bucket ts = bucket_of ts []"
  by (simp add: zero_bucket_def bucket_of_def count_outcome_def)

lemma zero_stats_eq: "zero_stats = stats_of []"
  by (simp add: zero_stats_def stats_of_def count_outcome_def)

lemma bucket_record_same:
  "bucket_record ts (fst (snd s)) (snd (snd s)) (bucket_of ts xs) = bucket_of ts (xs @ [s])"
  by (simp add: bucket_record_def bucket_of_def count_outcome_def hist_of_snoc Let_def)

lemma bucket_record_stale:
  "t \<noteq> ts \<Longrightarrow> bucket_record ts (fst (snd s)) (snd (snd s)) (bucket_of t xs) = bucket_of ts [s]"
proof -
  assume "t \<noteq> ts"
  then have "bucket_record ts (fst (snd s)) (snd (snd s)) (bucket_of t xs)
             = bucket_record ts (fst (snd s)) (snd (snd s)) (bucket_of ts [])"
    by (simp only: bucket_record_def b_ts_bucket_of zero_bucket_eq if_True if_False not_False_eq_True simp_thms)
  then show ?thesis by (simp add: bucket_record_same)
qed

lemma add_bucket_of: "add_bucket (bucket_of t xs) (stats_of zs) = stats_of (zs @ xs)"
  by (simp add: add_bucket_def bucket_of_def stats_of_def count_outcome_def hist_of_append)

lemma stats_of_mset: "mset xs = mset ys \<Longrightarrow> stats_of xs = stats_of ys"
proof -
  assume m: "mset xs = mset ys"
  then have f: "length (filter P xs) = length (filter P ys)" for P
    by (metis mset_filter size_mset)
  have h: "hist_of (latencies xs) = hist_of (latencies ys)"
    unfolding hist_of_def
    by (rule map_cong [OF refl]) (simp only: filter_map length_map comp_def f)
  show ?thesis
    unfolding stats_of_def count_outcome_def h mset_eq_length [OF m]
      f [of "\<lambda>s. fst (snd s) = REDIS_ERROR"] f [of "\<lambda>s. fst (snd s) = TIMEOUT"] ..
qed

abbreviation slot :: "nat \<Rightarrow> sample \<Rightarrow> nat" where "slot n s \<equiv> nat (sec s mod int n)"

text \<open>The samples a slot of the ring still holds: those of the latest second mapped to it.\<close>

definition in_slot :: "nat \<Rightarrow> nat \<Rightarrow> sample list \<Rightarrow> sample list" where
  "in_slot n i lg = filter (\<lambda>s. slot n s = i) lg"

definition kept :: "nat \<Rightarrow> nat \<Rightarrow> sample list \<Rightarrow> sample list" where
  "kept n i lg = filter (\<lambda>s. sec s = sec (last (in_slot n i lg))) (in_slot n i lg)"

definition slot_ts :: "nat \<Rightarrow> nat \<Rightarrow> sample list \<Rightarrow> int" where
  "slot_ts n i lg = (if in_slot n i lg = [] then 0 else sec (last (in_slot n i lg)))"

lemma in_slot_snoc: "in_slot n i (lg @ [s]) = in_slot n i lg @ (if slot n s = i then [s] else [])"
  by (simp add: in_slot_def)

lemma kept_other: "slot n s \<noteq> i \<Longrightarrow> kept n i (lg @ [s]) = kept n i lg"
  "slot n s \<noteq> i \<Longrightarrow> slot_ts n i (lg @ [s]) = slot_ts n i lg"
  by (simp_all add: kept_def slot_ts_def in_slot_snoc)

lemma sorted_last_max: "sorted (map f xs) \<Longrightarrow> x \<in> set xs \<Longrightarrow> f x \<le> f (last xs)"
  by (induction xs rule: rev_induct) (auto simp: sorted_append)

lemma in_slot_last_max:
  assumes "sorted (map sec lg)" and "s \<in> set (in_slot n i lg)"
  shows "sec s \<le> sec (last (in_slot n i lg))"
proof -
  have "sorted (map sec (in_slot n i lg))"
    using assms(1) unfolding in_slot_def by (rule sorted_filter)
  then show ?thesis using assms(2) by (rule sorted_last_max)
qed

lemma kept_snoc:
  assumes "sorted (map sec (lg @ [s]))" and "slot n s = i"
  shows "bucket_of (sec s) (kept n i (lg @ [s])) =
         bucket_record (sec s) (fst (snd s)) (snd (snd s)) (bucket_of (slot_ts n i lg) (kept n i lg))"
proof (cases "slot_ts n i lg = sec s")
  case True
  have "kept n i (lg @ [s]) = kept n i lg @ [s]"
  proof (cases "in_slot n i lg = []")
    case False
    with True assms(2) show ?thesis by (simp add: kept_def slot_ts_def in_slot_snoc)
  qed (simp add: kept_def in_slot_snoc assms(2))
  with True show ?thesis by (simp add: bucket_record_same)
next
  case False
  have "filter (\<lambda>x. sec x = sec s) (in_slot n i lg) = []"
  proof (cases "in_slot n i lg = []")
    case ne: False
    then have l: "sec (last (in_slot n i lg)) \<noteq> sec s" using False by (simp add: slot_ts_def)
    have "last (in_slot n i lg) \<in> set lg" using last_in_set [OF ne] by (simp add: in_slot_def)
    with assms(1) l have "sec (last (in_slot n i lg)) < sec s" by (auto simp: sorted_append)
    moreover have "sec x \<le> sec (last (in_slot n i lg))" if "x \<in> set (in_slot n i lg)" for x
      using in_slot_last_max [OF _ that] assms(1) by (simp add: sorted_append)
    ultimately show ?thesis by (fastforce simp: filter_empty_conv)
  qed simp
  then have "kept n i (lg @ [s]) = [s]" using assms(2) by (simp add: kept_def in_slot_snoc)
  with False show ?thesis by (simp add: bucket_record_stale)
qed

lemma ring_contents:
  assumes "sorted (map sec lg)" and "0 < n"
  shows "run record_sample (replicate n (zero_bucket 0)) lg
         = map (\<lambda>i. bucket_of (slot_ts n i lg) (kept n i lg)) [0..<n]"
  using assms(1)
proof (induction lg rule: rev_induct)
  case Nil
  then show ?case
    by (simp add: zero_bucket_eq kept_def slot_ts_def in_slot_def map_replicate_const)
next
  case (snoc s lg)
  let ?w = "map (\<lambda>i. bucket_of (slot_ts n i lg) (kept n i lg)) [0..<n]"
  from snoc have IH: "run record_sample (replicate n (zero_bucket 0)) lg = ?w"
    by (simp add: sorted_append)
  have i: "slot n s < n" using assms(2) by (simp add: nat_less_iff)
  have "slot_ts n (slot n s) (lg @ [s]) = sec s" by (simp add: slot_ts_def in_slot_snoc)
  with kept_snoc [OF snoc.prems refl, of n] i
  have "record_sample ?w s = map (\<lambda>i. bucket_of (slot_ts n i (lg @ [s])) (kept n i (lg @ [s]))) [0..<n]"
    by (intro nth_equalityI)
       (auto simp: record_sample_def rw_record_def Let_def nth_list_update kept_other)
  with IH show ?case by simp
qed

lemma aggregate_loop_buckets:
  "aggregate_loop c m (map (\<lambda>i. bucket_of (t i) (xs i)) is) (stats_of zs)
   = stats_of (zs @ concat (map (\<lambda>i. if c \<le> t i \<and> t i \<le> m then xs i else []) is))"
  by (induction "is" arbitrary: zs) (auto simp: add_bucket_of)

lemma count_concat_upt: "count (mset (concat (map F [0..<n]))) x = (\<Sum>i<n. count (mset (F i)) x)"
  by (induction n) auto

lemma mset_concat_slots:
  assumes "\<And>s. s \<in> set lg \<Longrightarrow> f s < n"
  shows "mset (concat (map (\<lambda>i. filter (\<lambda>s. f s = i \<and> Q s) lg) [0..<n])) = mset (filter Q lg)"
proof (rule multiset_eqI)
  fix x
  have "(\<Sum>i<n. count (mset (filter (\<lambda>s. f s = i \<and> Q s) lg)) x)
        = (\<Sum>i<n. if i = f x then (if Q x then count (mset lg) x else 0) else 0)"
    by (intro sum.cong) auto
  also have "\<dots> = (if Q x then count (mset lg) x else 0)"
    using assms [of x] by (cases "x \<in> set lg") (auto simp: sum.delta count_eq_zero_iff)
  finally show "count (mset (concat (map (\<lambda>i. filter (\<lambda>s. f s = i \<and> Q s) lg) [0..<n]))) x
      = count (mset (filter Q lg)) x"
    by (simp add: count_concat_upt)
qed

lemma kept_in_range:
  "(if c \<le> slot_ts n i lg \<and> slot_ts n i lg \<le> m then kept n i lg else [])
   = filter (\<lambda>s. slot n s = i \<and> c \<le> sec s \<and> sec s \<le> m \<and> sec s = sec (last (in_slot n (slot n s) lg))) lg"
proof (cases "in_slot n i lg = []")
  case True
  then have "filter (\<lambda>s. slot n s = i \<and> P s) lg = []" for P
    by (auto simp: in_slot_def filter_empty_conv)
  with True show ?thesis by (simp add: kept_def)
next
  case False
  have "kept n i lg = filter (\<lambda>s. slot n s = i \<and> sec s = sec (last (in_slot n i lg))) lg"
    by (simp add: kept_def in_slot_def conj_commute)
  with False show ?thesis
    by (auto simp: slot_ts_def filter_empty_conv intro!: filter_cong)
qed

text \<open>Two seconds in the same slot less than a whole ring apart are the same second.\<close>

lemma same_slot_close:
  assumes "0 < n" and "slot n s = slot n s'" and "\<bar>sec s - sec s'\<bar> < int n"
  shows "sec s = sec s'"
proof -
  from assms(1,2) have "sec s mod int n = sec s' mod int n"
    by (metis eq_nat_nat_iff of_nat_0_less_iff pos_mod_sign)
  then have "int n dvd sec s - sec s'" by (simp add: mod_eq_dvd_iff)
  with assms(3) show ?thesis using zdvd_not_zless [of "\<bar>sec s - sec s'\<bar>" "int n"] by fastforce
qed

lemma latest_in_slot_iff:
  assumes "sorted (map sec lg)" and "s \<in> set lg" and "\<forall>x\<in>set lg. sec x \<le> m" and "0 < n"
  shows "m - int n \<le> sec s \<and> sec s \<le> m \<and> sec s = sec (last (in_slot n (slot n s) lg)) \<longleftrightarrow>
         m - int n < sec s \<or> (sec s = m - int n \<and> (\<forall>x\<in>set lg. sec x \<noteq> m))"
proof -
  let ?i = "in_slot n (slot n s) lg" and ?l = "last (in_slot n (slot n s) lg)"
  have s: "s \<in> set ?i" using assms(2) by (simp add: in_slot_def)
  then have l: "?l \<in> set ?i" by (metis last_in_set list.set(1) empty_iff)
  then have l': "?l \<in> set lg" "slot n ?l = slot n s" by (auto simp: in_slot_def)
  have le: "sec s \<le> sec ?l" using in_slot_last_max [OF assms(1) s] .
  have recent: "sec s = sec ?l" if "m - int n < sec s"
  proof (rule same_slot_close [OF assms(4)])
    show "\<bar>sec s - sec ?l\<bar> < int n" using that le l'(1) assms(3) by fastforce
  qed (simp add: l'(2))
  have edge: "sec s = sec ?l \<longleftrightarrow> (\<forall>x\<in>set lg. sec x \<noteq> m)" if e: "sec s = m - int n"
  proof
    assume eq: "sec s = sec ?l"
    show "\<forall>x\<in>set lg. sec x \<noteq> m"
    proof (intro ballI notI)
      fix x assume x: "x \<in> set lg" "sec x = m"
      with e have "slot n x = slot n s" by (metis diff_add_cancel mod_add_self2)
      with x have "x \<in> set ?i" by (simp add: in_slot_def)
      from in_slot_last_max [OF assms(1) this] x eq e assms(4) show False by simp
    qed
  next
    assume none: "\<forall>x\<in>set lg. sec x \<noteq> m"
    have "sec ?l < m" using none l'(1) assms(3) by (metis less_le)
    then have "\<bar>sec s - sec ?l\<bar> < int n" using e le by linarith
    then show "sec s = sec ?l" using same_slot_close [OF assms(4)] l'(2) by metis
  qed
  have m: "sec s \<le> m" using assms(2,3) by blast
  show ?thesis
  proof (cases "sec s = m - int n")
    case True
    then have "m - int n \<le> sec s" "\<not> m - int n < sec s" by simp_all
    with True m edge [OF True] show ?thesis by blast
  next
    case False
    then have "m - int n \<le> sec s \<longleftrightarrow> m - int n < sec s" by linarith
    with False m recent show ?thesis by blast
  qed
qed

text \<open>
  (C13) The rolling window is exact. After any sequence of samples recorded under a clock that
  does not run backwards, the aggregate over a ring of \<open>w\<close> one-second buckets is the statistics
  (totals, errors, timeouts, histogram) of exactly the samples of the last \<open>w\<close> seconds; the
  samples of the second just before them are included too as long as nothing has been recorded
  in the current second, since only then is their bucket not yet reused. No older sample is
  ever counted.
\<close>

theorem rw_aggregate_exact:
  assumes "sorted (map sec lg)" and "\<forall>s\<in>set lg. sec s \<le> nowSecs now" and "1 \<le> w" and "w \<le> 64"
  shows "rw_aggregate now w (run record_sample (rw_new w) lg) =
         stats_of (filter (\<lambda>s. nowSecs now - w < sec s
            \<or> (sec s = nowSecs now - w \<and> (\<forall>x\<in>set lg. sec x \<noteq> nowSecs now))) lg)"
proof -
  let ?n = "nat w" and ?m = "nowSecs now"
  let ?Q = "\<lambda>s. ?m - int ?n \<le> sec s \<and> sec s \<le> ?m \<and> sec s = sec (last (in_slot ?n (slot ?n s) lg))"
  from assms(3) have n: "0 < ?n" and w: "int ?n = w" by auto
  have "rw_new w = replicate ?n (zero_bucket 0)"
    using assms(3,4) by (simp add: rw_new_def MAX_WINDOW_BUCKETS_def min_def max_def)
  then have "rw_aggregate now w (run record_sample (rw_new w) lg)
      = stats_of (concat (map (\<lambda>i. filter (\<lambda>s. slot ?n s = i \<and> ?Q s) lg) [0..<?n]))"
    using ring_contents [OF assms(1) n] w
    by (simp add: rw_aggregate_def zero_stats_eq aggregate_loop_buckets kept_in_range)
  also have "\<dots> = stats_of (filter ?Q lg)"
    by (intro stats_of_mset mset_concat_slots) (use n in \<open>simp add: nat_less_iff\<close>)
  also have "filter ?Q lg = filter (\<lambda>s. ?m - w < sec s
            \<or> (sec s = ?m - w \<and> (\<forall>x\<in>set lg. sec x \<noteq> ?m))) lg"
    using latest_in_slot_iff [OF assms(1) _ assms(2) n] w by (intro filter_cong) auto
  finally show ?thesis .
qed

theorem rw_aggregate_exact_witness:
  "s_total (rw_aggregate 5000 2 (run record_sample (rw_new 2)
     [(1000, SUCCESS, 300), (3000, TIMEOUT, 9000), (4200, REDIS_ERROR, 700)])) = 2"
  using rw_aggregate_exact [of "[(1000, SUCCESS, 300), (3000, TIMEOUT, 9000), (4200, REDIS_ERROR, 700)]" 5000 2]
  by (simp add: nowSecs_def stats_of_def)

end
