(* ===== verification/Breaker_Machine.thy ===== *)
theory Breaker_Machine
  imports Breaker_Window
begin

text \<open>
  Correctness of the circuit breaker's state machine: the configuration ranges that
  \<open>clampConfig\<close> establishes, the invariant of a breaker and its preservation by every
  operation in any interleaving of calls, the legal transitions, rejection during the
  cooldown, re-admission of probes, recovery, and exactly-once release of a granted call.
\<close>

section \<open>Configuration\<close>

definition wf_config :: "cb_config \<Rightarrow> bool" where
  "wf_config c \<longleftrightarrow>
     1 \<le> windowSecs c \<and> windowSecs c \<le> 60 \<and> 5 \<le> minSamples c
     \<and> 1 \<le> consecutiveFailOpen c \<and> 1 \<le> consecutiveTimeoutOpen c
     \<and> 0 \<le> errorRateOpen c \<and> 0 \<le> errorRateRecovery c
     \<and> 1000 \<le> p99UsOpen c \<and> 1000 \<le> p99UsRecovery c
     \<and> 100 \<le> openCooldownMs c \<and> 0 \<le> cooldownJitterMs c
     \<and> 1 \<le> halfOpenProbes c \<and> 1 \<le> recoverySuccesses c
     \<and> recoverySuccesses c \<le> halfOpenProbes c
     \<and> 1 \<le> maxInflight c \<and> 1000 \<le> halfOpenMaxMs c \<and> 100 \<le> operationTimeoutMs c"

lemma clampConfig_wf: "wf_config (clampConfig c)"
  by (simp add: clampConfig_def wf_config_def Let_def)

section \<open>The invariant\<close>

definition wf_breaker :: "breaker \<Rightarrow> bool" where
  "wf_breaker b \<longleftrightarrow>
     wf_config (config b)
     \<and> wf_window (window b) \<and> int (length (window b)) = windowSecs (config b)
     \<and> requestsTotal b = successTotal b + errorsTotal b + timeoutsTotal b
     \<and> consecutiveTimeout b \<le> consecutiveFail b
     \<and> int (probesDispatched b) \<le> halfOpenProbes (config b)
     \<and> int (inflight b) \<le> max (maxInflight (config b)) (halfOpenProbes (config b))
     \<and> (state b = OPEN \<longrightarrow>
          openCooldownMs (config b) \<le> cooldownMs b
          \<and> cooldownMs b \<le> openCooldownMs (config b) + cooldownJitterMs (config b))"

text \<open>
  The calls a breaker sees, in the order the event loop runs them. Callers pass \<open>release\<close> the
  three outcomes of an attempted command only.
\<close>

datatype cb_event = EAcquire ms rat | ERelease ms rat outcome int | EReset

fun cb_step :: "breaker \<Rightarrow> cb_event \<Rightarrow> breaker" where
  "cb_step b (EAcquire now rnd) = snd (acquire now rnd b)"
| "cb_step b (ERelease now rnd out lat) = release now rnd out lat b"
| "cb_step b EReset = reset b"

definition attempted :: "outcome \<Rightarrow> bool" where
  "attempted out \<longleftrightarrow> out \<in> {SUCCESS, REDIS_ERROR, TIMEOUT}"

definition is_draw :: "rat \<Rightarrow> bool" where
  "is_draw rnd \<longleftrightarrow> 0 \<le> rnd \<and> rnd < 1"

fun ok_event :: "cb_event \<Rightarrow> bool" where
  "ok_event (EAcquire now rnd) = is_draw rnd"
| "ok_event (ERelease now rnd out lat) = (is_draw rnd \<and> attempted out)"
| "ok_event EReset = True"

lemma jitterMs_bounds:
  assumes "is_draw rnd" and "0 \<le> cooldownJitterMs c"
  shows "0 \<le> jitterMs rnd c" and "jitterMs rnd c \<le> cooldownJitterMs c"
    and "0 < cooldownJitterMs c \<Longrightarrow> jitterMs rnd c < cooldownJitterMs c"
proof -
  show "0 \<le> jitterMs rnd c"
    using assms by (simp add: jitterMs_def is_draw_def)
  show lt: "jitterMs rnd c < cooldownJitterMs c" if "0 < cooldownJitterMs c"
  proof -
    from assms(1) that have "rnd * of_int (cooldownJitterMs c) < 1 * of_int (cooldownJitterMs c)"
      unfolding is_draw_def by (intro mult_strict_right_mono) auto
    with that show ?thesis by (simp add: jitterMs_def floor_less_iff)
  qed
  show "jitterMs rnd c \<le> cooldownJitterMs c"
    using lt assms(2) by (cases "cooldownJitterMs c = 0") (auto simp: jitterMs_def)
qed

lemma tripOpen_wf: "wf_breaker b \<Longrightarrow> is_draw rnd \<Longrightarrow> wf_breaker (tripOpen now rnd b)"
  using jitterMs_bounds [of rnd "config b"]
  by (auto simp: wf_breaker_def wf_config_def tripOpen_def Let_def)

lemma reject_wf [simp]: "wf_breaker (reject b) = wf_breaker b"
  by (simp add: wf_breaker_def reject_def)

lemma acquireHalfOpen_wf:
  "wf_breaker b \<Longrightarrow> is_draw rnd \<Longrightarrow> wf_breaker (snd (acquireHalfOpen now rnd b))"
  by (auto simp: acquireHalfOpen_def intro: tripOpen_wf) (auto simp: wf_breaker_def)

lemma acquire_wf: "wf_breaker b \<Longrightarrow> is_draw rnd \<Longrightarrow> wf_breaker (snd (acquire now rnd b))"
proof -
  assume b: "wf_breaker b" and r: "is_draw rnd"
  show ?thesis
  proof (cases "state b")
    case CLOSED
    with b show ?thesis by (auto simp: acquire_def) (auto simp: wf_breaker_def)
  next
    case OPEN
    let ?h = "b\<lparr>state := HALF_OPEN, probesDispatched := 0, halfOpenSuccesses := 0,
                halfOpenStartedAtMs := now, circuitHalfOpenTotal := circuitHalfOpenTotal b + 1\<rparr>"
    from b have "wf_breaker ?h" by (auto simp: wf_breaker_def wf_config_def)
    from acquireHalfOpen_wf [OF this r] OPEN b show ?thesis by (simp add: acquire_def)
  next
    case HALF_OPEN
    with b r show ?thesis by (simp add: acquire_def acquireHalfOpen_wf)
  qed
qed

lemma checkStatisticalOpen_wf:
  "wf_breaker b \<Longrightarrow> is_draw rnd \<Longrightarrow> wf_breaker (checkStatisticalOpen now rnd b)"
  by (simp add: checkStatisticalOpen_def Let_def tripOpen_wf)

text \<open>
  Inside \<open>release\<close> the request is counted before the outcome is: the invariant with the
  request counter one ahead.
\<close>

abbreviation counted :: "breaker \<Rightarrow> bool" where
  "counted b \<equiv> wf_breaker (b\<lparr>requestsTotal := requestsTotal b - 1\<rparr>) \<and> 0 < requestsTotal b"

lemma release_success_wf: "counted b \<Longrightarrow> is_draw rnd \<Longrightarrow> wf_breaker (release_success now rnd b)"
  unfolding release_success_def Let_def
  by (auto intro!: checkStatisticalOpen_wf) (auto simp: wf_breaker_def)

lemma release_timeout_wf: "counted b \<Longrightarrow> is_draw rnd \<Longrightarrow> wf_breaker (release_timeout now rnd b)"
  unfolding release_timeout_def Let_def
  by (auto intro!: checkStatisticalOpen_wf tripOpen_wf) (auto simp: wf_breaker_def)

lemma release_error_wf: "counted b \<Longrightarrow> is_draw rnd \<Longrightarrow> wf_breaker (release_error now rnd b)"
  unfolding release_error_def Let_def
  by (auto intro!: checkStatisticalOpen_wf tripOpen_wf) (auto simp: wf_breaker_def)

lemma release_wf:
  "wf_breaker b \<Longrightarrow> is_draw rnd \<Longrightarrow> attempted out \<Longrightarrow> wf_breaker (release now rnd out lat b)"
proof -
  assume b: "wf_breaker b" and r: "is_draw rnd" and a: "attempted out"
  let ?b = "b\<lparr>inflight := inflight b - 1, window := rw_record now out lat (window b),
              requestsTotal := requestsTotal b + 1\<rparr>"
  from b have "counted ?b" by (auto simp: wf_breaker_def intro: rw_record_wf)
  with r a show ?thesis
    by (auto simp: release_def Let_def attempted_def
        intro: release_success_wf release_timeout_wf release_error_wf)
qed

lemma reset_wf: "wf_breaker b \<Longrightarrow> wf_breaker (reset b)"
  by (auto simp: wf_breaker_def reset_def wf_config_def intro: rw_reset_wf)

lemma new_breaker_wf: "wf_breaker (new_breaker c)"
proof -
  have c: "wf_config (clampConfig c)" by (rule clampConfig_wf)
  then have "int (length (rw_new (windowSecs (clampConfig c)))) = windowSecs (clampConfig c)"
    unfolding wf_config_def length_rw_new by auto
  moreover from c have "0 \<le> halfOpenProbes (clampConfig c)" "0 \<le> maxInflight (clampConfig c)"
    unfolding wf_config_def by auto
  ultimately show ?thesis using c
    by (simp add: wf_breaker_def new_breaker_def)
qed

interpretation cb: invariant_system cb_step wf_breaker ok_event
proof
  fix b e
  assume "wf_breaker b" "ok_event e"
  then show "wf_breaker (cb_step b e)"
    by (cases e) (auto intro: acquire_wf release_wf reset_wf)
qed

section \<open>Transitions\<close>

text \<open>
  The transition diagram of the source's header comment, with the guard of every arrow: the
  state a breaker may be in after an event.
\<close>

inductive circuit_moves :: "breaker \<Rightarrow> cb_event \<Rightarrow> circuit_state \<Rightarrow> bool" where
  stay: "circuit_moves b e (state b)"
| trip: "state b = CLOSED \<Longrightarrow> circuit_moves b (ERelease now rnd out lat) OPEN"
| probe: "state b = OPEN \<Longrightarrow> cooldownMs b \<le> now - openedAtMs b \<Longrightarrow>
     circuit_moves b (EAcquire now rnd) HALF_OPEN"
| relapse: "state b = HALF_OPEN \<Longrightarrow> out \<in> {REDIS_ERROR, TIMEOUT} \<Longrightarrow>
     circuit_moves b (ERelease now rnd out lat) OPEN"
| deadline: "state b = HALF_OPEN \<Longrightarrow> halfOpenMaxMs (config b) \<le> now - halfOpenStartedAtMs b \<Longrightarrow>
     circuit_moves b (EAcquire now rnd) OPEN"
| recover: "state b = HALF_OPEN \<Longrightarrow> recoverySuccesses (config b) \<le> int (halfOpenSuccesses b) + 1 \<Longrightarrow>
     st = rw_aggregate now (windowSecs (config b)) (rw_record now SUCCESS lat (window b)) \<Longrightarrow>
     of_int (percentileUs st 99) \<le> p99UsRecovery (config b) \<Longrightarrow>
     errorRate st \<le> errorRateRecovery (config b) \<Longrightarrow>
     circuit_moves b (ERelease now rnd SUCCESS lat) CLOSED"
| admin: "circuit_moves b EReset CLOSED"

inductive_simps circuit_moves_iff: "circuit_moves b e s"

lemma tripOpen_simps [simp]:
  "state (tripOpen now rnd b) = OPEN"
  "config (tripOpen now rnd b) = config b"
  "inflight (tripOpen now rnd b) = inflight b"
  "window (tripOpen now rnd b) = window b"
  "requestsTotal (tripOpen now rnd b) = requestsTotal b"
  "state b = OPEN \<Longrightarrow> tripOpen now rnd b = b"
  by (auto simp: tripOpen_def Let_def)

lemma reject_simps [simp]:
  "state (reject b) = state b" "config (reject b) = config b" "inflight (reject b) = inflight b"
  "openedAtMs (reject b) = openedAtMs b" "cooldownMs (reject b) = cooldownMs b"
  "halfOpenStartedAtMs (reject b) = halfOpenStartedAtMs b"
  "requestsTotal (reject b) = requestsTotal b" "window (reject b) = window b"
  by (auto simp: reject_def)

lemma checkStatisticalOpen_simps [simp]:
  "config (checkStatisticalOpen now rnd b) = config b"
  "inflight (checkStatisticalOpen now rnd b) = inflight b"
  "window (checkStatisticalOpen now rnd b) = window b"
  "requestsTotal (checkStatisticalOpen now rnd b) = requestsTotal b"
  "state b = OPEN \<Longrightarrow> checkStatisticalOpen now rnd b = b"
  by (auto simp: checkStatisticalOpen_def Let_def)

lemma checkStatisticalOpen_not_half_open:
  "state b \<noteq> HALF_OPEN \<Longrightarrow> state (checkStatisticalOpen now rnd b) \<noteq> HALF_OPEN"
  by (simp add: checkStatisticalOpen_def Let_def)

lemma acquire_open_elapsed:
  assumes "wf_breaker b" and "state b = OPEN" and "cooldownMs b \<le> now - openedAtMs b"
  shows "state (snd (acquire now rnd b)) = HALF_OPEN"
    and "fst (acquire now rnd b) =
           (if int (inflight b) < halfOpenProbes (config b) then None else Some CONCURRENCY_REJECTED)"
  using assms by (auto simp: acquire_def acquireHalfOpen_def wf_breaker_def wf_config_def)

lemma acquire_moves: "wf_breaker b \<Longrightarrow> circuit_moves b (EAcquire now rnd) (state (snd (acquire now rnd b)))"
proof (cases "state b")
  case CLOSED
  then have "state (snd (acquire now rnd b)) = state b" by (simp add: acquire_def)
  then show ?thesis by (metis circuit_moves.stay)
next
  case OPEN
  assume b: "wf_breaker b"
  show ?thesis
  proof (cases "cooldownMs b \<le> now - openedAtMs b")
    case True
    with OPEN b show ?thesis by (simp add: acquire_open_elapsed circuit_moves.probe)
  next
    case False
    with OPEN have "state (snd (acquire now rnd b)) = state b" by (simp add: acquire_def)
    then show ?thesis by (metis circuit_moves.stay)
  qed
next
  case HALF_OPEN
  show ?thesis
  proof (cases "halfOpenMaxMs (config b) \<le> now - halfOpenStartedAtMs b")
    case True
    with HALF_OPEN show ?thesis
      by (simp add: acquire_def acquireHalfOpen_def circuit_moves.deadline)
  next
    case False
    with HALF_OPEN have "state (snd (acquire now rnd b)) = state b"
      by (simp add: acquire_def acquireHalfOpen_def)
    then show ?thesis by (metis circuit_moves.stay)
  qed
qed

lemma release_not_half_open:
  "state b \<noteq> HALF_OPEN \<Longrightarrow> state (release now rnd out lat b) \<noteq> HALF_OPEN"
  by (simp add: release_def release_success_def release_timeout_def release_error_def Let_def
      checkStatisticalOpen_not_half_open)

lemma release_open_state [simp]:
  "state b = OPEN \<Longrightarrow> state (release now rnd out lat b) = OPEN"
  "state b = OPEN \<Longrightarrow> openedAtMs (release now rnd out lat b) = openedAtMs b"
  "state b = OPEN \<Longrightarrow> cooldownMs (release now rnd out lat b) = cooldownMs b"
  by (simp_all add: release_def release_success_def release_timeout_def release_error_def Let_def)

lemma release_half_open_failure:
  "state b = HALF_OPEN \<Longrightarrow> out \<in> {REDIS_ERROR, TIMEOUT} \<Longrightarrow> state (release now rnd out lat b) = OPEN"
  by (elim insertE) (simp_all add: release_def release_timeout_def release_error_def Let_def)

lemma release_half_open_success:
  assumes "state b = HALF_OPEN"
    and "st = rw_aggregate now (windowSecs (config b)) (rw_record now SUCCESS lat (window b))"
  shows "state (release now rnd SUCCESS lat b) =
     (if recoverySuccesses (config b) \<le> int (halfOpenSuccesses b) + 1
         \<and> of_int (percentileUs st 99) \<le> p99UsRecovery (config b)
         \<and> errorRate st \<le> errorRateRecovery (config b)
      then CLOSED else HALF_OPEN)"
  using assms by (simp add: release_def release_success_def Let_def add.commute)

lemma release_moves:
  assumes "attempted out"
  shows "circuit_moves b (ERelease now rnd out lat) (state (release now rnd out lat b))"
proof (cases "state b")
  case CLOSED
  then have "state (release now rnd out lat b) \<noteq> HALF_OPEN" by (simp add: release_not_half_open)
  with CLOSED show ?thesis
    by (cases "state (release now rnd out lat b)")
       (auto intro: circuit_moves.trip, metis circuit_moves.stay)
next
  case OPEN
  then show ?thesis by (metis circuit_moves.stay release_open_state(1))
next
  case HALF_OPEN
  show ?thesis
  proof (cases "out = SUCCESS")
    case True
    with HALF_OPEN show ?thesis
      by (auto simp: release_half_open_success intro: circuit_moves.recover)
         (metis circuit_moves.stay)+
  next
    case False
    with assms HALF_OPEN show ?thesis
      by (auto simp: attempted_def release_half_open_failure intro: circuit_moves.relapse)
  qed
qed

section \<open>Exactly one release per granted call\<close>

lemma inflight_release [simp]: "inflight (release now rnd out lat b) = inflight b - 1"
  by (simp add: release_def release_success_def release_timeout_def release_error_def Let_def)

lemma requestsTotal_release [simp]:
  "requestsTotal (release now rnd out lat b) = requestsTotal b + 1"
  by (simp add: release_def release_success_def release_timeout_def release_error_def Let_def)

lemma requestsTotal_acquire [simp]: "requestsTotal (snd (acquire now rnd b)) = requestsTotal b"
  by (simp add: acquire_def acquireHalfOpen_def)

lemma acquire_granted_inflight:
  "fst (acquire now rnd b) = None \<Longrightarrow> inflight (snd (acquire now rnd b)) = inflight b + 1"
  by (simp add: acquire_def acquireHalfOpen_def split: if_splits)

lemma acquire_rejected_inflight:
  "fst (acquire now rnd b) \<noteq> None \<Longrightarrow> inflight (snd (acquire now rnd b)) = inflight b"
  by (simp add: acquire_def acquireHalfOpen_def split: if_splits)

lemma settle_settled: "p_settled p \<Longrightarrow> settle p e = p"
  by (cases e; cases "snd (snd (snd e))") (auto simp: finish_def)

lemma run_settled: "p_settled p \<Longrightarrow> run settle p es = p"
  by (induction es arbitrary: p) (auto simp: settle_settled)

lemma settle_settles: "p_settled (settle p e)"
  by (cases e; cases "snd (snd (snd e))") (auto simp: finish_def)

text \<open>What a settlement means: its outcome for the breaker, and what the caller receives.\<close>

fun settle_outcome :: "'v settlement \<Rightarrow> outcome" where
  "settle_outcome TimerFires = TIMEOUT"
| "settle_outcome (FnResolves v) = SUCCESS"
| "settle_outcome (FnRejects e) = classifyRedisError e"

fun settle_result :: "'v settlement \<Rightarrow> 'v cb_result" where
  "settle_result (FnResolves v) = Ok v"
| "settle_result s = NotOk (settle_outcome s)"

lemma attempted_classify [simp]: "attempted (classifyRedisError e)"
  by (simp add: attempted_def classifyRedisError_def Let_def)

lemma attempted_settle_outcome [simp]: "attempted (settle_outcome s)"
  by (cases s) (simp_all add: attempted_def [of SUCCESS] attempted_def [of TIMEOUT])

lemma settle_first:
  "\<not> p_settled p \<Longrightarrow> settle p (now, rnd, ns, s) =
     p\<lparr>p_settled := True,
       p_breaker := release now rnd (settle_outcome s) (elapsedUs ns) (p_breaker p),
       p_result := Some (settle_result s)\<rparr>"
  by (cases s) (auto simp: finish_def split: outcome.splits)

section \<open>Cooldown\<close>

text \<open>
  What other requests may do to an \<open>OPEN\<close> breaker before its cooldown is over: any
  completion, any \<open>acquire\<close> before the deadline.
\<close>

fun before :: "ms \<Rightarrow> cb_event \<Rightarrow> bool" where
  "before t (EAcquire now rnd) = (now < t)"
| "before t (ERelease now rnd out lat) = True"
| "before t EReset = False"

definition open_until :: "ms \<Rightarrow> breaker \<Rightarrow> bool" where
  "open_until t b \<longleftrightarrow> state b = OPEN \<and> openedAtMs b + cooldownMs b = t"

lemma acquire_before_deadline:
  "open_until t b \<Longrightarrow> now < t \<Longrightarrow> acquire now rnd b = (Some CIRCUIT_OPEN, reject b)"
  by (auto simp: open_until_def acquire_def)

interpretation cooling: invariant_system cb_step "open_until t" "before t" for t
proof
  fix b e
  assume "open_until t b" "before t e"
  then show "open_until t (cb_step b e)"
    by (cases e) (auto simp: acquire_before_deadline, auto simp: open_until_def)
qed

section \<open>Recovery\<close>

text \<open>One probe: an admitted call that succeeds after \<open>lat\<close> microseconds.\<close>

definition good_probe :: "breaker \<Rightarrow> ms \<times> rat \<times> int \<Rightarrow> breaker" where
  "good_probe b pr = (case pr of (now, rnd, lat) \<Rightarrow> release now rnd SUCCESS lat (snd (acquire now rnd b)))"

text \<open>
  A window whose samples since \<open>c\<close> are successes in the latency bands up to \<open>L\<close>: older
  buckets may hold anything, they are outside every window ending at or after the probes.
\<close>

definition fast_bucket :: "int \<Rightarrow> nat \<Rightarrow> time_bucket \<Rightarrow> bool" where
  "fast_bucket c L b \<longleftrightarrow> b_ts b < c \<or>
     (b_errors b = 0 \<and> length (b_hist b) = HIST_BANDS \<and> (\<forall>i<HIST_BANDS. L < i \<longrightarrow> b_hist b ! i = 0))"

definition fast_stats :: "nat \<Rightarrow> window_stats \<Rightarrow> bool" where
  "fast_stats L st \<longleftrightarrow> s_errors st = 0 \<and> length (s_hist st) = HIST_BANDS
     \<and> (\<forall>i<HIST_BANDS. L < i \<longrightarrow> s_hist st ! i = 0)"

lemma zero_stats_fast [simp]: "fast_stats L zero_stats"
  by (simp add: fast_stats_def zero_stats_def)

lemma fast_bucket_record:
  assumes "fast_bucket c L b" and "band_of lat \<le> L"
  shows "fast_bucket c L (bucket_record ts SUCCESS lat b)"
  using assms
  by (auto simp: fast_bucket_def bucket_record_def zero_bucket_def Let_def nth_list_update)

lemma rw_record_fast:
  assumes "list_all (fast_bucket c L) w" and "band_of lat \<le> L"
  shows "list_all (fast_bucket c L) (rw_record now SUCCESS lat w)"
proof (cases "w = []")
  case True
  then show ?thesis by (simp add: rw_record_def)
next
  case False
  let ?i = "nat (nowSecs now mod int (length w))"
  from False have "?i < length w" by (simp add: nat_less_iff)
  with assms have "fast_bucket c L (bucket_record (nowSecs now) SUCCESS lat (w ! ?i))"
    by (intro fast_bucket_record) (simp_all add: list_all_length)
  with assms(1) show ?thesis
    by (auto simp: rw_record_def Let_def list_all_iff dest!: set_update_subset_insert [THEN subsetD])
qed

lemma aggregate_loop_fast:
  assumes "c \<le> cutoff"
  shows "list_all (fast_bucket c L) w \<Longrightarrow> fast_stats L st \<Longrightarrow>
         fast_stats L (aggregate_loop cutoff n w st)"
proof (induction w arbitrary: st)
  case (Cons b w)
  have "fast_stats L (add_bucket b st)" if "\<not> b_ts b < cutoff"
    using that Cons.prems assms by (auto simp: fast_bucket_def fast_stats_def add_bucket_def)
  with Cons show ?case by auto
qed simp

lemma sum_list_take_zeros:
  "(\<forall>i<length xs. k \<le> i \<longrightarrow> xs ! i = (0::nat)) \<Longrightarrow> sum_list (take k xs) = sum_list xs"
proof -
  assume "\<forall>i<length xs. k \<le> i \<longrightarrow> xs ! i = 0"
  then have "sum_list (drop k xs) = 0"
    by (auto simp: sum_list_eq_0_iff in_set_conv_nth)
  then show ?thesis by (metis add.right_neutral append_take_drop_id sum_list_append)
qed

lemma band_bound_mono: "i \<le> j \<Longrightarrow> j < 17 \<Longrightarrow> band_bound i \<le> band_bound j"
  using HIST_BOUNDS_US_sorted by (simp add: band_bound_def sorted_nth_mono)

lemma fast_stats_percentile:
  assumes "stats_ok st" and "fast_stats L st" and "L < 17" and "0 < pct" and "pct \<le> 100" and "0 < s_total st"
  shows "percentileUs st pct \<le> band_bound L"
proof -
  let ?t = "percentile_target (s_total st) pct"
  have sum: "sum_list (s_hist st) = s_total st" using assms(1) by (simp add: stats_ok_def)
  from percentile_target_bounds [OF assms(6,4,5)] sum obtain k where
    k: "percentileUs st pct = band_bound k" "sum_list (take k (s_hist st)) < ?t"
    using percentile_loop_spec [of ?t 0 "s_hist st" 0] assms(6) by (auto simp: percentileUs_def)
  have "k \<le> L"
  proof (rule ccontr)
    assume "\<not> k \<le> L"
    then have "sum_list (take k (s_hist st)) = sum_list (s_hist st)"
      using assms(2) by (intro sum_list_take_zeros) (auto simp: fast_stats_def)
    with k(2) sum percentile_target_bounds(2) [OF assms(6,4,5)] show False by simp
  qed
  with k(1) assms(3) show ?thesis by (simp add: band_bound_mono)
qed

text \<open>A breaker after \<open>j\<close> successful probes of a half-open phase that began at \<open>t0\<close>.\<close>

definition probing :: "cb_config \<Rightarrow> nat \<Rightarrow> ms \<Rightarrow> nat \<Rightarrow> nat \<Rightarrow> breaker \<Rightarrow> bool" where
  "probing cfg L t0 i0 j b \<longleftrightarrow> wf_breaker b \<and> config b = cfg \<and> state b = HALF_OPEN
     \<and> halfOpenStartedAtMs b = t0 \<and> probesDispatched b = j \<and> halfOpenSuccesses b = j \<and> inflight b = i0
     \<and> list_all (fast_bucket (nowSecs t0 - windowSecs cfg) L) (window b)"

definition enter_half_open :: "ms \<Rightarrow> breaker \<Rightarrow> breaker" where
  "enter_half_open now b =
     b\<lparr>state := HALF_OPEN, probesDispatched := 0, halfOpenSuccesses := 0,
       halfOpenStartedAtMs := now, circuitHalfOpenTotal := circuitHalfOpenTotal b + 1\<rparr>"

lemma good_probe_enter:
  assumes "state b = OPEN" and "cooldownMs b \<le> now - openedAtMs b"
  shows "good_probe b (now, rnd, lat) = good_probe (enter_half_open now b) (now, rnd, lat)"
  using assms by (simp add: good_probe_def acquire_def enter_half_open_def)

lemma aggregate_records_now:
  assumes "wf_window w" and "0 \<le> secs"
  shows "0 < s_total (rw_aggregate now secs (rw_record now out lat w))"
proof -
  let ?i = "nat (nowSecs now mod int (length w))"
  let ?w = "rw_record now out lat w"
  have mono: "s_total st \<le> s_total (aggregate_loop c m bs st)" for c m bs st
  proof (induction bs arbitrary: st)
    case (Cons a bs)
    have "s_total st \<le> s_total (add_bucket a st)" by (simp add: add_bucket_def)
    with Cons.IH [of "add_bucket a st"] Cons.IH [of st] show ?case by (auto intro: le_trans)
  qed simp
  have pos: "b \<in> set bs \<Longrightarrow> c \<le> b_ts b \<Longrightarrow> b_ts b \<le> m \<Longrightarrow> 0 < b_total b \<Longrightarrow>
        0 < s_total (aggregate_loop c m bs st)" for b c m bs st
  proof (induction bs arbitrary: st)
    case (Cons x bs)
    then show ?case
      using mono [of "add_bucket b st" c m bs] by (auto simp: add_bucket_def)
  qed simp
  have i: "?i < length w" using assms(1) by (simp add: wf_window_def nat_less_iff)
  then have "?w ! ?i \<in> set ?w" by (intro nth_mem) simp
  moreover have "b_ts (?w ! ?i) = nowSecs now" "0 < b_total (?w ! ?i)"
    using i by (simp_all add: rw_record_def bucket_record_def zero_bucket_def Let_def)
  ultimately show ?thesis unfolding rw_aggregate_def using assms(2) by (intro pos) auto
qed

lemma good_probe_step:
  assumes b: "probing cfg L t0 i0 j b" and j: "int j < recoverySuccesses cfg"
    and i0: "int i0 < halfOpenProbes cfg" and L: "L < 17" "of_int (band_bound L) \<le> p99UsRecovery cfg"
    and pr: "is_draw rnd" "t0 \<le> now" "now - t0 < halfOpenMaxMs cfg" "band_of lat \<le> L"
  shows "if int j + 1 < recoverySuccesses cfg
         then probing cfg L t0 i0 (Suc j) (good_probe b (now, rnd, lat))
         else state (good_probe b (now, rnd, lat)) = CLOSED"
proof -
  let ?a = "b\<lparr>probesDispatched := Suc j, inflight := Suc i0\<rparr>"
  let ?g = "good_probe b (now, rnd, lat)"
  let ?w = "rw_record now SUCCESS lat (window b)"
  let ?st = "rw_aggregate now (windowSecs cfg) ?w"
  have wf: "wf_breaker b" "config b = cfg" using b by (auto simp: probing_def)
  then have cfg: "wf_config cfg" by (simp add: wf_breaker_def)
  have acq: "acquire now rnd b = (None, ?a)"
    using b j i0 pr(3) cfg by (auto simp: probing_def acquire_def acquireHalfOpen_def wf_config_def)
  then have g: "?g = release now rnd SUCCESS lat ?a" by (simp add: good_probe_def)
  have wfg: "wf_breaker ?g"
    using acquire_wf [OF wf(1) pr(1), of now] acq pr(1)
    by (simp add: g release_wf attempted_def)
  have fast: "list_all (fast_bucket (nowSecs t0 - windowSecs cfg) L) ?w"
    using b pr(4) by (simp add: probing_def rw_record_fast)
  have "nowSecs t0 - windowSecs cfg \<le> nowSecs now - windowSecs cfg"
    using pr(2) by (simp add: nowSecs_def zdiv_mono1)
  then have st: "fast_stats L ?st"
    unfolding rw_aggregate_def using fast by (intro aggregate_loop_fast) auto
  have ww: "wf_window (window b)" using wf(1) by (simp add: wf_breaker_def)
  have total: "0 < s_total ?st"
    using aggregate_records_now [OF ww] cfg by (simp add: wf_config_def)
  have "percentileUs ?st 99 \<le> band_bound L"
    using rw_aggregate_ok [OF rw_record_wf [OF ww]] st L(1) total by (intro fast_stats_percentile) auto
  then have p99: "of_int (percentileUs ?st 99) \<le> p99UsRecovery cfg"
    using L(2) by (meson of_int_le_iff order_trans)
  have err: "errorRate ?st \<le> errorRateRecovery cfg"
    using st cfg by (simp add: errorRate_def fast_stats_def wf_config_def)
  have ab: "state ?a = HALF_OPEN" "halfOpenSuccesses ?a = j" "config ?a = cfg"
    using b by (auto simp: probing_def)
  show ?thesis
  proof (cases "int j + 1 < recoverySuccesses cfg")
    case True
    then have "release now rnd SUCCESS lat ?a =
      ?a\<lparr>inflight := i0, window := ?w, requestsTotal := requestsTotal b + 1,
         successTotal := successTotal b + 1, consecutiveFail := 0, consecutiveTimeout := 0,
         halfOpenSuccesses := Suc j\<rparr>"
      using ab by (simp add: release_def release_success_def Let_def)
    with True wfg fast b show ?thesis by (simp add: g probing_def)
  next
    case False
    then have "state (release now rnd SUCCESS lat ?a) = CLOSED"
      using ab p99 err by (subst release_half_open_success) auto
    with False show ?thesis by (simp add: g)
  qed
qed

lemma good_probes_recover:
  assumes "probing cfg L t0 i0 j b" and "int i0 < halfOpenProbes cfg"
    and "L < 17" and "of_int (band_bound L) \<le> p99UsRecovery cfg"
    and "ps \<noteq> []" and "int j + int (length ps) = recoverySuccesses cfg"
    and "\<forall>(t, r, l) \<in> set ps. is_draw r \<and> t0 \<le> t \<and> t - t0 < halfOpenMaxMs cfg \<and> band_of l \<le> L"
  shows "state (run good_probe b ps) = CLOSED"
  using assms
proof (induction ps arbitrary: j b)
  case (Cons p ps)
  obtain t r l where p: "p = (t, r, l)" by (cases p) auto
  have "int j < recoverySuccesses cfg" using Cons.prems(6) by auto
  then have step: "if int j + 1 < recoverySuccesses cfg
      then probing cfg L t0 i0 (Suc j) (good_probe b p) else state (good_probe b p) = CLOSED"
    unfolding p using Cons.prems by (intro good_probe_step) (auto simp: p)
  show ?case
  proof (cases "ps = []")
    case True
    with step Cons.prems(6) show ?thesis by auto
  next
    case False
    then have "int j + 1 < recoverySuccesses cfg" using Cons.prems(6) by (cases ps) auto
    with step Cons.prems False show ?thesis by (auto intro!: Cons.IH [of "Suc j"])
  qed
qed simp

section \<open>Properties\<close>

definition default_breaker :: breaker where
  "default_breaker = new_breaker (defaultCircuitBreakerConfig (\<lambda>_. None))"

definition tripped_breaker :: breaker where
  "tripped_breaker = run cb_step default_breaker
     [ERelease 1000000 0 TIMEOUT 5000000, ERelease 1000000 0 TIMEOUT 5000000,
      ERelease 1000000 0 TIMEOUT 5000000]"

lemma tripped_breaker_facts:
  "state tripped_breaker = OPEN" "openedAtMs tripped_breaker = 1000000"
  "cooldownMs tripped_breaker = 5000" "inflight tripped_breaker = 0"
  by code_simp+



text \<open>
  (C16) The circuit only makes the documented moves: in every reachable breaker each step leaves
  the state alone or is CLOSED to OPEN on a release, OPEN to HALF_OPEN on an acquire once the
  cooldown has elapsed, HALF_OPEN to OPEN on a failed probe or past the half-open deadline,
  HALF_OPEN to CLOSED on a success that meets the recovery thresholds, or anything to CLOSED on
  an administrative reset.
\<close>

theorem breaker_transitions:
  assumes "list_all ok_event es" and "ok_event e" and "b = run cb_step (new_breaker c) es"
  shows "circuit_moves b e (state (cb_step b e))"
proof (cases e)
  case (EAcquire now rnd)
  then show ?thesis using acquire_moves [OF cb.run_inv [OF new_breaker_wf assms(1)]] assms(3) by simp
next
  case (ERelease now rnd out lat)
  then show ?thesis using release_moves assms(2) by simp
qed (simp add: reset_def circuit_moves.admin)

theorem breaker_transitions_witness: "circuit_moves tripped_breaker (EAcquire 1006000 0) HALF_OPEN"
proof -
  have "state (cb_step tripped_breaker (EAcquire 1006000 0)) = HALF_OPEN" by code_simp
  with breaker_transitions [OF _ _ tripped_breaker_def [unfolded default_breaker_def], of "EAcquire 1006000 0"]
  show ?thesis by (simp add: is_draw_def attempted_def)
qed



lemma release_timeout_progress:
  assumes "state b = CLOSED"
  shows "state (release now rnd TIMEOUT lat b) = OPEN \<or>
    (state (release now rnd TIMEOUT lat b) = CLOSED
     \<and> consecutiveTimeout (release now rnd TIMEOUT lat b) = consecutiveTimeout b + 1
     \<and> config (release now rnd TIMEOUT lat b) = config b
     \<and> int (consecutiveTimeout b + 1) < consecutiveTimeoutOpen (config b))"
  using assms by (simp add: release_def release_timeout_def Let_def checkStatisticalOpen_def)

lemma timeouts_keep_open:
  "state b = OPEN \<Longrightarrow> state (run (\<lambda>b (now, rnd, lat). release now rnd TIMEOUT lat b) b ts) = OPEN"
  by (induction ts arbitrary: b) auto

text \<open>
  Consecutive timeouts trip the circuit: a closed breaker that sees
  \<open>consecutiveTimeoutOpen\<close> timeouts in a row is open at the end, however they are spaced.
\<close>

theorem consecutive_timeouts_trip:
  assumes "state b = CLOSED"
    and "consecutiveTimeoutOpen (config b) \<le> int (consecutiveTimeout b + length ts)" and "ts \<noteq> []"
  shows "state (run (\<lambda>b (now, rnd, lat). release now rnd TIMEOUT lat b) b ts) = OPEN"
  using assms
proof (induction ts arbitrary: b)
  case (Cons t ts)
  obtain now rnd lat where t: "t = (now, rnd, lat)" by (cases t) auto
  from release_timeout_progress [OF Cons.prems(1), of now rnd lat] show ?case
  proof (elim disjE conjE)
    assume "state (release now rnd TIMEOUT lat b) = OPEN"
    then show ?thesis by (simp add: t timeouts_keep_open)
  next
    assume r: "state (release now rnd TIMEOUT lat b) = CLOSED"
      "consecutiveTimeout (release now rnd TIMEOUT lat b) = consecutiveTimeout b + 1"
      "config (release now rnd TIMEOUT lat b) = config b"
      "int (consecutiveTimeout b + 1) < consecutiveTimeoutOpen (config b)"
    with Cons.prems(2) have "ts \<noteq> []" by auto
    with r Cons.prems(2) show ?thesis by (auto simp: t intro!: Cons.IH)
  qed
qed simp

theorem consecutive_timeouts_trip_witness:
  "state (run (\<lambda>b (now, rnd, lat). release now rnd TIMEOUT lat b) default_breaker
     [(1000, 0, 5000000), (60000, 0, 5000000), (90000, 1/2, 5000000)]) = OPEN"
  by (rule consecutive_timeouts_trip; code_simp)

text \<open>
  A failed probe re-opens the circuit at once: a timeout or a Redis error released while the
  circuit is half-open leaves it open, with the cooldown restarted at the instant of the failure
  and lasting between \<open>openCooldownMs\<close> and \<open>openCooldownMs + cooldownJitterMs\<close>.
\<close>

theorem failed_probe_reopens:
  assumes "wf_breaker b" and "state b = HALF_OPEN" and "is_draw rnd" and "out \<in> {REDIS_ERROR, TIMEOUT}"
    and "b' = release now rnd out lat b"
  shows "state b' = OPEN \<and> openedAtMs b' = now \<and> circuitOpenTotal b' = circuitOpenTotal b + 1
    \<and> openCooldownMs (config b) \<le> cooldownMs b'
    \<and> cooldownMs b' \<le> openCooldownMs (config b) + cooldownJitterMs (config b)"
proof -
  have "0 \<le> cooldownJitterMs (config b)" using assms(1) by (simp add: wf_breaker_def wf_config_def)
  from jitterMs_bounds [OF assms(3) this] assms(2,4,5) show ?thesis
    by (auto simp: release_def release_timeout_def release_error_def tripOpen_def Let_def)
qed

definition half_open_breaker :: breaker where
  "half_open_breaker = snd (acquire 1006000 0 tripped_breaker)"

lemma tripped_breaker_wf: "wf_breaker tripped_breaker"
  unfolding tripped_breaker_def default_breaker_def
  by (rule cb.run_inv [OF new_breaker_wf]) (simp add: is_draw_def attempted_def)

lemma half_open_breaker_wf: "wf_breaker half_open_breaker"
  unfolding half_open_breaker_def by (rule acquire_wf [OF tripped_breaker_wf]) (simp add: is_draw_def)

theorem failed_probe_reopens_witness:
  "openedAtMs (release 1007000 (1/2) REDIS_ERROR 100 half_open_breaker) = 1007000
   \<and> cooldownMs (release 1007000 (1/2) REDIS_ERROR 100 half_open_breaker) \<le> 7000"
proof -
  have *: "state half_open_breaker = HALF_OPEN"
    "openCooldownMs (config half_open_breaker) + cooldownJitterMs (config half_open_breaker) = 7000"
    by code_simp+
  from failed_probe_reopens [OF half_open_breaker_wf *(1) _ _ refl, of "1/2" REDIS_ERROR 1007000 100] *(2)
  show ?thesis by (simp add: is_draw_def)
qed

text \<open>
  The half-open circuit cannot wedge: when its probes never report back (every budgeted
  probe was dispatched, none released), the first acquire after \<open>halfOpenMaxMs\<close> re-opens
  it, and once that cooldown has elapsed, at the latest after
  \<open>openCooldownMs + cooldownJitterMs\<close>, an acquire is granted again provided a concurrency
  slot is free.
\<close>

theorem half_open_not_wedged:
  assumes "wf_breaker b" and "state b = HALF_OPEN" and "is_draw rnd"
    and "halfOpenMaxMs (config b) \<le> now - halfOpenStartedAtMs b"
    and "openCooldownMs (config b) + cooldownJitterMs (config b) \<le> now' - now"
    and "int (inflight b) < halfOpenProbes (config b)"
  shows "fst (acquire now rnd b) = Some CIRCUIT_OPEN \<and> state (snd (acquire now rnd b)) = OPEN
    \<and> fst (acquire now' rnd' (snd (acquire now rnd b))) = None"
proof -
  let ?b = "reject (tripOpen now rnd b)"
  have acq: "acquire now rnd b = (Some CIRCUIT_OPEN, ?b)"
    using assms(2,4) by (simp add: acquire_def acquireHalfOpen_def)
  have "wf_breaker ?b" using tripOpen_wf [OF assms(1,3)] by simp
  moreover have "0 \<le> cooldownJitterMs (config b)" using assms(1) by (simp add: wf_breaker_def wf_config_def)
  from jitterMs_bounds(2) [OF assms(3) this] assms(2,5)
  have "cooldownMs ?b \<le> now' - openedAtMs ?b" by (simp add: tripOpen_def)
  ultimately have "fst (acquire now' rnd' ?b) = None"
    using acquire_open_elapsed(2) [of ?b now' rnd'] assms(6) by simp
  with acq show ?thesis by simp
qed

theorem half_open_not_wedged_witness:
  "fst (acquire 1030000 0 (snd (acquire 1020000 0 half_open_breaker))) = None"
proof -
  have "state half_open_breaker = HALF_OPEN"
    "halfOpenMaxMs (config half_open_breaker) \<le> 1020000 - halfOpenStartedAtMs half_open_breaker"
    "openCooldownMs (config half_open_breaker) + cooldownJitterMs (config half_open_breaker) \<le> 1030000 - 1020000"
    "int (inflight half_open_breaker) < halfOpenProbes (config half_open_breaker)"
    by code_simp+
  with half_open_not_wedged [OF half_open_breaker_wf, of 0 1020000 1030000 0] show ?thesis
    by (simp add: is_draw_def)
qed

lemma withCircuitBreaker_first:
  "withCircuitBreaker now rnd ((t, r, ns, s) # late) b =
     (case acquire now rnd b of
        (Some out, b') \<Rightarrow> (Some (NotOk out), b')
      | (None, b') \<Rightarrow> (Some (settle_result s), release t r (settle_outcome s) (elapsedUs ns) b'))"
proof (cases "fst (acquire now rnd b)")
  case None
  then obtain b' where b': "acquire now rnd b = (None, b')" by (cases "acquire now rnd b") auto
  let ?p = "\<lparr>p_breaker = b', p_settled = False, p_result = None\<rparr>"
  have "run settle (settle ?p (t, r, ns, s)) late = settle ?p (t, r, ns, s)"
    by (rule run_settled [OF settle_settles])
  with b' show ?thesis by (simp add: withCircuitBreaker_def settle_first)
next
  case (Some out)
  then show ?thesis by (cases "acquire now rnd b") (simp add: withCircuitBreaker_def)
qed



text \<open>
  (C17) A call under the breaker settles exactly once: whichever of the timer and the command's
  promise comes first decides the caller's result and is the one release the breaker sees, and
  every later settlement (the command finishing after its timeout, the timer firing after the
  command) changes nothing. The concurrency slot taken by the acquire is given back, and a
  refused call never runs.
\<close>

theorem withCircuitBreaker_settles_once:
  "withCircuitBreaker now rnd ((t, r, ns, s) # late) b =
     (case acquire now rnd b of
        (Some out, b') \<Rightarrow> (Some (NotOk out), b')
      | (None, b') \<Rightarrow> (Some (settle_result s), release t r (settle_outcome s) (elapsedUs ns) b'))
   \<and> inflight (snd (withCircuitBreaker now rnd ((t, r, ns, s) # late) b)) = inflight b"
  using acquire_granted_inflight [of now rnd b] acquire_rejected_inflight [of now rnd b]
  by (auto simp: withCircuitBreaker_first split: prod.splits option.splits)

end
