(* ===== verification/Redis_Pool.thy ===== *)
theory Redis_Pool
  imports Breaker_Machine App_Config
begin

text \<open>
  The Redis pools (\<open>config/redis.ts\<close>): client construction and readiness flags, the ping
  probes, and the cache commands that run under the shared circuit breaker. The Redis server is a
  parameter: a state \<open>'r\<close> and a function that executes one command and says how the
  command's promise and the breaker's timer settle.
\<close>

section \<open>Commands\<close>

datatype rcmd =
    PING
  | GET string
  | SET string rtext
  | SETEX string int rtext
  | DEL string

datatype reply =
    RStatus string
  | RNil
  | RText rtext
  | RInt int

text \<open>
  The rate-limit pool also runs raw commands, so the command type is open. \<open>exec now c r\<close>: the first settlement (the promise or the timer), the later ones, and the
  server state after the command.
\<close>

type_synonym settling = "ms \<times> rat \<times> int \<times> reply settlement"

type_synonym ('c, 'r) exec = "ms \<Rightarrow> 'c \<Rightarrow> 'r \<Rightarrow> settling \<times> settling list \<times> 'r"

type_synonym 'r redis_exec = "(rcmd, 'r) exec"

fun reply_text :: "reply \<Rightarrow> rtext option" where
  "reply_text (RText t) = Some t"
| "reply_text r = None"

section \<open>Clients\<close>

datatype redis_role = Cache | RateLimit

text \<open>The module's variables, the breaker shared by both pools, and the server.\<close>

record 'r pool =
  redis_enabled :: bool
  redisCache :: bool
  redisRateLimit :: bool
  cacheReady :: bool
  rateLimitReady :: bool
  circuit :: breaker
  server :: 'r

definition retryStrategy :: "nat \<Rightarrow> nat" where
  "retryStrategy n = min (n * 200) 5000"

definition reconnectOnError :: "string \<Rightarrow> bool" where
  "reconnectOnError message \<longleftrightarrow>
     str_includes message ''READONLY'' \<or> str_includes message ''ECONNRESET''
     \<or> str_includes message ''Connection is closed'' \<or> str_includes message ''Stream isnt writeable''"

record redis_options =
  ro_host :: string
  ro_port :: "int option"
  ro_username :: "string option"
  ro_password :: "string option"
  ro_tls :: "(bool \<times> string) option"
  ro_db :: int
  ro_connectionName :: string
  ro_lazyConnect :: bool
  ro_enableReadyCheck :: bool
  ro_enableOfflineQueue :: bool
  ro_maxRetriesPerRequest :: int
  ro_connectTimeout :: int
  ro_commandTimeout :: int
  ro_keepAlive :: int

fun role_name :: "redis_role \<Rightarrow> string" where
  "role_name Cache = ''cache''"
| "role_name RateLimit = ''ratelimit''"

definition buildRedisOptions :: "redis_config \<Rightarrow> redis_role \<Rightarrow> redis_options" where
  "buildRedisOptions rc role = \<lparr>
     ro_host = rc_host rc,
     ro_port = rc_port rc,
     ro_username = rc_username rc,
     ro_password = or_undef (Some (rc_password rc)),
     ro_tls = (if rc_tls rc then Some (True, rc_host rc) else None),
     ro_db = rc_db rc,
     ro_connectionName = ''uam-'' @ role_name role,
     ro_lazyConnect = True,
     ro_enableReadyCheck = True,
     ro_enableOfflineQueue = True,
     ro_maxRetriesPerRequest = rc_maxRetriesPerRequest rc,
     ro_connectTimeout = rc_connectTimeoutMs rc,
     ro_commandTimeout = rc_commandTimeoutMs rc,
     ro_keepAlive = rc_keepAliveMs rc\<rparr>"

datatype client_event = EvReady | EvConnect | EvError | EvClose | EvReconnecting

definition set_ready :: "redis_role \<Rightarrow> bool \<Rightarrow> ('r, 'z) pool_scheme \<Rightarrow> ('r, 'z) pool_scheme" where
  "set_ready role ready p =
     (case role of Cache \<Rightarrow> p\<lparr>cacheReady := ready\<rparr> | RateLimit \<Rightarrow> p\<lparr>rateLimitReady := ready\<rparr>)"

fun wireClientEvents :: "redis_role \<Rightarrow> ('r, 'z) pool_scheme \<Rightarrow> client_event \<Rightarrow> ('r, 'z) pool_scheme" where
  "wireClientEvents role p EvReady = set_ready role True p"
| "wireClientEvents role p EvConnect = p"
| "wireClientEvents role p EvError = set_ready role False p"
| "wireClientEvents role p EvClose = set_ready role False p"
| "wireClientEvents role p EvReconnecting = set_ready role False p"

text \<open>Both branches of \<open>createClients\<close> (URL or options) create the two clients.\<close>

definition createClients :: "('r, 'z) pool_scheme \<Rightarrow> ('r, 'z) pool_scheme" where
  "createClients p =
     (if \<not> redis_enabled p then p else p\<lparr>redisCache := True, redisRateLimit := True\<rparr>)"

definition new_pool :: "bool \<Rightarrow> breaker \<Rightarrow> 'r \<Rightarrow> 'r pool" where
  "new_pool enabled b r =
     createClients \<lparr>redis_enabled = enabled, redisCache = False, redisRateLimit = False,
                    cacheReady = False, rateLimitReady = False, circuit = b, server = r\<rparr>"

text \<open>
  \<open>ensureRedisConnected\<close>: \<open>Some True\<close> when the promise resolves, \<open>Some False\<close> when it
  rejects, \<open>None\<close> when neither a ready nor an error event arrives. \<open>connects\<close> is the
  outcome of \<open>client.connect()\<close>.
\<close>

datatype client_status = StReady | StWait | StOther

fun first_outcome :: "client_event list \<Rightarrow> bool option" where
  "first_outcome [] = None"
| "first_outcome (e # es) =
     (if e = EvReady then Some True else if e = EvError then Some False else first_outcome es)"

definition ensureRedisConnected :: "client_status \<Rightarrow> bool \<Rightarrow> client_event list \<Rightarrow> bool option" where
  "ensureRedisConnected st connects events =
     (if st = StReady then Some True
      else if st = StWait then Some connects
      else first_outcome events)"

text \<open>
  \<open>connectRedis\<close>: \<open>Promise.all\<close> rejects with the first rejection and resolves when both
  have; \<open>None\<close> when it stays pending.
\<close>

definition connectRedis ::
    "bool option \<Rightarrow> bool option \<Rightarrow> bool \<Rightarrow> bool \<Rightarrow> ('r, 'z) pool_scheme \<Rightarrow> ('r, 'z) pool_scheme option" where
  "connectRedis cacheConn rateConn cachePing ratePing p =
     (if \<not> redis_enabled p \<or> \<not> redisCache p \<or> \<not> redisRateLimit p then Some p
      else if cacheConn = Some False \<or> rateConn = Some False
      then Some (p\<lparr>cacheReady := False, rateLimitReady := False\<rparr>)
      else if cacheConn = None \<or> rateConn = None then None
      else if cachePing \<and> ratePing
      then Some (p\<lparr>cacheReady := True, rateLimitReady := True\<rparr>)
      else Some (p\<lparr>cacheReady := False, rateLimitReady := False\<rparr>))"

definition closeRedis :: "('r, 'z) pool_scheme \<Rightarrow> ('r, 'z) pool_scheme" where
  "closeRedis p = p\<lparr>cacheReady := False, rateLimitReady := False\<rparr>"

definition isRedisAvailable :: "('r, 'z) pool_scheme \<Rightarrow> bool" where
  "isRedisAvailable p \<longleftrightarrow> redis_enabled p \<and> cacheReady p \<and> redisCache p"

definition isRedisRateLimitAvailable :: "('r, 'z) pool_scheme \<Rightarrow> bool" where
  "isRedisRateLimitAvailable p \<longleftrightarrow> redis_enabled p \<and> rateLimitReady p \<and> redisRateLimit p"

section \<open>Commands under the breaker\<close>

text \<open>
  A command runs, and the server changes, only when the breaker grants it. The result of
  \<open>withCircuitBreaker\<close> on a non-empty list of settlements is never absent, so the last case
  does not occur (\<open>withCircuitBreaker_returns\<close>).
\<close>

definition run_command ::
    "('c, 'r) exec \<Rightarrow> ms \<Rightarrow> rat \<Rightarrow> 'c \<Rightarrow> ('r, 'z) pool_scheme \<Rightarrow> reply cb_result \<times> ('r, 'z) pool_scheme" where
  "run_command ex now rnd c p =
     (let granted = (fst (acquire now rnd (circuit p)) = None);
          (first, late, srv) = ex now c (server p);
          (res, b) = withCircuitBreaker now rnd (first # late) (circuit p)
      in (case res of Some r \<Rightarrow> r | None \<Rightarrow> NotOk TIMEOUT,
          p\<lparr>circuit := b, server := if granted then srv else server p\<rparr>))"

definition runCacheCommand ::
    "'r redis_exec \<Rightarrow> ms \<Rightarrow> rat \<Rightarrow> rcmd \<Rightarrow> ('r, 'z) pool_scheme \<Rightarrow> reply cb_result \<times> ('r, 'z) pool_scheme" where
  "runCacheCommand ex now rnd c p = run_command ex now rnd c p"

definition runRateLimitCommand ::
    "('c, 'r) exec \<Rightarrow> ms \<Rightarrow> rat \<Rightarrow> 'c \<Rightarrow> ('r, 'z) pool_scheme \<Rightarrow> reply cb_result \<times> ('r, 'z) pool_scheme" where
  "runRateLimitCommand ex now rnd c p = run_command ex now rnd c p"

definition pingRedisCache ::
    "'r redis_exec \<Rightarrow> ms \<Rightarrow> rat \<Rightarrow> ('r, 'z) pool_scheme \<Rightarrow> bool \<times> ('r, 'z) pool_scheme" where
  "pingRedisCache ex now rnd p =
     (if \<not> redisCache p then (False, p)
      else let (res, p') = run_command ex now rnd PING p in (res = Ok (RStatus ''PONG''), p'))"

definition pingRedisRateLimit ::
    "'r redis_exec \<Rightarrow> ms \<Rightarrow> rat \<Rightarrow> ('r, 'z) pool_scheme \<Rightarrow> bool \<times> ('r, 'z) pool_scheme" where
  "pingRedisRateLimit ex now rnd p =
     (if \<not> redisRateLimit p then (False, p)
      else let (res, p') = run_command ex now rnd PING p in (res = Ok (RStatus ''PONG''), p'))"

text \<open>\<open>ttlSeconds\<close> is optional; a zero is falsy and gives a plain \<open>SET\<close>.\<close>

definition set_command :: "string \<Rightarrow> rtext \<Rightarrow> int option \<Rightarrow> rcmd" where
  "set_command key val ttl = (case ttl of
      None \<Rightarrow> SET key val
    | Some n \<Rightarrow> (if n = 0 then SET key val else SETEX key n val))"

definition cacheSet ::
    "'r redis_exec \<Rightarrow> ms \<Rightarrow> rat \<Rightarrow> string \<Rightarrow> rtext \<Rightarrow> int option \<Rightarrow> ('r, 'z) pool_scheme \<Rightarrow> ('r, 'z) pool_scheme" where
  "cacheSet ex now rnd key val ttl p =
     (if \<not> isRedisAvailable p then p
      else snd (runCacheCommand ex now rnd (set_command key val ttl) p))"

definition cacheGet ::
    "'r redis_exec \<Rightarrow> ms \<Rightarrow> rat \<Rightarrow> string \<Rightarrow> ('r, 'z) pool_scheme \<Rightarrow> rtext option \<times> ('r, 'z) pool_scheme" where
  "cacheGet ex now rnd key p =
     (if \<not> isRedisAvailable p then (None, p)
      else case runCacheCommand ex now rnd (GET key) p of
             (Ok v, p') \<Rightarrow> (reply_text v, p')
           | (NotOk out, p') \<Rightarrow> (None, p'))"

definition cacheDel ::
    "'r redis_exec \<Rightarrow> ms \<Rightarrow> rat \<Rightarrow> string \<Rightarrow> ('r, 'z) pool_scheme \<Rightarrow> ('r, 'z) pool_scheme" where
  "cacheDel ex now rnd key p =
     (if \<not> isRedisAvailable p then p else snd (runCacheCommand ex now rnd (DEL key) p))"

section \<open>The behaviour of Redis\<close>

text \<open>
  What Redis documents about these commands. \<open>live r t\<close> is the content a client would read at
  instant \<open>t\<close>. A command whose promise resolves has been applied; one that timed out or
  failed may or may not have been. \<open>GET\<close> answers with the live content, and a key that
  expires stays expired.
\<close>

fun apply_cmd :: "rcmd \<Rightarrow> ms \<Rightarrow> ms \<Rightarrow> (string \<Rightarrow> rtext option) \<Rightarrow> (string \<Rightarrow> rtext option)" where
  "apply_cmd (SETEX k n v) now t m = m(k := if t < now + 1000 * n then Some v else None)"
| "apply_cmd (SET k v) now t m = m(k := Some v)"
| "apply_cmd (DEL k) now t m = m(k := None)"
| "apply_cmd (GET k) now t m = m"
| "apply_cmd PING now t m = m"

fun resolves :: "settling \<Rightarrow> reply option" where
  "resolves (t, r, ns, FnResolves v) = Some v"
| "resolves (t, r, ns, FnRejects e) = None"
| "resolves (t, r, ns, TimerFires) = None"

fun get_reply :: "rtext option \<Rightarrow> reply" where
  "get_reply None = RNil"
| "get_reply (Some x) = RText x"

definition redis_laws :: "'r redis_exec \<Rightarrow> ('r \<Rightarrow> ms \<Rightarrow> string \<Rightarrow> rtext option) \<Rightarrow> bool" where
  "redis_laws ex live \<longleftrightarrow>
     (\<forall>now c r s late r'. ex now c r = (s, late, r') \<longrightarrow>
        (\<exists>applied. (resolves s \<noteq> None \<longrightarrow> applied)
           \<and> (\<forall>t\<ge>now. live r' t = (if applied then apply_cmd c now t (live r t) else live r t)))
        \<and> (\<forall>k v. c = GET k \<longrightarrow> resolves s = Some v \<longrightarrow> v = get_reply (live r now k)))
     \<and> (\<forall>r t t' k v. t \<le> t' \<longrightarrow> live r t' k = Some v \<longrightarrow> live r t k = Some v)"

lemma redis_lawsD:
  assumes "redis_laws ex live" and "ex now c r = (s, late, r')"
  obtains applied where "resolves s \<noteq> None \<Longrightarrow> applied"
    and "\<And>t. now \<le> t \<Longrightarrow> live r' t = (if applied then apply_cmd c now t (live r t) else live r t)"
proof -
  have "\<exists>applied. (resolves s \<noteq> None \<longrightarrow> applied)
      \<and> (\<forall>t\<ge>now. live r' t = (if applied then apply_cmd c now t (live r t) else live r t))"
    using assms(1) [unfolded redis_laws_def, THEN conjunct1, rule_format, OF assms(2)] by (rule conjunct1)
  then show thesis using that by blast
qed

lemma redis_laws_get:
  assumes "redis_laws ex live" and "ex now (GET k) r = (s, late, r')" and "resolves s = Some v"
  shows "v = get_reply (live r now k)"
  using assms(1) [unfolded redis_laws_def, THEN conjunct1, rule_format, OF assms(2)] assms(3) by blast

lemma redis_laws_expiry:
  "redis_laws ex live \<Longrightarrow> t \<le> t' \<Longrightarrow> live r t' k = Some v \<Longrightarrow> live r t k = Some v"
  by (simp add: redis_laws_def)

text \<open>
  A server that keeps its content in memory and answers every command, the instance used in
  concrete runs: each key holds its text and its expiry instant.
\<close>

type_synonym mem = "string \<Rightarrow> (rtext \<times> ms option) option"

definition mem_live :: "mem \<Rightarrow> ms \<Rightarrow> string \<Rightarrow> rtext option" where
  "mem_live m t k = (case m k of
      None \<Rightarrow> None
    | Some (v, e) \<Rightarrow> (case e of None \<Rightarrow> Some v | Some x \<Rightarrow> (if t < x then Some v else None)))"

fun mem_apply :: "ms \<Rightarrow> rcmd \<Rightarrow> mem \<Rightarrow> reply \<times> mem" where
  "mem_apply now PING m = (RStatus ''PONG'', m)"
| "mem_apply now (GET k) m = (get_reply (mem_live m now k), m)"
| "mem_apply now (SET k v) m = (RStatus ''OK'', m(k := Some (v, None)))"
| "mem_apply now (SETEX k n v) m = (RStatus ''OK'', m(k := Some (v, Some (now + 1000 * n))))"
| "mem_apply now (DEL k) m = (RInt (if mem_live m now k = None then 0 else 1), m(k := None))"

definition mem_exec :: "mem redis_exec" where
  "mem_exec now c m = (case mem_apply now c m of (v, m') \<Rightarrow> ((now, 0, 1000000, FnResolves v), [], m'))"

lemma mem_live_upd: "mem_live (m(k := x)) t = (mem_live m t)(k := mem_live (\<lambda>_. x) t k)"
  by (rule ext) (simp add: mem_live_def)

lemma mem_apply_live: "mem_live (snd (mem_apply now c m)) t = apply_cmd c now t (mem_live m t)"
  by (cases c) (simp_all add: mem_live_upd, simp_all add: mem_live_def)

lemma mem_exec_laws: "redis_laws mem_exec mem_live"
  unfolding redis_laws_def
proof (intro conjI allI impI)
  fix now c r s late r'
  assume "mem_exec now c r = (s, late, r')"
  then have r: "r' = snd (mem_apply now c r)" "resolves s = Some (fst (mem_apply now c r))"
    by (auto simp: mem_exec_def split: prod.splits)
  show "\<exists>applied. (resolves s \<noteq> None \<longrightarrow> applied) \<and>
      (\<forall>t\<ge>now. mem_live r' t = (if applied then apply_cmd c now t (mem_live r t) else mem_live r t))"
    by (rule exI [of _ True]) (simp add: r mem_apply_live)
  show "v = get_reply (mem_live r now k)" if "c = GET k" "resolves s = Some v" for k v
    using that r(2) by simp
next
  fix r :: mem and t t' k v
  assume "t \<le> t'" "mem_live r t' k = Some v"
  then show "mem_live r t k = Some v"
    by (auto simp: mem_live_def split: option.splits if_splits)
qed

section \<open>Laws of the cache operations\<close>

lemma exec_cases:
  fixes ex :: "('c, 'r) exec"
  obtains t rnd ns s late srv where "ex now c r = ((t, rnd, ns, s), late, srv)"
  by (metis surj_pair)

lemma run_command_eq:
  assumes "ex now c (server p) = ((t, r, ns, s), late, srv)"
  shows "run_command ex now rnd c p =
     (case acquire now rnd (circuit p) of
        (Some out, b) \<Rightarrow> (NotOk out, p\<lparr>circuit := b\<rparr>)
      | (None, b) \<Rightarrow> (settle_result s,
           p\<lparr>circuit := release t r (settle_outcome s) (elapsedUs ns) b, server := srv\<rparr>))"
  using assms
  by (cases "acquire now rnd (circuit p)") (auto simp: run_command_def withCircuitBreaker_first split: option.splits)

lemma settle_result_Ok: "settle_result s = Ok v \<longleftrightarrow> s = FnResolves v"
  by (cases s) auto

lemma run_command_live:
  assumes "redis_laws ex live" and "run_command ex now rnd c p = (res, p')"
  obtains applied where "\<And>v. res = Ok v \<Longrightarrow> applied"
    and "\<And>t. now \<le> t \<Longrightarrow>
           live (server p') t = (if applied then apply_cmd c now t (live (server p) t) else live (server p) t)"
proof -
  obtain t r ns s late srv where ex: "ex now c (server p) = ((t, r, ns, s), late, srv)"
    by (rule exec_cases)
  obtain applied where ap: "resolves (t, r, ns, s) \<noteq> None \<Longrightarrow> applied"
    "\<And>t. now \<le> t \<Longrightarrow> live srv t = (if applied then apply_cmd c now t (live (server p) t) else live (server p) t)"
    using redis_lawsD [OF assms(1) ex] by metis
  show thesis
  proof (cases "fst (acquire now rnd (circuit p))")
    case None
    with assms(2) have "res = settle_result s" "server p' = srv"
      by (auto simp: run_command_eq [of ex now _ p, OF ex] split: prod.splits)
    moreover from this have "resolves (t, r, ns, s) \<noteq> None" if "res = Ok v" for v
      using that settle_result_Ok [of s v] by simp
    ultimately show thesis using ap(1,2) by (intro that [of applied]) (blast, simp)
  next
    case (Some out)
    with assms(2) have "res = NotOk out" "server p' = server p"
      by (auto simp: run_command_eq [of ex now _ p, OF ex] split: prod.splits)
    then show thesis by (intro that [of False]) auto
  qed
qed

lemma run_command_applied:
  assumes "redis_laws ex live" and "run_command ex now rnd c p = (Ok v, p')" and "now \<le> t"
  shows "live (server p') t = apply_cmd c now t (live (server p) t)"
  by (rule run_command_live [OF assms(1,2)]) (simp add: assms(3))

lemma run_command_get:
  assumes "redis_laws ex live" and "run_command ex now rnd (GET k) p = (Ok v, p')"
  shows "v = get_reply (live (server p) now k)"
proof -
  obtain t r ns s late srv where ex: "ex now (GET k) (server p) = ((t, r, ns, s), late, srv)"
    by (rule exec_cases)
  with assms(2) have "resolves (t, r, ns, s) = Some v"
    by (auto simp: run_command_eq [of ex now _ p, OF ex] settle_result_Ok split: prod.splits option.splits)
  from redis_laws_get [OF assms(1) ex this] show ?thesis .
qed

text \<open>The commands touch the breaker and the server only.\<close>

lemma run_command_frame:
  obtains b r where "snd (run_command ex now rnd c p) = p\<lparr>circuit := b, server := r\<rparr>"
proof (rule exec_cases [of ex now c "server p"])
  fix t r ns s late srv
  assume ex: "ex now c (server p) = ((t, r, ns, s), late, srv)"
  show thesis
  proof (cases "acquire now rnd (circuit p)")
    case (Pair x b)
    then show thesis
      using that [of "server p" b] that [of srv "release t r (settle_outcome s) (elapsedUs ns) b"]
      by (cases x) (simp_all add: run_command_eq [of ex now c p, OF ex])
  qed
qed

lemma pool_eqI: "p\<lparr>circuit := circuit p, server := server p\<rparr> = p"
  by simp

lemma cacheGet_frame:
  obtains b r where "snd (cacheGet ex now rnd k p) = p\<lparr>circuit := b, server := r\<rparr>"
proof (cases "isRedisAvailable p")
  case True
  obtain b r where "snd (run_command ex now rnd (GET k) p) = p\<lparr>circuit := b, server := r\<rparr>"
    by (rule run_command_frame)
  with True show thesis
    by (intro that [of r b]) (auto simp: cacheGet_def runCacheCommand_def split: prod.splits cb_result.splits)
next
  case False
  then show thesis by (intro that [of "server p" "circuit p"]) (simp add: cacheGet_def)
qed

lemma cacheSet_frame:
  obtains b r where "cacheSet ex now rnd k v n p = p\<lparr>circuit := b, server := r\<rparr>"
proof (cases "isRedisAvailable p")
  case True
  obtain b r where "snd (run_command ex now rnd (set_command k v n) p) = p\<lparr>circuit := b, server := r\<rparr>"
    by (rule run_command_frame)
  with True show thesis by (intro that [of r b]) (simp add: cacheSet_def runCacheCommand_def)
next
  case False
  then show thesis by (intro that [of "server p" "circuit p"]) (simp add: cacheSet_def)
qed

lemma cacheDel_frame:
  obtains b r where "cacheDel ex now rnd k p = p\<lparr>circuit := b, server := r\<rparr>"
proof (cases "isRedisAvailable p")
  case True
  obtain b r where "snd (run_command ex now rnd (DEL k) p) = p\<lparr>circuit := b, server := r\<rparr>"
    by (rule run_command_frame)
  with True show thesis by (intro that [of r b]) (simp add: cacheDel_def runCacheCommand_def)
next
  case False
  then show thesis by (intro that [of "server p" "circuit p"]) (simp add: cacheDel_def)
qed

lemma available_upd [simp]:
  "isRedisAvailable (p\<lparr>circuit := b, server := r\<rparr>) = isRedisAvailable p"
  by (simp add: isRedisAvailable_def)

lemma available_cacheGet [simp]: "isRedisAvailable (snd (cacheGet ex now rnd k p)) = isRedisAvailable p"
  by (rule cacheGet_frame [of ex now rnd k p]) simp

lemma available_cacheSet [simp]: "isRedisAvailable (cacheSet ex now rnd k v n p) = isRedisAvailable p"
  by (rule cacheSet_frame [of ex now rnd k v n p]) simp

lemma available_cacheDel [simp]: "isRedisAvailable (cacheDel ex now rnd k p) = isRedisAvailable p"
  by (rule cacheDel_frame [of ex now rnd k p]) simp

lemma cacheGet_sound:
  assumes "redis_laws ex live" and "cacheGet ex now rnd k p = (Some v, p')"
  shows "live (server p) now k = Some v"
proof -
  from assms(2) obtain x where "run_command ex now rnd (GET k) p = (Ok x, p')" "reply_text x = Some v"
    by (auto simp: cacheGet_def runCacheCommand_def split: if_splits prod.splits cb_result.splits)
  with run_command_get [OF assms(1) this(1)] show ?thesis
    by (cases "live (server p) now k") auto
qed

lemma cacheGet_live:
  assumes "redis_laws ex live" and "cacheGet ex now rnd k p = (v, p')" and "now \<le> t"
  shows "live (server p') t = live (server p) t"
proof (cases "isRedisAvailable p")
  case True
  with assms(2) obtain res where "run_command ex now rnd (GET k) p = (res, p')"
    by (auto simp: cacheGet_def runCacheCommand_def split: prod.splits cb_result.splits)
  from run_command_live [OF assms(1) this] assms(3) show ?thesis by (metis apply_cmd.simps(4))
next
  case False
  with assms(2) show ?thesis by (simp add: cacheGet_def)
qed

lemma cacheSet_live:
  assumes "redis_laws ex live" and "now \<le> t"
  shows "live (server (cacheSet ex now rnd k v n p)) t =
           (if isRedisAvailable p \<and> fst (runCacheCommand ex now rnd (set_command k v n) p) = Ok y
            then apply_cmd (set_command k v n) now t (live (server p) t)
            else live (server (cacheSet ex now rnd k v n p)) t)"
    and "k' \<noteq> k \<Longrightarrow> live (server (cacheSet ex now rnd k v n p)) t k' = live (server p) t k'"
proof -
  obtain res p' where r: "run_command ex now rnd (set_command k v n) p = (res, p')" by fastforce
  obtain applied where ap: "\<And>v. res = Ok v \<Longrightarrow> applied"
    "live (server p') t = (if applied then apply_cmd (set_command k v n) now t (live (server p) t) else live (server p) t)"
    using run_command_live [OF assms(1) r] assms(2) by metis
  have "apply_cmd (set_command k v n) now t m k' = m k'" if "k' \<noteq> k" for m
    using that by (auto simp: set_command_def split: option.splits)
  with ap r show "k' \<noteq> k \<Longrightarrow> live (server (cacheSet ex now rnd k v n p)) t k' = live (server p) t k'"
    by (auto simp: cacheSet_def runCacheCommand_def)
  from ap r show "live (server (cacheSet ex now rnd k v n p)) t =
           (if isRedisAvailable p \<and> fst (runCacheCommand ex now rnd (set_command k v n) p) = Ok y
            then apply_cmd (set_command k v n) now t (live (server p) t)
            else live (server (cacheSet ex now rnd k v n p)) t)"
    by (auto simp: cacheSet_def runCacheCommand_def)
qed

lemma cacheDel_live:
  assumes "redis_laws ex live" and "now \<le> t"
  shows "isRedisAvailable p \<Longrightarrow> fst (runCacheCommand ex now rnd (DEL k) p) = Ok y \<Longrightarrow>
           live (server (cacheDel ex now rnd k p)) t = (live (server p) t)(k := None)"
    and "k' \<noteq> k \<Longrightarrow> live (server (cacheDel ex now rnd k p)) t k' = live (server p) t k'"
    and "live (server (cacheDel ex now rnd k p)) t k' = Some v \<Longrightarrow> live (server p) t k' = Some v"
proof -
  obtain res p' where r: "run_command ex now rnd (DEL k) p = (res, p')" by fastforce
  obtain applied where ap: "\<And>v. res = Ok v \<Longrightarrow> applied"
    "live (server p') t = (if applied then apply_cmd (DEL k) now t (live (server p) t) else live (server p) t)"
    using run_command_live [OF assms(1) r] assms(2) by metis
  note defs = cacheDel_def runCacheCommand_def
  from ap r show "isRedisAvailable p \<Longrightarrow> fst (runCacheCommand ex now rnd (DEL k) p) = Ok y \<Longrightarrow>
      live (server (cacheDel ex now rnd k p)) t = (live (server p) t)(k := None)"
    by (auto simp: defs)
  from ap r show "k' \<noteq> k \<Longrightarrow> live (server (cacheDel ex now rnd k p)) t k' = live (server p) t k'"
    by (auto simp: defs)
  from ap r show "live (server (cacheDel ex now rnd k p)) t k' = Some v \<Longrightarrow> live (server p) t k' = Some v"
    by (auto simp: defs split: if_splits)
qed

section \<open>Properties\<close>

definition demo_pool :: "mem pool" where
  "demo_pool = (new_pool True default_breaker (\<lambda>_. None))\<lparr>cacheReady := True, rateLimitReady := True\<rparr>"

lemma demo_pool_available [simp]: "isRedisAvailable demo_pool"
  by (simp add: demo_pool_def new_pool_def createClients_def isRedisAvailable_def)

text \<open>
  (C30) The cache keeps what it is given for exactly its lifetime: after a \<open>cacheSet\<close> whose
  command was acknowledged, \<open>cacheGet\<close> returns the value at every instant before the expiry,
  unless its own command fails, and returns null from the expiry on.
\<close>

theorem cache_roundtrip:
  assumes "redis_laws ex live" and "isRedisAvailable p" and "n \<noteq> 0" and "now \<le> t"
    and "fst (runCacheCommand ex now rnd (SETEX k n v) p) = Ok y"
    and "p1 = cacheSet ex now rnd k v (Some n) p"
  shows "(t < now + 1000 * n \<longrightarrow> fst (cacheGet ex t rnd' k p1) = Some v
            \<or> (\<exists>out. fst (runCacheCommand ex t rnd' (GET k) p1) = NotOk out))
    \<and> (now + 1000 * n \<le> t \<longrightarrow> fst (cacheGet ex t rnd' k p1) = None)"
proof -
  have live: "live (server p1) t k = (if t < now + 1000 * n then Some v else None)"
    using cacheSet_live(1) [OF assms(1,4), of rnd k v "Some n" p y] assms(2,3,5,6)
    by (simp add: set_command_def)
  have "isRedisAvailable p1" using assms(2,6) by simp
  moreover obtain res p2 where r: "run_command ex t rnd' (GET k) p1 = (res, p2)" by fastforce
  moreover have "reply_text x = live (server p1) t k" if "res = Ok x" for x
    using run_command_get [OF assms(1) r [unfolded that]]
    by (cases "live (server p1) t k") auto
  ultimately show ?thesis
    using live by (cases res) (auto simp: cacheGet_def runCacheCommand_def)
qed

theorem cache_roundtrip_witness:
  "fst (cacheGet mem_exec 60999 0 ''k'' (cacheSet mem_exec 1000 0 ''k'' (Raw ''x'') (Some 60) demo_pool)) = Some (Raw ''x'')"
proof -
  have "fst (runCacheCommand mem_exec 1000 0 (SETEX ''k'' 60 (Raw ''x'')) demo_pool) = Ok (RStatus ''OK'')"
    by code_simp
  moreover have "fst (runCacheCommand mem_exec 60999 0 (GET ''k'')
      (cacheSet mem_exec 1000 0 ''k'' (Raw ''x'') (Some 60) demo_pool)) = Ok (RText (Raw ''x''))"
    by code_simp
  ultimately show ?thesis
    using cache_roundtrip [OF mem_exec_laws demo_pool_available, of 60 1000 60999 0 "''k''" "Raw ''x''"
        "RStatus ''OK''" _ 0, OF _ _ _ refl] by simp
qed

text \<open>
  Behind an open circuit the server is left alone: during the cooldown \<open>cacheGet\<close> returns
  null, and none of \<open>cacheGet\<close>, \<open>cacheSet\<close> and \<open>cacheDel\<close> reaches the server.
\<close>

theorem open_circuit_spares_server:
  assumes "state (circuit p) = OPEN" and "now < openedAtMs (circuit p) + cooldownMs (circuit p)"
  shows "fst (cacheGet ex now rnd k p) = None
    \<and> server (snd (cacheGet ex now rnd k p)) = server p
    \<and> server (cacheSet ex now rnd k v n p) = server p
    \<and> server (cacheDel ex now rnd k p) = server p"
proof -
  have "acquire now rnd (circuit p) = (Some CIRCUIT_OPEN, reject (circuit p))"
    using assms by (intro acquire_before_deadline) (auto simp: open_until_def)
  then have "run_command ex now rnd c p = (NotOk CIRCUIT_OPEN, p\<lparr>circuit := reject (circuit p)\<rparr>)" for c
    by (rule_tac exec_cases [of ex now c "server p"]) (simp add: run_command_eq [of ex now c p])
  then show ?thesis
    by (simp add: cacheGet_def cacheSet_def cacheDel_def runCacheCommand_def)
qed

theorem open_circuit_spares_server_witness:
  "fst (cacheGet mem_exec 1001000 0 ''k'' (demo_pool\<lparr>circuit := tripped_breaker\<rparr>)) = None"
  using open_circuit_spares_server [of "demo_pool\<lparr>circuit := tripped_breaker\<rparr>" 1001000 mem_exec 0 "''k''"]
  by (simp add: tripped_breaker_facts)

end
