(* ===== verification/Limit_Stores.thy ===== *)
theory Limit_Stores
  imports Redis_Pool
begin

text \<open>
  The stores behind the request limiters (\<open>middleware/limiter.middleware.ts\<close>) and the limits
  themselves (\<open>config/rateLimit.config.ts\<close>): the fail-closed store, the in-memory store, the
  store that prefers Redis and falls back to memory, and the options of the six limiters. The
  third-party \<open>RedisStore\<close> is a parameter that receives the store's \<open>sendCommand\<close>.

  The counting contract of a fixed-window store is a locale, shared with the local mode of the
  robust limiter.
\<close>

section \<open>Fixed-window counting\<close>

locale fixed_window =
  fixes hit :: "ms \<Rightarrow> string \<Rightarrow> 's \<Rightarrow> (nat \<times> ms) \<times> 's"
    and live :: "ms \<Rightarrow> 's \<Rightarrow> string \<Rightarrow> (nat \<times> ms) option"
    and inside :: "ms \<Rightarrow> ms \<Rightarrow> bool"
    and width :: int
    and inv :: "'s \<Rightarrow> bool"
  assumes inside_mono: "t \<le> t' \<Longrightarrow> inside t' e \<Longrightarrow> inside t e"
    and inv_hit: "inv s \<Longrightarrow> inv (snd (hit now k s))"
    and hit_fresh: "inv s \<Longrightarrow> live now s k = None \<Longrightarrow> fst (hit now k s) = (1, now + width)"
    and hit_again: "inv s \<Longrightarrow> live now s k = Some (n, e) \<Longrightarrow> fst (hit now k s) = (Suc n, e)"
    and live_hit: "inv s \<Longrightarrow> fst (hit now k s) = (n, e) \<Longrightarrow> now \<le> t \<Longrightarrow> inside t e \<Longrightarrow>
        live t (snd (hit now k s)) k = Some (n, e)"
    and live_hit_other: "inv s \<Longrightarrow> k' \<noteq> k \<Longrightarrow> now \<le> t \<Longrightarrow>
        live t (snd (hit now k s)) k' = live t s k'"
    and live_stays: "live t s k = Some (n, e) \<Longrightarrow> t \<le> t' \<Longrightarrow> inside t' e \<Longrightarrow> live t' s k = Some (n, e)"
begin

definition hits :: "'s \<Rightarrow> (ms \<times> string) list \<Rightarrow> 's" where
  "hits s es = run (\<lambda>s (t, k). snd (hit t k s)) s es"

lemma hits_simps [simp]:
  "hits s [] = s" "hits s ((t, k) # es) = hits (snd (hit t k s)) es"
  by (simp_all add: hits_def)

lemma window_keeps_count:
  "inv s \<Longrightarrow> live t s k = Some (n, e) \<Longrightarrow> sorted (t # map fst es @ [t1]) \<Longrightarrow> inside t1 e \<Longrightarrow>
   inv (hits s es) \<and> live t1 (hits s es) k = Some (n + length (filter (\<lambda>x. snd x = k) es), e)"
proof (induction es arbitrary: t s n)
  case (Cons x es)
  obtain t' k' where x: "x = (t', k')" by (cases x)
  from Cons.prems x have w: "t \<le> t'" "sorted (t' # map fst es @ [t1])" "t' \<le> t1" by auto
  have inside: "inside t' e" using inside_mono [OF w(3) Cons.prems(4)] .
  have l: "live t' s k = Some (n, e)" using live_stays [OF Cons.prems(2) w(1) inside] .
  note inv' = inv_hit [OF Cons.prems(1)]
  show ?case
  proof (cases "k' = k")
    case True
    have "fst (hit t' k s) = (Suc n, e)" using hit_again [OF Cons.prems(1) l] .
    then have "live t' (snd (hit t' k s)) k = Some (Suc n, e)"
      using live_hit [OF Cons.prems(1)] inside by simp
    from Cons.IH [OF inv' this w(2) Cons.prems(4)] show ?thesis by (simp add: x True)
  next
    case False
    then have "live t' (snd (hit t' k' s)) k = Some (n, e)" using live_hit_other Cons.prems(1) l by simp
    from Cons.IH [OF inv' this w(2) Cons.prems(4)] show ?thesis using False by (simp add: x)
  qed
qed (auto intro: live_stays)

text \<open>The hit that opens a window, and what every later hit of the window returns.\<close>

lemma nth_hit_of_window:
  assumes "inv s" and "live t0 s k = None" and "sorted (t0 # map fst es @ [t])" and "inside t (t0 + width)"
  shows "inv (hits s ((t0, k) # es))
    \<and> fst (hit t k (hits s ((t0, k) # es))) = (length (filter (\<lambda>x. snd x = k) es) + 2, t0 + width)"
proof -
  have "fst (hit t0 k s) = (1, t0 + width)" using hit_fresh [OF assms(1,2)] .
  moreover have "inside t0 (t0 + width)" using assms(3,4) by (auto intro: inside_mono)
  ultimately have "live t0 (snd (hit t0 k s)) k = Some (1, t0 + width)"
    using live_hit [OF assms(1)] by simp
  from window_keeps_count [OF inv_hit [OF assms(1)] this assms(3,4)]
  have "inv (hits s ((t0, k) # es))"
    and "live t (hits s ((t0, k) # es)) k = Some (1 + length (filter (\<lambda>x. snd x = k) es), t0 + width)"
    by simp_all
  from this(1) hit_again [OF this] show ?thesis by simp
qed

end

section \<open>The stores\<close>

definition WINDOW_MS :: int where "WINDOW_MS = 60000"

text \<open>\<open>FailClosedRateLimitStore\<close>: every request counts as the largest safe integer.\<close>

definition failclosed_increment :: "ms \<Rightarrow> string \<Rightarrow> nat \<times> ms" where
  "failclosed_increment now key = (nat MAX_SAFE_INTEGER, now + 60000)"

text \<open>\<open>InMemoryRateLimitStore\<close>: the map \<open>hits\<close> from keys to count and reset time.\<close>

type_synonym mem_hits = "string \<Rightarrow> (nat \<times> ms) option"

definition mem_increment :: "ms \<Rightarrow> string \<Rightarrow> mem_hits \<Rightarrow> (nat \<times> ms) \<times> mem_hits" where
  "mem_increment now key h = (case h key of
      None \<Rightarrow> ((1, now + 60000), h(key \<mapsto> (1, now + 60000)))
    | Some (n, resetTime) \<Rightarrow>
        (if resetTime \<le> now
         then ((1, now + 60000), h(key \<mapsto> (1, now + 60000)))
         else ((n + 1, resetTime), h(key \<mapsto> (n + 1, resetTime)))))"

definition mem_decrement :: "string \<Rightarrow> mem_hits \<Rightarrow> mem_hits" where
  "mem_decrement key h = h"

definition mem_resetKey :: "string \<Rightarrow> mem_hits \<Rightarrow> mem_hits" where
  "mem_resetKey key h = h(key := None)"

definition mem_hits_live :: "ms \<Rightarrow> mem_hits \<Rightarrow> string \<Rightarrow> (nat \<times> ms) option" where
  "mem_hits_live t h k = (case h k of
      None \<Rightarrow> None
    | Some (c, e) \<Rightarrow> (if t < e then Some (c, e) else None))"

interpretation memstore: fixed_window mem_increment mem_hits_live "\<lambda>t e. t < e" WINDOW_MS "\<lambda>_. True"
  by unfold_locales
    (auto simp: mem_increment_def mem_hits_live_def WINDOW_MS_def split: option.splits if_splits prod.splits)

text \<open>
  \<open>FallbackStore\<close>: its own fields on top of the pool. \<open>RedisStore\<close> gets the closure
  \<open>sendCommand\<close> and the store's state, since a failing command switches the store over.
\<close>

datatype active_store = ActiveRedis | ActiveMemory

record 'r fallback_store = "'r pool" +
  active :: active_store
  memoryStore :: mem_hits

definition switchToMemory :: "('r, 'z) fallback_store_scheme \<Rightarrow> ('r, 'z) fallback_store_scheme" where
  "switchToMemory s = (if active s \<noteq> ActiveMemory then s\<lparr>active := ActiveMemory\<rparr> else s)"

definition sendCommand ::
    "(string list, 'r) exec \<Rightarrow> ms \<Rightarrow> rat \<Rightarrow> string list \<Rightarrow>
     ('r, 'z) fallback_store_scheme \<Rightarrow> reply \<times> ('r, 'z) fallback_store_scheme" where
  "sendCommand ex now rnd args s =
     (case runRateLimitCommand ex now rnd args s of
        (Ok v, s') \<Rightarrow> (v, s')
      | (NotOk out, s') \<Rightarrow> (RText (Raw ''1''), switchToMemory s'))"

record ('r, 'z) redis_store =
  rs_increment :: "(string list \<Rightarrow> ('r, 'z) fallback_store_scheme \<Rightarrow> reply \<times> ('r, 'z) fallback_store_scheme) \<Rightarrow>
      string \<Rightarrow> (('r, 'z) fallback_store_scheme, nat \<times> ms) act"
  rs_decrement :: "(string list \<Rightarrow> ('r, 'z) fallback_store_scheme \<Rightarrow> reply \<times> ('r, 'z) fallback_store_scheme) \<Rightarrow>
      string \<Rightarrow> (('r, 'z) fallback_store_scheme, unit) act"
  rs_resetKey :: "(string list \<Rightarrow> ('r, 'z) fallback_store_scheme \<Rightarrow> reply \<times> ('r, 'z) fallback_store_scheme) \<Rightarrow>
      string \<Rightarrow> (('r, 'z) fallback_store_scheme, unit) act"

definition new_fallback_store :: "'r pool \<Rightarrow> 'r fallback_store" where
  "new_fallback_store p =
     pool.extend p \<lparr>active = if isRedisRateLimitAvailable p then ActiveRedis else ActiveMemory,
                    memoryStore = (\<lambda>_. None)\<rparr>"

definition use_memory_increment ::
    "ms \<Rightarrow> string \<Rightarrow> ('r, 'z) fallback_store_scheme \<Rightarrow> (nat \<times> ms) \<times> ('r, 'z) fallback_store_scheme" where
  "use_memory_increment now key s =
     (case mem_increment now key (memoryStore s) of (r, h) \<Rightarrow> (r, s\<lparr>memoryStore := h\<rparr>))"

definition uses_redis :: "('r, 'z) fallback_store_scheme \<Rightarrow> bool" where
  "uses_redis s \<longleftrightarrow> active s = ActiveRedis \<and> isRedisRateLimitAvailable s"

definition fallback_increment ::
    "('r, 'z) redis_store \<Rightarrow> (string list, 'r) exec \<Rightarrow> ms \<Rightarrow> rat \<Rightarrow> string \<Rightarrow>
     ('r, 'z) fallback_store_scheme \<Rightarrow> (nat \<times> ms) \<times> ('r, 'z) fallback_store_scheme" where
  "fallback_increment rs ex now rnd key s =
     (if uses_redis s
      then (case rs_increment rs (sendCommand ex now rnd) key s of
              (Inr r, s') \<Rightarrow> (r, s')
            | (Inl e, s') \<Rightarrow> use_memory_increment now key (switchToMemory s'))
      else use_memory_increment now key s)"

definition fallback_decrement ::
    "('r, 'z) redis_store \<Rightarrow> (string list, 'r) exec \<Rightarrow> ms \<Rightarrow> rat \<Rightarrow> string \<Rightarrow>
     ('r, 'z) fallback_store_scheme \<Rightarrow> ('r, 'z) fallback_store_scheme" where
  "fallback_decrement rs ex now rnd key s =
     (let s' = (if uses_redis s then snd (rs_decrement rs (sendCommand ex now rnd) key s) else s)
      in s'\<lparr>memoryStore := mem_decrement key (memoryStore s')\<rparr>)"

definition fallback_resetKey ::
    "('r, 'z) redis_store \<Rightarrow> (string list, 'r) exec \<Rightarrow> ms \<Rightarrow> rat \<Rightarrow> string \<Rightarrow>
     ('r, 'z) fallback_store_scheme \<Rightarrow> ('r, 'z) fallback_store_scheme" where
  "fallback_resetKey rs ex now rnd key s =
     (let s' = (if uses_redis s then snd (rs_resetKey rs (sendCommand ex now rnd) key s) else s)
      in s'\<lparr>memoryStore := mem_resetKey key (memoryStore s')\<rparr>)"

datatype 'r store = Fallback "'r fallback_store" | InMemory mem_hits

definition getStore :: "'r pool \<Rightarrow> 'r store" where
  "getStore p =
     (if redis_enabled p \<and> redisRateLimit p then Fallback (new_fallback_store p) else InMemory (\<lambda>_. None))"

text \<open>\<open>assertDistributedRateLimitReady\<close> only logs; the value says whether it does.\<close>

definition assertDistributedRateLimitReady :: "app_config \<Rightarrow> ('r, 'z) pool_scheme \<Rightarrow> bool" where
  "assertDistributedRateLimitReady cfg p \<longleftrightarrow>
     requireDistributed cfg \<and> (\<not> redis_enabled p \<or> \<not> isRedisRateLimitAvailable p)"

section \<open>The limiters\<close>

record login_limits =
  login_windowMs :: int
  allowedAttempts :: nat
  step1 :: int
  step2 :: int
  step3 :: int
  maxDailyLogins :: nat

definition login_config :: login_limits where
  "login_config = \<lparr>login_windowMs = 60 * 60 * 1000, allowedAttempts = 5,
     step1 = 5 * 60 * 1000, step2 = 25 * 60 * 1000, step3 = 125 * 60 * 1000, maxDailyLogins = 100\<rparr>"

definition passwordReset_dailyLimit :: nat where "passwordReset_dailyLimit = 10"
definition passwordReset_windowMs :: int where "passwordReset_windowMs = 12 * 60 * 60 * 1000"
definition passwordReset_limitPerWindow :: nat where "passwordReset_limitPerWindow = 5"
definition emailCheck_windowMs :: int where "emailCheck_windowMs = 60 * 1000"
definition emailCheck_limit :: nat where "emailCheck_limit = 10"
definition session_windowMs :: int where "session_windowMs = 60 * 1000"
definition session_limit :: nat where "session_limit = 30"

definition relaxAuthLimits :: "app_config \<Rightarrow> env \<Rightarrow> bool" where
  "relaxAuthLimits cfg env \<longleftrightarrow> nodeEnv cfg \<noteq> ''production'' \<and> env_flag env ''UAM_RELAX_AUTH_LIMITS''"

record 'r limiter =
  lim_windowMs :: int
  lim_limit :: nat
  lim_store :: "'r store"

definition apiLimiter :: "'r pool \<Rightarrow> 'r limiter" where
  "apiLimiter p = \<lparr>lim_windowMs = 60 * 1000, lim_limit = 1000, lim_store = getStore p\<rparr>"

definition authLimiter :: "bool \<Rightarrow> 'r pool \<Rightarrow> 'r limiter" where
  "authLimiter relax p = \<lparr>lim_windowMs = 60 * 60 * 1000, lim_limit = (if relax then 10000 else 20), lim_store = getStore p\<rparr>"

definition emailCheckLimiter :: "'r pool \<Rightarrow> 'r limiter" where
  "emailCheckLimiter p = \<lparr>lim_windowMs = emailCheck_windowMs, lim_limit = emailCheck_limit, lim_store = getStore p\<rparr>"

definition passwordResetLimiter :: "bool \<Rightarrow> 'r pool \<Rightarrow> 'r limiter" where
  "passwordResetLimiter relax p =
     \<lparr>lim_windowMs = passwordReset_windowMs,
      lim_limit = (if relax then 10000 else passwordReset_limitPerWindow), lim_store = getStore p\<rparr>"

definition sessionLimiter :: "bool \<Rightarrow> 'r pool \<Rightarrow> 'r limiter" where
  "sessionLimiter relax p =
     \<lparr>lim_windowMs = session_windowMs, lim_limit = (if relax then 10000 else session_limit), lim_store = getStore p\<rparr>"

definition migrationLimiter :: "bool \<Rightarrow> 'r pool \<Rightarrow> 'r limiter" where
  "migrationLimiter relax p =
     \<lparr>lim_windowMs = 60 * 60 * 1000, lim_limit = (if relax then 10000 else 15), lim_store = getStore p\<rparr>"

section \<open>Properties\<close>

definition mem_hits_run :: "mem_hits \<Rightarrow> (ms \<times> string) list \<Rightarrow> mem_hits" where
  "mem_hits_run h es = run (\<lambda>h (t, k). snd (mem_increment t k h)) h es"

lemma mem_hits_run_eq: "mem_hits_run h es = memstore.hits h es"
  by (simp add: mem_hits_run_def memstore.hits_def)

text \<open>
  The in-memory store counts exactly, in windows of one minute: after the request that opens
  a client's window, every request of that client in the following minute is given its rank among
  the client's requests, whatever other clients do, and the first request from the end of the
  minute on starts again at one. The window is one minute for every limiter built on the store,
  also for those configured with an hour or twelve.
\<close>

theorem memory_store_counts_per_minute:
  assumes "h k = None" and "sorted (t0 # map fst es @ [t])"
  shows "(t < t0 + 60000 \<longrightarrow>
      fst (mem_increment t k (mem_hits_run h ((t0, k) # es)))
        = (length (filter (\<lambda>x. snd x = k) es) + 2, t0 + 60000))
    \<and> (t0 + 60000 \<le> t \<and> (\<forall>x\<in>set es. fst x < t0 + 60000) \<longrightarrow>
      fst (mem_increment t k (mem_hits_run h ((t0, k) # es))) = (1, t + 60000))
    \<and> lim_windowMs (authLimiter relax p) = 3600000 \<and> lim_windowMs (passwordResetLimiter relax p) = 43200000"
proof -
  have free: "mem_hits_live t0 h k = None" using assms(1) by (simp add: mem_hits_live_def)
  have one: "fst (mem_increment t k (mem_hits_run h ((t0, k) # es)))
      = (length (filter (\<lambda>x. snd x = k) es) + 2, t0 + 60000)" if "t < t0 + 60000"
    using memstore.nth_hit_of_window [OF TrueI free assms(2)] that
    by (simp add: mem_hits_run_eq WINDOW_MS_def del: memstore.hits_simps)
  have two: "fst (mem_increment t k (mem_hits_run h ((t0, k) # es))) = (1, t + 60000)"
    if "t0 + 60000 \<le> t" "\<forall>x\<in>set es. fst x < t0 + 60000"
  proof -
    have sorted: "sorted (t0 # map fst es @ [t0 + 59999])"
      using assms(2) that(2) by (auto simp: sorted_append)
    have "fst (mem_increment (t0 + 59999) k (mem_hits_run h ((t0, k) # es)))
        = (length (filter (\<lambda>x. snd x = k) es) + 2, t0 + 60000)"
      using memstore.nth_hit_of_window [OF TrueI free sorted]
      by (simp add: mem_hits_run_eq WINDOW_MS_def del: memstore.hits_simps)
    then have "mem_hits_run h ((t0, k) # es) k = Some (length (filter (\<lambda>x. snd x = k) es) + 1, t0 + 60000)"
      by (auto simp: mem_increment_def split: option.splits prod.splits if_splits)
    with that(1) show ?thesis by (simp add: mem_increment_def)
  qed
  show ?thesis using one two by (auto simp: authLimiter_def passwordResetLimiter_def passwordReset_windowMs_def)
qed

theorem memory_store_counts_per_minute_witness:
  "fst (mem_increment 1500 ''a'' (mem_hits_run (\<lambda>_. None) [(1000, ''a''), (1200, ''b''), (1300, ''a'')])) = (3, 61000)"
  using memory_store_counts_per_minute [of "\<lambda>_. None" "''a''" 1000 "[(1200, ''b''), (1300, ''a'')]" 1500
      False "new_pool True default_breaker ()"]
  by (simp add: numeral_3_eq_3)

datatype fallback_event =
    FIncrement ms rat string
  | FDecrement ms rat string
  | FResetKey ms rat string
  | FClient redis_role client_event

fun fallback_step ::
    "('r, 'z) redis_store \<Rightarrow> (string list, 'r) exec \<Rightarrow> ('r, 'z) fallback_store_scheme \<Rightarrow> fallback_event \<Rightarrow>
     ('r, 'z) fallback_store_scheme" where
  "fallback_step rs ex s (FIncrement now rnd key) = snd (fallback_increment rs ex now rnd key s)"
| "fallback_step rs ex s (FDecrement now rnd key) = fallback_decrement rs ex now rnd key s"
| "fallback_step rs ex s (FResetKey now rnd key) = fallback_resetKey rs ex now rnd key s"
| "fallback_step rs ex s (FClient role ev) = wireClientEvents role s ev"

definition in_memory :: "breaker \<Rightarrow> 'r \<Rightarrow> ('r, 'z) fallback_store_scheme \<Rightarrow> bool" where
  "in_memory b r s \<longleftrightarrow> active s = ActiveMemory \<and> circuit s = b \<and> server s = r"

lemma set_ready_simps [simp]:
  "circuit (set_ready role x s) = circuit s" "server (set_ready role x s) = server s"
  by (simp_all add: set_ready_def split: redis_role.splits)

lemma active_set_ready [simp]: "active (set_ready role x s) = active s"
  by (simp add: set_ready_def split: redis_role.splits)

interpretation memory_mode: invariant_system "fallback_step rs ex" "in_memory b r" "\<lambda>_. True" for rs ex b r
proof
  fix s :: "('a, 'b) fallback_store_scheme" and e
  assume "in_memory b r s"
  then show "in_memory b r (fallback_step rs ex s e)"
  proof (cases e)
    case (FClient role ev)
    with \<open>in_memory b r s\<close> show ?thesis by (cases ev) (simp_all add: in_memory_def)
  qed (auto simp: in_memory_def fallback_increment_def fallback_decrement_def fallback_resetKey_def
        uses_redis_def use_memory_increment_def Let_def split: prod.splits)
qed

text \<open>
  (C29) The limiters never count in Redis: a store is built when its module is loaded, before any
  client can have become ready, so it starts in memory mode, and memory mode is for ever, whatever
  requests are counted and whatever connection events arrive afterwards. Every increment is the
  in-memory one, and neither the circuit breaker nor the Redis server is ever touched.
\<close>

theorem limiter_store_never_distributed:
  assumes "getStore (new_pool True b r) = Fallback s0" and "s = run (fallback_step rs ex) s0 es"
  shows "active s = ActiveMemory \<and> circuit s = b \<and> server s = r
    \<and> fallback_increment rs ex now rnd key s =
        (fst (mem_increment now key (memoryStore s)),
         s\<lparr>memoryStore := snd (mem_increment now key (memoryStore s))\<rparr>)"
proof -
  have "s0 = new_fallback_store (new_pool True b r)"
    using assms(1) by (simp add: getStore_def new_pool_def createClients_def)
  then have "in_memory b r s0"
    by (simp add: in_memory_def new_fallback_store_def new_pool_def createClients_def
        isRedisRateLimitAvailable_def pool.defs)
  then have "in_memory b r s" unfolding assms(2) by (rule memory_mode.run_inv) (simp add: list_all_iff)
  then show ?thesis
    by (simp add: in_memory_def fallback_increment_def uses_redis_def use_memory_increment_def split: prod.splits)
qed

definition noisy_redis_store :: "(mem, unit) redis_store" where
  "noisy_redis_store = \<lparr>rs_increment = (\<lambda>send key s. (Inr (1, 0), snd (send [''INCR'', key] s))),
     rs_decrement = (\<lambda>send key. ret ()), rs_resetKey = (\<lambda>send key. ret ())\<rparr>"

theorem limiter_store_never_distributed_witness:
  "active (run (fallback_step noisy_redis_store (\<lambda>now c r. ((now, 0, 0, TimerFires), [], r)))
     (new_fallback_store (new_pool True default_breaker (\<lambda>_. None)))
     [FClient RateLimit EvReady, FIncrement 1000 0 ''a'']) = ActiveMemory"
proof -
  have "getStore (new_pool True default_breaker (\<lambda>_. None)) =
      Fallback (new_fallback_store (new_pool True default_breaker (\<lambda>_. None)))"
    by (simp add: getStore_def new_pool_def createClients_def)
  from limiter_store_never_distributed [OF this refl] show ?thesis by blast
qed

end
