(* ===== verification/Robust_Limiter.thy ===== *)
theory Robust_Limiter
  imports Limit_Stores "HOL-Library.AList"
begin

text \<open>
  The robust rate limiter (\<open>robustRateLimiter.ts\<close>): distributed counting in Redis, local
  counting when Redis is down and degradation is allowed, fail-closed otherwise. The Redis client
  is a parameter: how its pings, its \<open>INCR; EXPIREAT; GET\<close> pipeline and its \<open>DEL\<close> settle.
  JavaScript's \<open>Map\<close> is an association list in insertion order.
\<close>

section \<open>Data\<close>

record rl_record =
  rec_count :: nat
  rec_resetAt :: ms
  rec_lastReset :: ms
  rec_maxRequests :: int
  rec_windowMs :: int

record rl_result =
  allowed :: bool
  remaining :: int
  resetAt :: ms

text \<open>A promise settles after a delay in milliseconds, or never.\<close>

type_synonym 'a promise = "(int \<times> (exn + 'a)) option"

type_synonym pipeline_reply = "(exn option \<times> js) list option"

record 'r rl_redis =
  rl_ping :: "ms \<Rightarrow> 'r \<Rightarrow> unit promise \<times> 'r"
  rl_pipeline :: "ms \<Rightarrow> string \<Rightarrow> int \<Rightarrow> ('r, pipeline_reply) act"
  rl_del :: "ms \<Rightarrow> string \<Rightarrow> ('r, unit) act"

record 'r robust =
  windowMs :: int
  maxRequests :: int
  keyPrefix :: string
  localCache :: "(string \<times> rl_record) list"
  fallback :: bool
  initialized :: bool
  allowFallback :: bool
  lastRecoveryProbeMs :: ms
  lastSweepMs :: ms
  client :: 'r

definition localFallbackEnabled :: "env \<Rightarrow> bool" where
  "localFallbackEnabled env =
     (let raw = toLowerCase (trim (case env ''RATE_LIMIT_LOCAL_FALLBACK'' of None \<Rightarrow> ''1'' | Some v \<Rightarrow> v))
      in raw \<noteq> ''0'' \<and> raw \<noteq> ''false'' \<and> raw \<noteq> ''off'')"

definition new_robust :: "env \<Rightarrow> int \<Rightarrow> int \<Rightarrow> string \<Rightarrow> 'r \<Rightarrow> 'r robust" where
  "new_robust env w m pre r =
     \<lparr>windowMs = w, maxRequests = m, keyPrefix = pre, localCache = [], fallback = False,
      initialized = False, allowFallback = localFallbackEnabled env, lastRecoveryProbeMs = 0,
      lastSweepMs = 0, client = r\<rparr>"

definition setRedisClient :: "'r \<Rightarrow> 'r robust \<Rightarrow> 'r robust" where
  "setRedisClient r l = l\<lparr>client := r\<rparr>"

section \<open>Start-up\<close>

definition promiseWithTimeout :: "'a promise \<Rightarrow> int \<Rightarrow> exn + 'a" where
  "promiseWithTimeout p n = (case p of
      None \<Rightarrow> Inl (Error (''Timeout after '' @ show_int n @ ''ms''))
    | Some (d, r) \<Rightarrow> (if d < n then r else Inl (Error (''Timeout after '' @ show_int n @ ''ms''))))"

datatype init_result = InitDone | ExitProcess | InitThrows exn

text \<open>
  The loop of \<open>init\<close>, with the attempts left; the attempts are one after another, so each
  ping has its own instant, and the waits between them have no other effect.
\<close>

fun init_loop :: "'r rl_redis \<Rightarrow> ms list \<Rightarrow> exn \<Rightarrow> 'r robust \<Rightarrow> init_result \<times> 'r robust" where
  "init_loop rd [] lastError l =
     (if \<not> allowFallback l then (ExitProcess, l) else (InitThrows lastError, l\<lparr>fallback := True\<rparr>))"
| "init_loop rd (now # nows) lastError l =
     (let (p, r) = rl_ping rd now (client l); l' = l\<lparr>client := r\<rparr>
      in case promiseWithTimeout p 5000 of
           Inr u \<Rightarrow> (InitDone, l'\<lparr>fallback := False\<rparr>)
         | Inl e \<Rightarrow> init_loop rd nows e l')"

definition init :: "'r rl_redis \<Rightarrow> ms \<times> ms \<times> ms \<times> ms \<times> ms \<Rightarrow> 'r robust \<Rightarrow> init_result \<times> 'r robust" where
  "init rd nows l =
     (if initialized l then (InitDone, l)
      else case nows of (t1, t2, t3, t4, t5) \<Rightarrow>
        init_loop rd [t1, t2, t3, t4, t5] (Error '''') (l\<lparr>initialized := True\<rparr>))"

section \<open>Counting\<close>

definition sweepExpiredWindows :: "ms \<Rightarrow> 'r robust \<Rightarrow> 'r robust" where
  "sweepExpiredWindows now l =
     (if length (localCache l) < 4096 \<or> now - lastSweepMs l < 60000 then l
      else l\<lparr>lastSweepMs := now, localCache := filter (\<lambda>(k, r). \<not> rec_resetAt r < now) (localCache l)\<rparr>)"

definition local_key :: "string \<Rightarrow> string" where
  "local_key clientIdentifier = ''rate_limit:local:'' @ clientIdentifier"

definition or_int :: "int \<Rightarrow> int \<Rightarrow> int" where
  "or_int n d = (if n = 0 then d else n)"

definition fresh_record :: "ms \<Rightarrow> 'r robust \<Rightarrow> rl_record" where
  "fresh_record now l =
     \<lparr>rec_count = 0, rec_resetAt = now + windowMs l, rec_lastReset = now,
      rec_maxRequests = or_int (maxRequests l) 10, rec_windowMs = or_int (windowMs l) 60000\<rparr>"

definition cap :: "int \<Rightarrow> int" where
  "cap n = (if 0 < n then n else 0)"

definition localRateLimit :: "ms \<Rightarrow> string \<Rightarrow> 'r robust \<Rightarrow> rl_result \<times> 'r robust" where
  "localRateLimit now clientIdentifier l0 =
     (let l = sweepExpiredWindows now l0;
          key = local_key clientIdentifier;
          e0 = (case map_of (localCache l) key of Some r \<Rightarrow> r | None \<Rightarrow> fresh_record now l);
          e1 = (if rec_resetAt e0 < now
                then e0\<lparr>rec_count := 0, rec_resetAt := now + windowMs l, rec_lastReset := now\<rparr> else e0);
          e = e1\<lparr>rec_count := rec_count e1 + 1\<rparr>
      in (\<lparr>allowed = int (rec_count e) \<le> maxRequests l,
           remaining = cap (maxRequests l - int (rec_count e)),
           resetAt = rec_resetAt e\<rparr>,
          l\<lparr>localCache := AList.update key e (localCache l)\<rparr>))"

definition degradeToLocal :: "ms \<Rightarrow> string \<Rightarrow> ('r robust, rl_result) act" where
  "degradeToLocal now clientIdentifier l =
     (if \<not> allowFallback l then (Inl RateLimiterUnavailableError, l)
      else case localRateLimit now clientIdentifier (l\<lparr>fallback := True\<rparr>) of (r, l') \<Rightarrow> (Inr r, l'))"

text \<open>\<open>parseInt(String(countStr) || '0', 10)\<close>; \<open>None\<close> is \<open>NaN\<close>.\<close>

fun parse_count :: "js \<Rightarrow> int option" where
  "parse_count (JNum n) = Some n"
| "parse_count (JStr s) = parseInt (or_str (Some s) ''0'')"
| "parse_count v = None"

definition redis_key :: "'r robust \<Rightarrow> string \<Rightarrow> string" where
  "redis_key l clientIdentifier = keyPrefix l @ '':'' @ clientIdentifier"

definition expire_secs :: "ms \<Rightarrow> int \<Rightarrow> int" where
  "expire_secs now w = - ((- (now + w)) div 1000)"

definition distributedRateLimit :: "'r rl_redis \<Rightarrow> ms \<Rightarrow> string \<Rightarrow> ('r robust, rl_result) act" where
  "distributedRateLimit rd now clientIdentifier l =
     (case rl_pipeline rd now (redis_key l clientIdentifier) (expire_secs now (windowMs l)) (client l) of
        (Inl e, r) \<Rightarrow> (Inl e, l\<lparr>client := r\<rparr>)
      | (Inr results, r) \<Rightarrow>
          (let l = l\<lparr>client := r\<rparr>
           in case results of
                None \<Rightarrow> degradeToLocal now clientIdentifier l
              | Some [] \<Rightarrow> degradeToLocal now clientIdentifier l
              | Some ((Some err, v) # rest) \<Rightarrow> degradeToLocal now clientIdentifier l
              | Some ((None, v) # rest) \<Rightarrow>
                  (let currentCount = parse_count v
                   in (Inr \<lparr>allowed = (case currentCount of None \<Rightarrow> False | Some n \<Rightarrow> n \<le> maxRequests l),
                            remaining = (case currentCount of None \<Rightarrow> 0 | Some n \<Rightarrow> cap (maxRequests l - n)),
                            resetAt = (now div windowMs l) * windowMs l + windowMs l\<rparr>,
                       l))))"

definition tryRecoverFromFallback :: "'r rl_redis \<Rightarrow> ms \<Rightarrow> 'r robust \<Rightarrow> 'r robust" where
  "tryRecoverFromFallback rd now l =
     (if now - lastRecoveryProbeMs l < 30000 then l
      else let (p, r) = rl_ping rd now (client l);
               l' = l\<lparr>lastRecoveryProbeMs := now, client := r\<rparr>
           in case promiseWithTimeout p 3000 of Inr u \<Rightarrow> l'\<lparr>fallback := False\<rparr> | Inl e \<Rightarrow> l')"

definition checkLimit :: "'r rl_redis \<Rightarrow> ms \<Rightarrow> string \<Rightarrow> ('r robust, rl_result) act" where
  "checkLimit rd now clientIdentifier l =
     (if fallback l
      then (if \<not> allowFallback l then (Inl RateLimiterUnavailableError, l)
            else let l' = tryRecoverFromFallback rd now l
                 in if fallback l'
                    then (case localRateLimit now clientIdentifier l' of (r, l'') \<Rightarrow> (Inr r, l''))
                    else distributedRateLimit rd now clientIdentifier l')
      else distributedRateLimit rd now clientIdentifier l)"

definition resetLimit :: "'r rl_redis \<Rightarrow> ms \<Rightarrow> string \<Rightarrow> ('r robust, bool) act" where
  "resetLimit rd now clientIdentifier l =
     (if fallback l
      then (Inr True, l\<lparr>localCache := AList.delete (local_key clientIdentifier) (localCache l)\<rparr>)
      else case rl_del rd now (''rate_limit:'' @ clientIdentifier) (client l) of
             (Inr u, r) \<Rightarrow> (Inr True, l\<lparr>client := r\<rparr>)
           | (Inl e, r) \<Rightarrow>
               (let l = l\<lparr>client := r\<rparr>
                in if \<not> allowFallback l then (Inl RateLimiterUnavailableError, l)
                   else (Inr False, l\<lparr>fallback := True,
                          localCache := AList.delete (local_key clientIdentifier) (localCache l)\<rparr>)))"

record limiter_state =
  ls_fallback :: bool
  ls_redisAvailable :: bool
  ls_allowFallback :: bool
  ls_config :: "int \<times> int \<times> string"

definition getState :: "'r robust \<Rightarrow> limiter_state" where
  "getState l = \<lparr>ls_fallback = fallback l, ls_redisAvailable = (\<not> fallback l \<and> initialized l),
     ls_allowFallback = allowFallback l, ls_config = (windowMs l, maxRequests l, keyPrefix l)\<rparr>"

definition robust_authLimiter :: "env \<Rightarrow> 'r \<Rightarrow> 'r robust" where
  "robust_authLimiter env r = new_robust env (60 * 1000) 10 ''rate_limit:auth'' r"

definition robust_apiLimiter :: "env \<Rightarrow> 'r \<Rightarrow> 'r robust" where
  "robust_apiLimiter env r = new_robust env (60 * 1000) 100 ''rate_limit:api'' r"

definition robust_loginLimiter :: "env \<Rightarrow> 'r \<Rightarrow> 'r robust" where
  "robust_loginLimiter env r = new_robust env (60 * 1000) 5 ''rate_limit:login'' r"

section \<open>Local counting\<close>

definition local_hit :: "ms \<Rightarrow> string \<Rightarrow> 'r robust \<Rightarrow> (nat \<times> ms) \<times> 'r robust" where
  "local_hit now c l = (case localRateLimit now c l of (r, l') \<Rightarrow>
     ((case map_of (localCache l') (local_key c) of Some e \<Rightarrow> rec_count e | None \<Rightarrow> 0, resetAt r), l'))"

definition local_live :: "ms \<Rightarrow> 'r robust \<Rightarrow> string \<Rightarrow> (nat \<times> ms) option" where
  "local_live t l c = (case map_of (localCache l) (local_key c) of
      None \<Rightarrow> None
    | Some e \<Rightarrow> (if t \<le> rec_resetAt e then Some (rec_count e, rec_resetAt e) else None))"

definition local_inv :: "int \<Rightarrow> int \<Rightarrow> 'r robust \<Rightarrow> bool" where
  "local_inv w m l \<longleftrightarrow> distinct (map fst (localCache l)) \<and> windowMs l = w \<and> maxRequests l = m"

lemma local_key_inj [simp]: "local_key a = local_key b \<longleftrightarrow> a = b"
  by (simp add: local_key_def)

lemma map_of_filter_distinct:
  "distinct (map fst xs) \<Longrightarrow>
   map_of (filter (\<lambda>(k, v). P v) xs) k = (case map_of xs k of Some v \<Rightarrow> if P v then Some v else None | None \<Rightarrow> None)"
proof (induction xs)
  case (Cons x xs)
  have "map_of (filter (\<lambda>(k, v). P v) xs) (fst x) = None"
    using Cons.prems by (auto simp: map_of_eq_None_iff)
  with Cons show ?case by (cases x) (auto split: option.splits)
qed simp

lemma distinct_filter_fst: "distinct (map fst xs) \<Longrightarrow> distinct (map fst (filter P xs))"
  by (induction xs) auto

lemma sweep_simps [simp]:
  "windowMs (sweepExpiredWindows now l) = windowMs l" "maxRequests (sweepExpiredWindows now l) = maxRequests l"
  by (simp_all add: sweepExpiredWindows_def)

lemma sweep_inv: "local_inv w m l \<Longrightarrow> local_inv w m (sweepExpiredWindows now l)"
  by (simp add: local_inv_def sweepExpiredWindows_def distinct_filter_fst)

lemma sweep_map_of:
  "local_inv w m l \<Longrightarrow> map_of (localCache (sweepExpiredWindows now l)) k =
     (case map_of (localCache l) k of
        Some e \<Rightarrow> if length (localCache l) < 4096 \<or> now - lastSweepMs l < 60000 \<or> now \<le> rec_resetAt e then Some e else None
      | None \<Rightarrow> None)"
  by (auto simp: sweepExpiredWindows_def local_inv_def not_less map_of_filter_distinct [where P = "\<lambda>r. now \<le> rec_resetAt r"]
      split: option.splits)

text \<open>The sweep removes expired windows only, so it is invisible to the counting.\<close>

lemma sweep_live: "local_inv w m l \<Longrightarrow> now \<le> t \<Longrightarrow> local_live t (sweepExpiredWindows now l) c = local_live t l c"
  by (auto simp: local_live_def sweep_map_of split: option.splits)

lemma localRateLimit_cache:
  assumes "localRateLimit now c l = (r, l')"
  obtains e where "map_of (localCache l') = (map_of (localCache (sweepExpiredWindows now l)))(local_key c \<mapsto> e)"
    and "rec_resetAt e = resetAt r" and "allowed r \<longleftrightarrow> int (rec_count e) \<le> maxRequests l"
    and "remaining r = cap (maxRequests l - int (rec_count e))"
    and "(rec_count e, rec_resetAt e) =
      (case local_live now (sweepExpiredWindows now l) c of Some (n, x) \<Rightarrow> (Suc n, x) | None \<Rightarrow> (1, now + windowMs l))"
    and "windowMs l' = windowMs l" and "maxRequests l' = maxRequests l"
    and "distinct (map fst (localCache (sweepExpiredWindows now l))) \<Longrightarrow> distinct (map fst (localCache l'))"
  using assms that
  by (auto simp: localRateLimit_def Let_def update_conv' local_live_def fresh_record_def distinct_update
      split: option.splits if_splits)

lemma local_hit_eq:
  assumes "local_inv w m l"
  shows "fst (local_hit now c l) =
      (case local_live now l c of Some (n, x) \<Rightarrow> (Suc n, x) | None \<Rightarrow> (1, now + w))"
    and "local_inv w m (snd (local_hit now c l))"
    and "now \<le> t \<Longrightarrow> local_live t (snd (local_hit now c l)) c' =
      (if c' = c then (let (n, x) = fst (local_hit now c l) in if t \<le> x then Some (n, x) else None)
       else local_live t l c')"
proof -
  obtain r l' where rl: "localRateLimit now c l = (r, l')" by fastforce
  from assms have w: "windowMs l = w" "maxRequests l = m" by (auto simp: local_inv_def)
  note inv = sweep_inv [OF assms, of now] and live = sweep_live [OF assms, of now]
  from localRateLimit_cache [OF rl] obtain e where e:
    "map_of (localCache l') = (map_of (localCache (sweepExpiredWindows now l)))(local_key c \<mapsto> e)"
    "rec_resetAt e = resetAt r"
    "(rec_count e, rec_resetAt e) =
      (case local_live now (sweepExpiredWindows now l) c of Some (n, x) \<Rightarrow> (Suc n, x) | None \<Rightarrow> (1, now + windowMs l))"
    "windowMs l' = windowMs l" "maxRequests l' = maxRequests l"
    "distinct (map fst (localCache (sweepExpiredWindows now l))) \<Longrightarrow> distinct (map fst (localCache l'))"
    by metis
  have hit: "local_hit now c l = ((rec_count e, rec_resetAt e), l')"
    by (simp add: local_hit_def rl e(1,2))
  show "fst (local_hit now c l) =
      (case local_live now l c of Some (n, x) \<Rightarrow> (Suc n, x) | None \<Rightarrow> (1, now + w))"
    using e(3) live [of now c] unfolding w by (simp add: hit)
  show "local_inv w m (snd (local_hit now c l))"
    using inv e(4-6) w by (simp add: hit local_inv_def)
  show "now \<le> t \<Longrightarrow> local_live t (snd (local_hit now c l)) c' =
      (if c' = c then (let (n, x) = fst (local_hit now c l) in if t \<le> x then Some (n, x) else None)
       else local_live t l c')"
    using live [of t c'] by (simp add: hit local_live_def e(1))
qed

interpretation locally: fixed_window local_hit local_live "\<lambda>t e. t \<le> e" w "local_inv w m" for w m
proof
  fix s :: "'a robust" and now t t' :: ms and k k' n e
  show "t \<le> t' \<Longrightarrow> t' \<le> e \<Longrightarrow> t \<le> e" for e :: ms by simp
  show "local_inv w m s \<Longrightarrow> local_inv w m (snd (local_hit now k s))" by (rule local_hit_eq(2))
  show "local_inv w m s \<Longrightarrow> local_live now s k = None \<Longrightarrow> fst (local_hit now k s) = (1, now + w)"
    by (simp add: local_hit_eq(1))
  show "local_inv w m s \<Longrightarrow> local_live now s k = Some (n, e) \<Longrightarrow> fst (local_hit now k s) = (Suc n, e)"
    by (simp add: local_hit_eq(1))
  show "local_inv w m s \<Longrightarrow> fst (local_hit now k s) = (n, e) \<Longrightarrow> now \<le> t \<Longrightarrow> t \<le> e \<Longrightarrow>
      local_live t (snd (local_hit now k s)) k = Some (n, e)"
    by (simp add: local_hit_eq(3) [of w m])
  show "local_inv w m s \<Longrightarrow> k' \<noteq> k \<Longrightarrow> now \<le> t \<Longrightarrow> local_live t (snd (local_hit now k s)) k' = local_live t s k'"
    by (simp add: local_hit_eq(3) [of w m])
  show "local_live t s k = Some (n, e) \<Longrightarrow> t \<le> t' \<Longrightarrow> t' \<le> e \<Longrightarrow> local_live t' s k = Some (n, e)"
    by (auto simp: local_live_def split: option.splits if_splits)
qed

lemma local_hit_result:
  "allowed (fst (localRateLimit now c l)) \<longleftrightarrow> int (fst (fst (local_hit now c l))) \<le> maxRequests l"
  "resetAt (fst (localRateLimit now c l)) = snd (fst (local_hit now c l))"
  "snd (local_hit now c l) = snd (localRateLimit now c l)"
proof -
  obtain r l' where rl: "localRateLimit now c l = (r, l')" by fastforce
  show "allowed (fst (localRateLimit now c l)) \<longleftrightarrow> int (fst (fst (local_hit now c l))) \<le> maxRequests l"
  proof (rule localRateLimit_cache [OF rl])
    fix e
    assume "map_of (localCache l') = (map_of (localCache (sweepExpiredWindows now l)))(local_key c \<mapsto> e)"
      and "allowed r \<longleftrightarrow> int (rec_count e) \<le> maxRequests l"
    then show ?thesis by (simp add: local_hit_def rl)
  qed
  show "resetAt (fst (localRateLimit now c l)) = snd (fst (local_hit now c l))"
    "snd (local_hit now c l) = snd (localRateLimit now c l)"
    by (simp_all add: local_hit_def rl)
qed

section \<open>The behaviour of the Redis client\<close>

text \<open>
  A Redis that answers: the pipeline counts the key's live value up, sets its expiry and reports
  the new count first; \<open>DEL\<close> removes the key. \<open>cnt r t k\<close> is the live value, zero for an
  absent or expired key.
\<close>

definition counter_laws :: "'r rl_redis \<Rightarrow> ('r \<Rightarrow> ms \<Rightarrow> string \<Rightarrow> nat) \<Rightarrow> bool" where
  "counter_laws rd cnt \<longleftrightarrow>
     (\<forall>now key secs r. \<exists>rest r'.
        rl_pipeline rd now key secs r = (Inr (Some ((None, JNum (int (cnt r now key) + 1)) # rest)), r')
        \<and> (\<forall>t\<ge>now. \<forall>k. cnt r' t k =
             (if k = key then (if t < 1000 * secs then cnt r now key + 1 else 0) else cnt r t k)))
     \<and> (\<forall>now key r. \<exists>r'. rl_del rd now key r = (Inr (), r')
        \<and> (\<forall>t\<ge>now. \<forall>k. cnt r' t k = (if k = key then 0 else cnt r t k)))"

type_synonym counters = "string \<Rightarrow> (nat \<times> ms) option"

definition counters_live :: "counters \<Rightarrow> ms \<Rightarrow> string \<Rightarrow> nat" where
  "counters_live r t k = (case r k of Some (n, e) \<Rightarrow> (if t < e then n else 0) | None \<Rightarrow> 0)"

definition mem_rl :: "counters rl_redis" where
  "mem_rl = \<lparr>rl_ping = (\<lambda>now r. (Some (1, Inr ()), r)),
     rl_pipeline = (\<lambda>now key secs r.
       (Inr (Some [(None, JNum (int (counters_live r now key) + 1)), (None, JNum 1),
                   (None, JNum (int (counters_live r now key) + 1))]),
        r(key \<mapsto> (counters_live r now key + 1, 1000 * secs)))),
     rl_del = (\<lambda>now key r. (Inr (), r(key := None)))\<rparr>"

lemma mem_rl_laws: "counter_laws mem_rl counters_live"
  by (simp add: counter_laws_def mem_rl_def counters_live_def)

lemma expire_secs_covers: "now + w \<le> 1000 * expire_secs now w"
  unfolding expire_secs_def by linarith

lemma checkLimit_counts:
  assumes "counter_laws rd cnt" and "\<not> fallback l" and "n = cnt (client l) now (redis_key l c)"
  obtains r' where
    "checkLimit rd now c l =
       (Inr \<lparr>allowed = (int n + 1 \<le> maxRequests l), remaining = cap (maxRequests l - (int n + 1)),
             resetAt = (now div windowMs l) * windowMs l + windowMs l\<rparr>, l\<lparr>client := r'\<rparr>)"
    and "\<And>t k. now \<le> t \<Longrightarrow> k \<noteq> redis_key l c \<Longrightarrow> cnt r' t k = cnt (client l) t k"
    and "\<And>t. now \<le> t \<Longrightarrow> t - now < windowMs l \<Longrightarrow> cnt r' t (redis_key l c) = n + 1"
proof -
  from assms(1) obtain rest r' where r:
    "rl_pipeline rd now (redis_key l c) (expire_secs now (windowMs l)) (client l) =
       (Inr (Some ((None, JNum (int n + 1)) # rest)), r')"
    "\<And>t k. now \<le> t \<Longrightarrow> cnt r' t k = (if k = redis_key l c
       then (if t < 1000 * expire_secs now (windowMs l) then n + 1 else 0) else cnt (client l) t k)"
    using assms(1) [unfolded counter_laws_def, THEN conjunct1, rule_format,
      of now "redis_key l c" "expire_secs now (windowMs l)" "client l"] unfolding assms(3) by blast
  show thesis
  proof (rule that [of r'])
    show "checkLimit rd now c l =
       (Inr \<lparr>allowed = (int n + 1 \<le> maxRequests l), remaining = cap (maxRequests l - (int n + 1)),
             resetAt = (now div windowMs l) * windowMs l + windowMs l\<rparr>, l\<lparr>client := r'\<rparr>)"
      using assms(2) r(1) by (simp add: checkLimit_def distributedRateLimit_def)
    show "cnt r' t k = cnt (client l) t k" if "now \<le> t" "k \<noteq> redis_key l c" for t k
      using that r(2) by simp
    show "cnt r' t (redis_key l c) = n + 1" if "now \<le> t" "t - now < windowMs l" for t
      using that r(2) expire_secs_covers [of now "windowMs l"] by simp
  qed
qed

section \<open>Properties\<close>

definition local_run :: "'r robust \<Rightarrow> (ms \<times> string) list \<Rightarrow> 'r robust" where
  "local_run l es = run (\<lambda>l (t, c). snd (localRateLimit t c l)) l es"

lemma local_run_eq: "local_run l es = locally.hits l es"
  by (simp add: local_run_def locally.hits_def local_hit_result)



datatype robust_event = RCheck ms string | RReset ms string

fun robust_step :: "'r rl_redis \<Rightarrow> 'r robust \<Rightarrow> robust_event \<Rightarrow> 'r robust" where
  "robust_step rd l (RCheck now c) = snd (checkLimit rd now c l)"
| "robust_step rd l (RReset now c) = snd (resetLimit rd now c l)"

definition strict :: "(string \<times> rl_record) list \<Rightarrow> 'r robust \<Rightarrow> bool" where
  "strict cache l \<longleftrightarrow> \<not> allowFallback l \<and> \<not> fallback l \<and> localCache l = cache"

lemma distributed_strict:
  "strict cache l \<Longrightarrow> strict cache (snd (distributedRateLimit rd now c l))"
  by (auto simp: strict_def distributedRateLimit_def degradeToLocal_def Let_def
      split: prod.splits sum.splits option.splits list.splits)

interpretation strict_mode: invariant_system "robust_step rd" "strict cache" "\<lambda>_. True" for rd cache
proof
  fix l :: "'a robust" and e
  assume l: "strict cache l"
  then have "\<not> fallback l" by (simp add: strict_def)
  then have "strict cache (snd (checkLimit rd now c l))" for now c
    using distributed_strict [OF l] by (simp add: checkLimit_def)
  moreover have "strict cache (snd (resetLimit rd now c l))" for now c
    using l by (auto simp: resetLimit_def strict_def Let_def split: prod.splits sum.splits)
  ultimately show "strict cache (robust_step rd l e)" by (cases e) simp_all
qed

text \<open>
  (C26) Strict mode never degrades: with local fallback disabled, whatever sequence of checks and
  resets runs and however Redis fails, the limiter never switches to local counting and never
  touches the local cache; each check either throws or returns the verdict of the count Redis
  reported, and a pipeline that reports an error or no result throws
  \<open>RateLimiterUnavailableError\<close>.
\<close>

theorem strict_mode_never_degrades:
  assumes "\<not> allowFallback l0" and "\<not> fallback l0" and "l = run (robust_step rd) l0 es"
  shows "\<not> fallback l \<and> localCache l = localCache l0
    \<and> (case rl_pipeline rd now (redis_key l c) (expire_secs now (windowMs l)) (client l) of
         (Inl e, r) \<Rightarrow> fst (checkLimit rd now c l) = Inl e
       | (Inr (Some ((None, v) # rest)), r) \<Rightarrow>
           (\<exists>res. fst (checkLimit rd now c l) = Inr res \<and>
              (allowed res \<longleftrightarrow> (\<exists>n. parse_count v = Some n \<and> n \<le> maxRequests l)))
       | _ \<Rightarrow> fst (checkLimit rd now c l) = Inl RateLimiterUnavailableError)"
proof -
  have "strict (localCache l0) l"
    unfolding assms(3) using assms(1,2) by (intro strict_mode.run_inv) (simp_all add: strict_def list_all_iff)
  then have l: "\<not> fallback l" "\<not> allowFallback l" "localCache l = localCache l0" by (auto simp: strict_def)
  obtain x r where "rl_pipeline rd now (redis_key l c) (expire_secs now (windowMs l)) (client l) = (x, r)"
    by fastforce
  with l show ?thesis
    by (cases x) (auto simp: checkLimit_def distributedRateLimit_def degradeToLocal_def Let_def
        split: option.splits list.splits)
qed

definition strict_limiter :: "counters robust" where
  "strict_limiter = robust_loginLimiter [''RATE_LIMIT_LOCAL_FALLBACK'' \<mapsto> ''0''] (\<lambda>_. None)"

theorem strict_mode_never_degrades_witness:
  "\<not> fallback (run (robust_step (mem_rl\<lparr>rl_pipeline := \<lambda>now key secs r. (Inr None, r)\<rparr>)) strict_limiter
     [RCheck 1000 ''a'', RReset 2000 ''a'', RCheck 3000 ''a''])"
proof -
  have "\<not> allowFallback strict_limiter" "\<not> fallback strict_limiter" by code_simp+
  from strict_mode_never_degrades [OF this refl] show ?thesis by blast
qed

text \<open>Requests that follow one another by less than \<open>w\<close> milliseconds.\<close>

fun steady :: "int \<Rightarrow> ms list \<Rightarrow> bool" where
  "steady w (t # t' # ts) = (t \<le> t' \<and> t' - t < w \<and> steady w (t' # ts))"
| "steady w ts = True"

lemma steady_counts:
  assumes "counter_laws rd cnt"
  shows "\<not> fallback l \<Longrightarrow> steady (windowMs l) (t0 # ts @ [t]) \<Longrightarrow>
    l' = run (\<lambda>l t. snd (checkLimit rd t c l)) l (t0 # ts) \<Longrightarrow>
    \<exists>r. l' = l\<lparr>client := r\<rparr> \<and> cnt r t (redis_key l c) = cnt (client l) t0 (redis_key l c) + length ts + 1"
proof (induction ts arbitrary: l t0)
  case Nil
  obtain r' where r: "snd (checkLimit rd t0 c l) = l\<lparr>client := r'\<rparr>"
    "\<And>t. t0 \<le> t \<Longrightarrow> t - t0 < windowMs l \<Longrightarrow>
       cnt r' t (redis_key l c) = cnt (client l) t0 (redis_key l c) + 1"
    by (rule checkLimit_counts [OF assms Nil.prems(1) refl, of t0 c]) auto
  with Nil.prems show ?case by (intro exI [of _ r']) simp
next
  case (Cons t1 ts)
  obtain r' where r: "snd (checkLimit rd t0 c l) = l\<lparr>client := r'\<rparr>"
    "\<And>t. t0 \<le> t \<Longrightarrow> t - t0 < windowMs l \<Longrightarrow>
       cnt r' t (redis_key l c) = cnt (client l) t0 (redis_key l c) + 1"
    by (rule checkLimit_counts [OF assms Cons.prems(1) refl, of t0 c]) auto
  let ?l = "l\<lparr>client := r'\<rparr>"
  have "\<not> fallback ?l" "steady (windowMs ?l) (t1 # ts @ [t])"
    "l' = run (\<lambda>l t. snd (checkLimit rd t c l)) ?l (t1 # ts)"
    using Cons.prems r(1) by simp_all
  from Cons.IH [OF this] obtain r2 where
    "l' = ?l\<lparr>client := r2\<rparr>" "cnt r2 t (redis_key ?l c) = cnt r' t1 (redis_key ?l c) + length ts + 1"
    by auto
  moreover have "redis_key ?l c = redis_key l c" by (simp add: redis_key_def)
  moreover have "cnt r' t1 (redis_key l c) = cnt (client l) t0 (redis_key l c) + 1"
    using r(2) Cons.prems(2) by simp
  ultimately show ?case by (intro exI [of _ r2]) simp
qed

text \<open>
  The distributed window never closes under steady traffic: every request renews the key's
  expiry, so as long as a client's requests follow one another by less than \<open>windowMs\<close> the
  count only grows. Each request is judged by the number of all requests since the client was
  last silent for a whole window, although the reported \<open>resetAt\<close> is the end of the current
  fixed window.
\<close>

theorem distributed_window_slides:
  assumes "counter_laws rd cnt" and "\<not> fallback l" and "steady (windowMs l) (t0 # ts @ [t])"
    and "cnt (client l) t0 (redis_key l c) = 0"
    and "l' = run (\<lambda>l t. snd (checkLimit rd t c l)) l (t0 # ts)"
  shows "fst (checkLimit rd t c l') =
    Inr \<lparr>allowed = (int (length ts) + 2 \<le> maxRequests l),
         remaining = cap (maxRequests l - (int (length ts) + 2)),
         resetAt = (t div windowMs l) * windowMs l + windowMs l\<rparr>"
proof -
  obtain r where r: "l' = l\<lparr>client := r\<rparr>" "cnt r t (redis_key l c) = length ts + 1"
    using steady_counts [OF assms(1-3,5)] assms(4) by auto
  have "redis_key l' c = redis_key l c" by (simp add: r redis_key_def)
  then have n: "cnt (client l') t (redis_key l' c) = length ts + 1" using r by simp
  have "\<not> fallback l'" using assms(2) r(1) by simp
  show ?thesis
    by (rule checkLimit_counts [OF assms(1) \<open>\<not> fallback l'\<close> n [symmetric]])
      (simp add: r(1) algebra_simps)
qed

theorem distributed_window_slides_witness:
  "map_sum (\<lambda>_. ()) allowed (fst (checkLimit mem_rl 354000 ''a'' (run (\<lambda>l t. snd (checkLimit mem_rl t ''a'' l)) strict_limiter
     [59000, 118000, 177000, 236000, 295000]))) = Inr False"
proof -
  have "\<not> fallback strict_limiter" "steady (windowMs strict_limiter) (59000 # [118000, 177000, 236000, 295000] @ [354000])"
    "counters_live (client strict_limiter) 59000 (redis_key strict_limiter ''a'') = 0"
    "\<not> int (length [118000 :: ms, 177000, 236000, 295000]) + 2 \<le> maxRequests strict_limiter"
    by code_simp+
  from distributed_window_slides [OF mem_rl_laws this(1-3) refl] this(4) show ?thesis by simp
qed

text \<open>
  (C27) \<open>resetLimit\<close> does not reset the distributed count: it answers true after deleting
  \<open>rate_limit:<client>\<close>, while the pre-configured limiters count under
  \<open>rate_limit:auth:<client>\<close>, \<open>rate_limit:api:<client>\<close> and \<open>rate_limit:login:<client>\<close>,
  so the next check is judged exactly as if no reset had happened.
\<close>

theorem resetLimit_keeps_count:
  assumes "counter_laws rd cnt" and "\<not> fallback l" and "now \<le> t"
    and "keyPrefix l \<in> {''rate_limit:auth'', ''rate_limit:api'', ''rate_limit:login''}"
  shows "fst (resetLimit rd now c l) = Inr True
    \<and> fst (checkLimit rd t c (snd (resetLimit rd now c l))) = fst (checkLimit rd t c l)"
proof -
  obtain r' where r: "rl_del rd now (''rate_limit:'' @ c) (client l) = (Inr (), r')"
    "\<And>t k. now \<le> t \<Longrightarrow> cnt r' t k = (if k = ''rate_limit:'' @ c then 0 else cnt (client l) t k)"
    using assms(1) [unfolded counter_laws_def, THEN conjunct2, rule_format, of now "''rate_limit:'' @ c" "client l"]
    by blast
  let ?l = "l\<lparr>client := r'\<rparr>"
  have reset: "resetLimit rd now c l = (Inr True, ?l)"
    using assms(2) r(1) by (simp add: resetLimit_def)
  have "length (redis_key l c) \<noteq> length (''rate_limit:'' @ c)"
    using assms(4) by (auto simp: redis_key_def)
  then have "redis_key l c \<noteq> ''rate_limit:'' @ c" by metis
  then have "cnt (client ?l) t (redis_key ?l c) = cnt (client l) t (redis_key l c)"
    using r(2) assms(3) by (simp add: redis_key_def)
  from checkLimit_counts [OF assms(1), of ?l, OF _ this [symmetric]] checkLimit_counts [OF assms(1,2) refl, of t c]
  have "fst (checkLimit rd t c ?l) = fst (checkLimit rd t c l)"
    using assms(2) by (metis (no_types, lifting) fst_conv robust.select_convs robust.surjective robust.update_convs(10))
  with reset show ?thesis by simp
qed

theorem resetLimit_keeps_count_witness:
  "fst (checkLimit mem_rl 5000 ''a'' (snd (resetLimit mem_rl 4000 ''a'' (snd (checkLimit mem_rl 3000 ''a'' strict_limiter)))))
   = fst (checkLimit mem_rl 5000 ''a'' (snd (checkLimit mem_rl 3000 ''a'' strict_limiter)))"
proof -
  have "\<not> fallback (snd (checkLimit mem_rl 3000 ''a'' strict_limiter))"
    "keyPrefix (snd (checkLimit mem_rl 3000 ''a'' strict_limiter)) \<in> {''rate_limit:auth'', ''rate_limit:api'', ''rate_limit:login''}"
    by code_simp+
  from resetLimit_keeps_count [OF mem_rl_laws this(1) _ this(2), of 4000 5000] show ?thesis by simp
qed

end
