(* ===== verification/Login_Limiter.thy ===== *)
theory Login_Limiter
  imports Limit_Stores
begin

text \<open>
  The login limiter with exponential backoff (\<open>middleware/advancedLimiter.ts\<close>): the check before
  a login, the count of a failed login, the reset after a successful one, and the periodic clean-up
  of the in-memory store. Redis is reached through the cache pool; the record kept there is the
  JSON text of \<open>{count, blockUntil}\<close>. Client addresses and emails are strings.
\<close>

record login_entry =
  le_count :: int
  le_resetTime :: ms
  le_blockUntil :: ms

record 'r login_world = "'r pool" +
  loginStore :: "string \<Rightarrow> login_entry option"

definition LOGIN_PREFIX :: string where "LOGIN_PREFIX = ''login_attempt:''"

definition cleanup_login :: "ms \<Rightarrow> ('r, 'z) login_world_scheme \<Rightarrow> ('r, 'z) login_world_scheme" where
  "cleanup_login now w = w\<lparr>loginStore := (\<lambda>k. case loginStore w k of
      None \<Rightarrow> None
    | Some e \<Rightarrow> (if le_blockUntil e \<noteq> 0 \<and> le_blockUntil e < now then None else Some e))\<rparr>"

record login_request =
  realIp :: "string option"
  ip :: string
  req_email :: "string option"

datatype limiter_reply =
    Reject503
  | Reject429 int int
  | Next string int

definition login_key :: "string \<Rightarrow> string option \<Rightarrow> string" where
  "login_key addr email = LOGIN_PREFIX @ addr @ ''_'' @ or_str email ''unknown''"

text \<open>\<open>Math.ceil((blockUntil - now) / 60000)\<close>.\<close>

definition ceil_minutes :: "int \<Rightarrow> int" where
  "ceil_minutes d = - ((- d) div 60000)"

definition decide :: "ms \<Rightarrow> string \<Rightarrow> int \<Rightarrow> ms \<Rightarrow> limiter_reply" where
  "decide now key count0 blockUntil =
     (if blockUntil \<noteq> 0 \<and> now < blockUntil
      then Reject429 (ceil_minutes (blockUntil - now)) (blockUntil - now)
      else Next key count0)"

text \<open>
  The properties of a parsed record: absent or non-numeric ones are not truthy numbers.
\<close>

fun js_num :: "js \<Rightarrow> int" where
  "js_num (JNum n) = n"
| "js_num v = 0"

text \<open>
  The check. Inside the \<open>try\<close>, only \<open>JSON.parse\<close> of the stored text, or reading a property
  of a parsed \<open>null\<close>, can throw.
\<close>

definition login_catch ::
    "bool \<Rightarrow> ms \<Rightarrow> login_request \<Rightarrow> ('r, 'z) login_world_scheme \<Rightarrow> limiter_reply" where
  "login_catch required now req w =
     (if required then Reject503
      else let fallbackKey = login_key (ip req) (req_email req)
           in case loginStore w fallbackKey of
                None \<Rightarrow> decide now fallbackKey 0 0
              | Some e \<Rightarrow> decide now fallbackKey (le_count e) (le_blockUntil e))"

definition advancedLoginLimiter ::
    "bool \<Rightarrow> 'r redis_exec \<Rightarrow> ms \<Rightarrow> rat \<Rightarrow> login_request \<Rightarrow>
     ('r, 'z) login_world_scheme \<Rightarrow> limiter_reply \<times> ('r, 'z) login_world_scheme" where
  "advancedLoginLimiter required ex now rnd req w =
     (let key = login_key (or_str (realIp req) (ip req)) (req_email req)
      in if isRedisAvailable w
         then (case runCacheCommand ex now rnd (GET key) w of
                 (Ok v, w') \<Rightarrow>
                   (case reply_text v of
                      None \<Rightarrow> (decide now key 0 0, w')
                    | Some t \<Rightarrow>
                        (if \<not> text_nonempty t then (decide now key 0 0, w')
                         else case JSON_parse t of
                                None \<Rightarrow> (login_catch required now req w', w')
                              | Some r \<Rightarrow>
                                  (if nullish r then (login_catch required now req w', w')
                                   else (decide now key (js_num (js_get r ''count''))
                                           (js_num (js_get r ''blockUntil'')), w'))))
               | (NotOk out, w') \<Rightarrow>
                   (if required then (Reject503, w') else (decide now key 0 0, w')))
         else if required then (Reject503, w)
         else (case loginStore w key of
                 None \<Rightarrow> (decide now key 0 0, w)
               | Some e \<Rightarrow> (decide now key (le_count e) (le_blockUntil e), w)))"

text \<open>The block that the \<open>n\<close>-th failure brings, as an instant; zero for none.\<close>

definition block_until :: "ms \<Rightarrow> int \<Rightarrow> ms" where
  "block_until now n =
     (if int (allowedAttempts login_config) < n
      then (if n = int (allowedAttempts login_config) + 1 then now + step1 login_config
            else if n = int (allowedAttempts login_config) + 2 then now + step2 login_config
            else now + step3 login_config)
      else 0)"

definition login_record :: "int \<Rightarrow> ms \<Rightarrow> rtext" where
  "login_record n b = Json (JObj [(''count'', JNum n), (''blockUntil'', JNum b)])"

definition login_ttl :: int where
  "login_ttl = - ((- step3 login_config) div 1000) + 600"

definition handleLoginFailure ::
    "bool \<Rightarrow> 'r redis_exec \<Rightarrow> ms \<Rightarrow> rat \<Rightarrow> string option \<Rightarrow> int \<Rightarrow>
     ('r, 'z) login_world_scheme \<Rightarrow> ms option \<times> ('r, 'z) login_world_scheme" where
  "handleLoginFailure required ex now rnd rateLimitKey currentAttempts w =
     (case or_undef rateLimitKey of
        None \<Rightarrow> (None, w)
      | Some key \<Rightarrow>
          (let n = currentAttempts + 1;
               blockUntil = block_until now n;
               answer = (if 0 < blockUntil then Some blockUntil else None);
               remember = (\<lambda>w. w\<lparr>loginStore := (loginStore w)(key \<mapsto>
                   \<lparr>le_count = n, le_resetTime = 0, le_blockUntil = blockUntil\<rparr>)\<rparr>)
           in if isRedisAvailable w
              then (case runCacheCommand ex now rnd (SETEX key login_ttl (login_record n blockUntil)) w of
                      (Ok v, w') \<Rightarrow> (answer, w')
                    | (NotOk out, w') \<Rightarrow> (if required then (None, w') else (answer, remember w')))
              else if required then (None, w)
              else (answer, remember w)))"

definition resetLoginAttempts ::
    "bool \<Rightarrow> 'r redis_exec \<Rightarrow> ms \<Rightarrow> rat \<Rightarrow> string option \<Rightarrow>
     ('r, 'z) login_world_scheme \<Rightarrow> ('r, 'z) login_world_scheme" where
  "resetLoginAttempts required ex now rnd rateLimitKey w =
     (case or_undef rateLimitKey of
        None \<Rightarrow> w
      | Some key \<Rightarrow>
          (let forget = (\<lambda>w. w\<lparr>loginStore := (loginStore w)(key := None)\<rparr>)
           in if isRedisAvailable w
              then (case runCacheCommand ex now rnd (DEL key) w of
                      (Ok v, w') \<Rightarrow> w'
                    | (NotOk out, w') \<Rightarrow> (if required then w' else forget w'))
              else forget w))"

section \<open>Properties\<close>

lemma login_ttl_value: "login_ttl = 8100" "1000 * login_ttl = 8100000"
  by (simp_all add: login_ttl_def login_config_def)

lemma login_key_nonempty [simp]: "login_key a e \<noteq> []"
  by (simp add: login_key_def LOGIN_PREFIX_def)

lemma decide_Next: "decide now key n b = Next k m \<longleftrightarrow> k = key \<and> m = n \<and> (b = 0 \<or> b \<le> now)"
  by (auto simp: decide_def)

text \<open>
  (C28) The limiter fails closed: when distributed limits are required, a login attempt is let
  through only if Redis is available and answered the lookup through the circuit breaker, and then
  only if the record it holds is absent or unblocked; every other case is a 503 or a 429.
\<close>

theorem login_limiter_fails_closed:
  assumes "fst (advancedLoginLimiter True ex now rnd req w) = Next k n"
    and "key = login_key (or_str (realIp req) (ip req)) (req_email req)"
  shows "isRedisAvailable w \<and> k = key
    \<and> (\<exists>v. fst (runCacheCommand ex now rnd (GET key) w) = Ok v
         \<and> (case reply_text v of
              None \<Rightarrow> n = 0
            | Some t \<Rightarrow> (t = Raw [] \<and> n = 0) \<or>
                (\<exists>r. JSON_parse t = Some r \<and> n = js_num (js_get r ''count'')
                   \<and> js_num (js_get r ''blockUntil'') \<le> max 0 now)))"
  using assms
  by (auto simp: advancedLoginLimiter_def Let_def login_catch_def decide_Next
      split: if_splits prod.splits cb_result.splits option.splits elim!: text_nonempty.elims)

definition demo_login :: "mem login_world" where
  "demo_login = pool.extend demo_pool \<lparr>loginStore = (\<lambda>_. None)\<rparr>"

definition demo_request :: login_request where
  "demo_request = \<lparr>realIp = None, ip = ''10.0.0.1'', req_email = Some ''a@b.c''\<rparr>"

theorem login_limiter_fails_closed_witness:
  "isRedisAvailable demo_login"
proof -
  have "fst (advancedLoginLimiter True mem_exec 1000 0 demo_request demo_login)
      = Next ''login_attempt:10.0.0.1_a@b.c'' 0" by code_simp
  from login_limiter_fails_closed [OF this refl] show ?thesis by simp
qed

text \<open>
  Backoff schedule in memory: when Redis is unavailable and not required, a failed login
  that the limiter let through with \<open>n\<close> earlier failures is counted, and the client is then
  locked out exactly for the scheduled time: not at all up to the fifth failure, five minutes
  after the sixth, twenty-five after the seventh, a hundred and twenty-five from the eighth on;
  other clients are not affected.
\<close>

theorem login_backoff_schedule:
  assumes "\<not> isRedisAvailable w" and "0 \<le> now" and "now \<le> t"
    and "fst (advancedLoginLimiter False ex now rnd req w) = Next key n"
    and "w' = snd (handleLoginFailure False ex now rnd (Some key) n w)"
    and "lock = (if n + 1 \<le> 5 then 0 else if n + 1 = 6 then 300000 else if n + 1 = 7 then 1500000 else 7500000)"
  shows "fst (advancedLoginLimiter False ex t rnd req w') =
      (if t < now + lock then Reject429 (ceil_minutes (now + lock - t)) (now + lock - t) else Next key (n + 1))
    \<and> (login_key (or_str (realIp req') (ip req')) (req_email req') \<noteq> key \<longrightarrow>
        fst (advancedLoginLimiter False ex t rnd req' w') = fst (advancedLoginLimiter False ex t rnd req' w))"
proof -
  have key: "key = login_key (or_str (realIp req) (ip req)) (req_email req)"
    using assms(1,4) by (auto simp: advancedLoginLimiter_def Let_def decide_Next split: option.splits)
  have w': "w' = w\<lparr>loginStore := (loginStore w)(key \<mapsto>
      \<lparr>le_count = n + 1, le_resetTime = 0, le_blockUntil = block_until now (n + 1)\<rparr>)\<rparr>"
    using assms(1,5) key by (simp add: handleLoginFailure_def or_undef_def Let_def)
  have "\<not> isRedisAvailable w'" using assms(1) w' by (simp add: isRedisAvailable_def)
  moreover have "block_until now (n + 1) = (if n + 1 \<le> 5 then 0 else now + lock)"
    using assms(6) by (simp add: block_until_def login_config_def)
  ultimately have "fst (advancedLoginLimiter False ex t rnd req w') =
      (if t < now + lock then Reject429 (ceil_minutes (now + lock - t)) (now + lock - t) else Next key (n + 1))"
    using assms(1-3,6) key by (auto simp: advancedLoginLimiter_def Let_def w' decide_def)
  moreover have "fst (advancedLoginLimiter False ex t rnd req' w') = fst (advancedLoginLimiter False ex t rnd req' w)"
    if "login_key (or_str (realIp req') (ip req')) (req_email req') \<noteq> key"
    using that assms(1) \<open>\<not> isRedisAvailable w'\<close>
    by (simp add: advancedLoginLimiter_def Let_def w' split: option.splits)
  ultimately show ?thesis by blast
qed

definition offline_login :: "mem login_world" where
  "offline_login = demo_login\<lparr>cacheReady := False,
     loginStore := [''login_attempt:10.0.0.1_a@b.c'' \<mapsto> \<lparr>le_count = 5, le_resetTime = 0, le_blockUntil = 0\<rparr>]\<rparr>"

lemma offline_login_next:
  "fst (advancedLoginLimiter False mem_exec 1000 0 demo_request offline_login) = Next ''login_attempt:10.0.0.1_a@b.c'' 5"
  by code_simp

theorem login_backoff_schedule_witness:
  "fst (advancedLoginLimiter False mem_exec 300999 0 demo_request
     (snd (handleLoginFailure False mem_exec 1000 0 (Some ''login_attempt:10.0.0.1_a@b.c'') 5 offline_login)))
   = Reject429 1 1"
proof -
  have "\<not> isRedisAvailable offline_login" by code_simp
  from login_backoff_schedule [OF this _ _ offline_login_next refl refl, of 300999] show ?thesis
    by (simp add: ceil_minutes_def)
qed

text \<open>
  The clean-up defeats the escalation in memory mode: it deletes an entry as soon as its
  block has expired, and with it the failure count, so a client that waits out its first block and
  the next clean-up starts again with no recorded failure instead of facing the twenty-five-minute
  block of a seventh failure.
\<close>

theorem cleanup_forgets_failures:
  assumes "\<not> isRedisAvailable w" and "0 \<le> now" and "5 \<le> n"
    and "fst (advancedLoginLimiter False ex now rnd req w) = Next key n"
    and "block_until now (n + 1) < sweep" and "sweep \<le> t"
    and "w' = cleanup_login sweep (snd (handleLoginFailure False ex now rnd (Some key) n w))"
  shows "fst (advancedLoginLimiter False ex t rnd req w') = Next key 0"
proof -
  have key: "key = login_key (or_str (realIp req) (ip req)) (req_email req)"
    using assms(1,4) by (auto simp: advancedLoginLimiter_def Let_def decide_Next split: option.splits)
  have "snd (handleLoginFailure False ex now rnd (Some key) n w) = w\<lparr>loginStore := (loginStore w)(key \<mapsto>
      \<lparr>le_count = n + 1, le_resetTime = 0, le_blockUntil = block_until now (n + 1)\<rparr>)\<rparr>"
    using assms(1) key by (simp add: handleLoginFailure_def or_undef_def Let_def)
  moreover have "block_until now (n + 1) \<noteq> 0"
    using assms(2,3) by (auto simp: block_until_def login_config_def)
  ultimately have "loginStore w' key = None" "\<not> isRedisAvailable w'"
    using assms(1,5,7) by (simp_all add: cleanup_login_def isRedisAvailable_def)
  then show ?thesis using key by (simp add: advancedLoginLimiter_def Let_def decide_def)
qed

theorem cleanup_forgets_failures_witness:
  "fst (advancedLoginLimiter False mem_exec 400000 0 demo_request (cleanup_login 360000
     (snd (handleLoginFailure False mem_exec 1000 0 (Some ''login_attempt:10.0.0.1_a@b.c'') 5 offline_login))))
   = Next ''login_attempt:10.0.0.1_a@b.c'' 0"
proof -
  have "\<not> isRedisAvailable offline_login" "block_until 1000 (5 + 1) < 360000" by code_simp+
  from cleanup_forgets_failures [OF this(1) _ _ offline_login_next this(2) _ refl, of 400000] show ?thesis
    by simp
qed

text \<open>
  Backoff through Redis: when the failure's record was acknowledged by Redis, every later
  check whose lookup Redis answers applies the same schedule, for two hours and fifteen minutes
  after the failure; then the failures are forgotten.
\<close>

theorem login_backoff_in_redis:
  assumes "redis_laws ex live" and "isRedisAvailable w" and "0 \<le> now" and "now \<le> t"
    and "key = login_key (or_str (realIp req) (ip req)) (req_email req)"
    and "fst (runCacheCommand ex now rnd (SETEX key login_ttl (login_record (n + 1) (block_until now (n + 1)))) w) = Ok x"
    and "w' = snd (handleLoginFailure required ex now rnd (Some key) n w)"
    and "fst (runCacheCommand ex t rnd' (GET key) w') = Ok y"
  shows "fst (advancedLoginLimiter required ex t rnd' req w') =
    (if now + 8100000 \<le> t then Next key 0 else decide t key (n + 1) (block_until now (n + 1)))"
proof -
  let ?rec = "login_record (n + 1) (block_until now (n + 1))"
  obtain p1 where set: "run_command ex now rnd (SETEX key login_ttl ?rec) w = (Ok x, p1)"
    using assms(6) unfolding runCacheCommand_def by (metis prod.collapse)
  then have w': "w' = p1" using assms(2,5,7)
    by (simp add: handleLoginFailure_def or_undef_def Let_def runCacheCommand_def)
  have avail: "isRedisAvailable w'"
    by (rule run_command_frame [of ex now rnd "SETEX key login_ttl ?rec" w]) (simp add: set w' assms(2))
  have live: "live (server w') t key = (if t < now + 8100000 then Some ?rec else None)"
    using run_command_applied [OF assms(1) set assms(4)] by (simp add: w' login_ttl_value)
  obtain p2 where get: "run_command ex t rnd' (GET key) w' = (Ok y, p2)"
    using assms(8) unfolding runCacheCommand_def by (metis prod.collapse)
  have "y = get_reply (live (server w') t key)" using run_command_get [OF assms(1) get] .
  then show ?thesis
    using avail get assms(5) live
    by (simp add: advancedLoginLimiter_def Let_def runCacheCommand_def login_record_def decide_def)
qed

theorem login_backoff_in_redis_witness:
  "fst (advancedLoginLimiter True mem_exec 300999 0 demo_request
     (snd (handleLoginFailure True mem_exec 1000 0 (Some ''login_attempt:10.0.0.1_a@b.c'') 5 demo_login)))
   = Reject429 1 1"
proof -
  let ?w = "snd (handleLoginFailure True mem_exec 1000 0 (Some ''login_attempt:10.0.0.1_a@b.c'') 5 demo_login)"
  have facts: "isRedisAvailable demo_login"
    "''login_attempt:10.0.0.1_a@b.c'' = login_key (or_str (realIp demo_request) (ip demo_request)) (req_email demo_request)"
    "fst (runCacheCommand mem_exec 1000 0 (SETEX ''login_attempt:10.0.0.1_a@b.c'' login_ttl
       (login_record (5 + 1) (block_until 1000 (5 + 1)))) demo_login) = Ok (RStatus ''OK'')"
    "fst (runCacheCommand mem_exec 300999 0 (GET ''login_attempt:10.0.0.1_a@b.c'') ?w) =
       Ok (RText (login_record 6 301000))"
    "decide 300999 ''login_attempt:10.0.0.1_a@b.c'' (5 + 1) (block_until 1000 (5 + 1)) = Reject429 1 1"
    by code_simp+
  from login_backoff_in_redis [OF mem_exec_laws facts(1) _ _ facts(2,3) refl facts(4)] facts(5) show ?thesis by simp
qed

end
