(* ===== verification/One_Time_Codes.thy ===== *)
theory One_Time_Codes
  imports Redis_Pool
begin

text \<open>
  One-time codes and short-lived tokens: OAuth exchange codes (\<open>services/oauth-exchange.service.ts\<close>),
  OAuth state with PKCE (\<open>services/oauth-pkce.service.ts\<close>), email links and form tokens
  (\<open>services/email-link.service.ts\<close>) and verification poll tokens
  (\<open>services/verification-poll.service.ts\<close>). Each keeps its records in Redis when it is
  available and, outside production, in a map of the process otherwise. The random strings are
  arguments; SHA-256 and the URL parser are parameters; a record is the JavaScript object the
  code stores.
\<close>

section \<open>Maps with expiry\<close>

type_synonym 'p expiring = "string \<Rightarrow> ('p \<times> ms) option"

definition prune :: "ms \<Rightarrow> 'p expiring \<Rightarrow> 'p expiring" where
  "prune now m = (\<lambda>k. case m k of None \<Rightarrow> None | Some (p, e) \<Rightarrow> (if e \<le> now then None else Some (p, e)))"

definition put :: "int \<Rightarrow> ms \<Rightarrow> string \<Rightarrow> 'p \<Rightarrow> 'p expiring \<Rightarrow> 'p expiring" where
  "put ttl now k p m = (prune now m)(k \<mapsto> (p, now + ttl * 1000))"

definition lookup :: "ms \<Rightarrow> 'p expiring \<Rightarrow> string \<Rightarrow> 'p option" where
  "lookup now m k = (case m k of None \<Rightarrow> None | Some (p, e) \<Rightarrow> (if e < now then None else Some p))"

definition take_entry :: "ms \<Rightarrow> string \<Rightarrow> 'p expiring \<Rightarrow> 'p option \<times> 'p expiring" where
  "take_entry now k m = (lookup now m k, m(k := None))"

text \<open>What a one-time store promises, and what follows for its clients.\<close>

locale one_time_store =
  fixes store :: "ms \<Rightarrow> string \<Rightarrow> 'p \<Rightarrow> 's \<Rightarrow> 's"
    and redeem :: "ms \<Rightarrow> string \<Rightarrow> 's \<Rightarrow> 'v option \<times> 's"
    and holds :: "ms \<Rightarrow> 's \<Rightarrow> string \<Rightarrow> 'v option"
    and content :: "'p \<Rightarrow> 'v option"
    and life :: int
    and valid :: "string \<Rightarrow> 'p \<Rightarrow> bool"
    and inv :: "'s \<Rightarrow> bool"
  assumes store_inv: "inv s \<Longrightarrow> inv (store now k p s)"
    and redeem_inv: "inv s \<Longrightarrow> inv (snd (redeem now k s))"
    and redeem_value: "inv s \<Longrightarrow> fst (redeem now k s) = holds now s k"
    and redeem_spends: "inv s \<Longrightarrow> holds t (snd (redeem now k s)) k = None"
    and redeem_other: "inv s \<Longrightarrow> k' \<noteq> k \<Longrightarrow> holds t (snd (redeem now k s)) k' = holds t s k'"
    and store_holds: "inv s \<Longrightarrow> valid k p \<Longrightarrow> now \<le> t \<Longrightarrow>
        holds t (store now k p s) k = (if t \<le> now + life then content p else None)"
    and store_other_none: "inv s \<Longrightarrow> k' \<noteq> k \<Longrightarrow> holds t s k' = None \<Longrightarrow>
        holds t (store now k p s) k' = None"
begin

text \<open>A history of stores and redemptions: what each redemption returned.\<close>

fun history :: "'s \<Rightarrow> (ms \<times> string \<times> 'p option) list \<Rightarrow> (string \<times> 'v option) list" where
  "history s [] = []"
| "history s ((now, k, Some p) # es) = history (store now k p s) es"
| "history s ((now, k, None) # es) = (k, fst (redeem now k s)) # history (snd (redeem now k s)) es"

lemma spent_stays_spent:
  "inv s \<Longrightarrow> (\<forall>t. holds t s k = None) \<Longrightarrow> (\<forall>now p. (now, k, Some p) \<notin> set es) \<Longrightarrow>
   filter (\<lambda>x. fst x = k \<and> snd x \<noteq> None) (history s es) = []"
proof (induction es arbitrary: s)
  case (Cons e es)
  obtain now k' x where e: "e = (now, k', x)" by (cases e)
  show ?case
  proof (cases x)
    case None
    have "\<forall>t. holds t (snd (redeem now k' s)) k = None"
      using Cons.prems(1,2) by (metis redeem_other redeem_spends)
    from Cons.IH [OF redeem_inv [OF Cons.prems(1)] this] Cons.prems show ?thesis
      by (auto simp: e None redeem_value)
  next
    case (Some p)
    with Cons.prems(3) e have "k' \<noteq> k" by auto
    then have "\<forall>t. holds t (store now k' p s) k = None"
      using Cons.prems(1,2) store_other_none by metis
    from Cons.IH [OF store_inv [OF Cons.prems(1)] this] Cons.prems show ?thesis by (simp add: e Some)
  qed
qed simp

lemma redeemed_at_most_once:
  "inv s \<Longrightarrow> (\<forall>now p. (now, k, Some p) \<notin> set es) \<Longrightarrow>
   length (filter (\<lambda>x. fst x = k \<and> snd x \<noteq> None) (history s es)) \<le> 1"
proof (induction es arbitrary: s)
  case (Cons e es)
  obtain now k' x where e: "e = (now, k', x)" by (cases e)
  from Cons.prems have later: "\<forall>now p. (now, k, Some p) \<notin> set es" by auto
  note inv' = redeem_inv [OF Cons.prems(1)]
  show ?case
  proof (cases x)
    case None
    show ?thesis
    proof (cases "k' = k")
      case True
      have "\<forall>t. holds t (snd (redeem now k s)) k = None" by (simp add: redeem_spends Cons.prems(1))
      from spent_stays_spent [OF inv' this later] show ?thesis by (simp add: e None True)
    next
      case False
      with Cons.IH [OF inv' later] show ?thesis by (simp add: e None)
    qed
  next
    case (Some p)
    from Cons.IH [OF store_inv [OF Cons.prems(1)] later] show ?thesis by (simp add: e Some)
  qed
qed simp

end

lemmas expiring_defs = put_def prune_def lookup_def take_entry_def

interpretation expiring: one_time_store "put ttl" take_entry lookup Some "ttl * 1000" "\<lambda>_ _. True" "\<lambda>_. True" for ttl
  by unfold_locales (auto simp: expiring_defs split: option.splits prod.splits if_splits)

section \<open>The process state\<close>

record 'r code_store = "'r pool" +
  memoryCodes :: "js expiring"
  memoryStates :: "js expiring"
  memoryLinks :: "js expiring"
  memoryForms :: "js expiring"
  memoryPolls :: "string expiring"

text \<open>Every operation on Redis reads the clock and the breaker's random draw.\<close>

text \<open>
  The Redis half of the consuming functions: read the text, delete the key, parse. \<open>None\<close> when
  the key is absent or its text is empty or malformed.
\<close>

definition fetch_and_delete ::
    "'r redis_exec \<Rightarrow> ms \<Rightarrow> rat \<Rightarrow> string \<Rightarrow> ('r, 'z) pool_scheme \<Rightarrow> js option \<times> ('r, 'z) pool_scheme" where
  "fetch_and_delete ex now rnd key w =
     (case cacheGet ex now rnd key w of
        (None, w') \<Rightarrow> (None, w')
      | (Some raw, w') \<Rightarrow>
          (if \<not> text_nonempty raw then (None, w')
           else (JSON_parse raw, cacheDel ex now rnd key w')))"

section \<open>OAuth exchange codes\<close>

definition CODE_TTL_SECS :: int where "CODE_TTL_SECS = 120"
definition CODE_BYTES :: nat where "CODE_BYTES = 32"

definition exchange_record :: "string \<Rightarrow> string \<Rightarrow> string \<Rightarrow> js" where
  "exchange_record accessToken refreshToken st =
     JObj [(''tokens'', JObj [(''accessToken'', JStr accessToken), (''refreshToken'', JStr refreshToken)]),
           (''state'', JStr st)]"

definition pruneMemoryCodes :: "ms \<Rightarrow> ('r, 'z) code_store_scheme \<Rightarrow> ('r, 'z) code_store_scheme" where
  "pruneMemoryCodes now w = w\<lparr>memoryCodes := prune now (memoryCodes w)\<rparr>"

definition exchange_key :: "string \<Rightarrow> string" where
  "exchange_key code = ''uam:oauth:'' @ code"

definition createOAuthExchangeCode ::
    "app_config \<Rightarrow> 'r redis_exec \<Rightarrow> ms \<Rightarrow> rat \<Rightarrow> string \<Rightarrow> string \<Rightarrow> string \<Rightarrow> string \<Rightarrow>
     (('r, 'z) code_store_scheme, string) act" where
  "createOAuthExchangeCode cfg ex now rnd code accessToken refreshToken st w =
     (if st = [] then (Inl (Error ''OAuth state is required for exchange codes''), w)
      else let rec = exchange_record accessToken refreshToken st
           in if isRedisAvailable w
              then (Inr code, cacheSet ex now rnd (exchange_key code) (Json rec) (Some CODE_TTL_SECS) w)
              else if nodeEnv cfg = ''production''
              then (Inl (Error ''Redis required for OAuth exchange codes in production''), w)
              else let w' = pruneMemoryCodes now w
                   in (Inr code, w'\<lparr>memoryCodes := (memoryCodes w')(code \<mapsto> (rec, now + CODE_TTL_SECS * 1000))\<rparr>))"

definition consumeOAuthExchangeCode ::
    "'r redis_exec \<Rightarrow> ms \<Rightarrow> rat \<Rightarrow> string \<Rightarrow> string \<Rightarrow> ('r, 'z) code_store_scheme \<Rightarrow>
     js option \<times> ('r, 'z) code_store_scheme" where
  "consumeOAuthExchangeCode ex now rnd code st w =
     (if code = [] \<or> length code < CODE_BYTES * 2 \<or> st = [] then (None, w)
      else let (rec, w') =
                 (if isRedisAvailable w then fetch_and_delete ex now rnd (exchange_key code) w
                  else case take_entry now code (memoryCodes w) of (r, m) \<Rightarrow> (r, w\<lparr>memoryCodes := m\<rparr>))
           in case rec of
                None \<Rightarrow> (None, w')
              | Some r \<Rightarrow>
                  (if nullish r \<or> js_get r ''state'' \<noteq> JStr st then (None, w')
                   else (Some (js_get r ''tokens''), w')))"

section \<open>OAuth state and PKCE\<close>

definition STATE_TTL_SECS :: int where "STATE_TTL_SECS = 600"
definition STATE_BYTES :: nat where "STATE_BYTES = 32"

text \<open>The parts of a parsed URL that are read; the constructor may throw (\<open>None\<close>).\<close>

record web_url =
  u_protocol :: string
  u_pathname :: string
  u_origin :: string

definition resolveClientRedirectUri :: "(string \<Rightarrow> web_url option) \<Rightarrow> app_config \<Rightarrow> js \<Rightarrow> string option" where
  "resolveClientRedirectUri parse_url cfg redirectUri = (case redirectUri of
      JStr s \<Rightarrow>
        (if s = [] then None
         else case parse_url s of
                None \<Rightarrow> None
              | Some u \<Rightarrow>
                  (if u_protocol u \<noteq> ''https:'' \<and> u_protocol u \<noteq> ''http:'' then None
                   else if strip_slash (u_pathname u) \<noteq> ''/oauth-callback'' then None
                   else if \<not> list_ex (\<lambda>base. case parse_url base of None \<Rightarrow> False | Some b \<Rightarrow> u_origin b = u_origin u)
                             (clientUrls cfg)
                   then None
                   else Some (u_origin u @ ''/oauth-callback'')))
    | _ \<Rightarrow> None)"

definition pruneMemoryStates :: "ms \<Rightarrow> ('r, 'z) code_store_scheme \<Rightarrow> ('r, 'z) code_store_scheme" where
  "pruneMemoryStates now w = w\<lparr>memoryStates := prune now (memoryStates w)\<rparr>"

text \<open>\<open>sha256url\<close> is the base64url text of the SHA-256 digest.\<close>

definition verifyPkceChallenge :: "(string \<Rightarrow> string) \<Rightarrow> string \<Rightarrow> js \<Rightarrow> bool" where
  "verifyPkceChallenge sha256url codeVerifier codeChallenge \<longleftrightarrow> JStr (sha256url codeVerifier) = codeChallenge"

definition state_key :: "string \<Rightarrow> string" where
  "state_key st = ''uam:oauth-state:'' @ st"

definition state_record :: "string \<Rightarrow> string option \<Rightarrow> js" where
  "state_record codeChallenge redirectUri =
     JObj ((''codeChallenge'', JStr codeChallenge) #
           (case or_undef redirectUri of None \<Rightarrow> [] | Some u \<Rightarrow> [(''redirectUri'', JStr u)]))"

definition createOAuthState ::
    "app_config \<Rightarrow> 'r redis_exec \<Rightarrow> ms \<Rightarrow> rat \<Rightarrow> string \<Rightarrow> string \<Rightarrow> string option \<Rightarrow>
     (('r, 'z) code_store_scheme, string) act" where
  "createOAuthState cfg ex now rnd st codeChallenge redirectUri w =
     (if codeChallenge = [] \<or> length codeChallenge < 43 \<or> 128 < length codeChallenge
      then (Inl (Error ''Invalid code challenge''), w)
      else let rec = state_record codeChallenge redirectUri
           in if isRedisAvailable w
              then (Inr st, cacheSet ex now rnd (state_key st) (Json rec) (Some STATE_TTL_SECS) w)
              else if nodeEnv cfg = ''production''
              then (Inl (Error ''Redis required for OAuth state in production''), w)
              else let w' = pruneMemoryStates now w
                   in (Inr st, w'\<lparr>memoryStates := (memoryStates w')(st \<mapsto> (rec, now + STATE_TTL_SECS * 1000))\<rparr>))"

fun js_str :: "js \<Rightarrow> string option" where
  "js_str (JStr s) = Some s"
| "js_str v = None"

definition peekOAuthStateRedirectUri ::
    "'r redis_exec \<Rightarrow> ms \<Rightarrow> rat \<Rightarrow> string \<Rightarrow> ('r, 'z) code_store_scheme \<Rightarrow>
     string option \<times> ('r, 'z) code_store_scheme" where
  "peekOAuthStateRedirectUri ex now rnd st w =
     (if st = [] then (None, w)
      else if isRedisAvailable w
      then (case cacheGet ex now rnd (state_key st) w of
              (None, w') \<Rightarrow> (None, w')
            | (Some raw, w') \<Rightarrow>
                (case JSON_parse raw of
                   None \<Rightarrow> (None, w')
                 | Some r \<Rightarrow> (js_str (js_get r ''redirectUri''), w')))
      else (case lookup now (memoryStates w) st of
              None \<Rightarrow> (None, w)
            | Some r \<Rightarrow> (js_str (js_get r ''redirectUri''), w)))"

definition consumeOAuthState ::
    "(string \<Rightarrow> string) \<Rightarrow> 'r redis_exec \<Rightarrow> ms \<Rightarrow> rat \<Rightarrow> string \<Rightarrow> string \<Rightarrow>
     ('r, 'z) code_store_scheme \<Rightarrow> bool \<times> ('r, 'z) code_store_scheme" where
  "consumeOAuthState sha256url ex now rnd st codeVerifier w =
     (if st = [] \<or> codeVerifier = [] then (False, w)
      else let (rec, w') =
                 (if isRedisAvailable w then fetch_and_delete ex now rnd (state_key st) w
                  else case take_entry now st (memoryStates w) of (r, m) \<Rightarrow> (r, w\<lparr>memoryStates := m\<rparr>))
           in case rec of
                None \<Rightarrow> (False, w')
              | Some r \<Rightarrow>
                  (if nullish r then (False, w')
                   else (verifyPkceChallenge sha256url codeVerifier (js_get r ''codeChallenge''), w')))"

section \<open>Email links and form tokens\<close>

definition LINK_TTL_SECS :: int where "LINK_TTL_SECS = 86400"
definition FORM_TTL_SECS :: int where "FORM_TTL_SECS = 600"

datatype EmailLinkKind = VerifyEmail | ResetPassword | MigrateCurrent | MigrateNew

fun kind_name :: "EmailLinkKind \<Rightarrow> string" where
  "kind_name VerifyEmail = ''verify-email''"
| "kind_name ResetPassword = ''reset-password''"
| "kind_name MigrateCurrent = ''migrate-current''"
| "kind_name MigrateNew = ''migrate-new''"

definition link_payload :: "js \<Rightarrow> js \<Rightarrow> js \<Rightarrow> js" where
  "link_payload kind secret meta = JObj [(''kind'', kind), (''secret'', secret), (''meta'', meta)]"

definition pruneMemoryLinks :: "ms \<Rightarrow> ('r, 'z) code_store_scheme \<Rightarrow> ('r, 'z) code_store_scheme" where
  "pruneMemoryLinks now w = w\<lparr>memoryLinks := prune now (memoryLinks w)\<rparr>"

definition pruneMemoryForms :: "ms \<Rightarrow> ('r, 'z) code_store_scheme \<Rightarrow> ('r, 'z) code_store_scheme" where
  "pruneMemoryForms now w = w\<lparr>memoryForms := prune now (memoryForms w)\<rparr>"

definition link_key :: "string \<Rightarrow> string" where "link_key code = ''uam:email-link:'' @ code"
definition form_key :: "string \<Rightarrow> string" where "form_key tok = ''uam:email-form:'' @ tok"

definition createEmailLinkCode ::
    "app_config \<Rightarrow> 'r redis_exec \<Rightarrow> ms \<Rightarrow> rat \<Rightarrow> string \<Rightarrow> EmailLinkKind \<Rightarrow> string \<Rightarrow> js \<Rightarrow>
     (('r, 'z) code_store_scheme, string) act" where
  "createEmailLinkCode cfg ex now rnd code kind secret meta w =
     (let payload = link_payload (JStr (kind_name kind)) (JStr secret) meta
      in if isRedisAvailable w
         then (Inr code, cacheSet ex now rnd (link_key code) (Json payload) (Some LINK_TTL_SECS) w)
         else if nodeEnv cfg = ''production''
         then (Inl (Error ''Redis required for email link codes in production''), w)
         else let w' = pruneMemoryLinks now w
              in (Inr code, w'\<lparr>memoryLinks := (memoryLinks w')(code \<mapsto> (payload, now + LINK_TTL_SECS * 1000))\<rparr>))"

record redeemed_link =
  rl_kind :: js
  rl_formToken :: string
  rl_meta :: js

definition redeemEmailLinkCode ::
    "'r redis_exec \<Rightarrow> ms \<Rightarrow> rat \<Rightarrow> string \<Rightarrow> string \<Rightarrow> ('r, 'z) code_store_scheme \<Rightarrow>
     redeemed_link option \<times> ('r, 'z) code_store_scheme" where
  "redeemEmailLinkCode ex now rnd formToken code w =
     (if code = [] \<or> length code < CODE_BYTES * 2 then (None, w)
      else let (payload, w1) =
                 (if isRedisAvailable w then fetch_and_delete ex now rnd (link_key code) w
                  else case take_entry now code (memoryLinks w) of (r, m) \<Rightarrow> (r, w\<lparr>memoryLinks := m\<rparr>))
           in case payload of
                None \<Rightarrow> (None, w1)
              | Some p \<Rightarrow>
                  (if nullish p then (None, w1)
                   else let form = link_payload (js_get p ''kind'') (js_get p ''secret'') (js_get p ''meta'');
                            w2 = (if isRedisAvailable w1
                                  then cacheSet ex now rnd (form_key formToken) (Json form) (Some FORM_TTL_SECS) w1
                                  else let w' = pruneMemoryForms now w1
                                       in w'\<lparr>memoryForms := (memoryForms w')(formToken \<mapsto> (form, now + FORM_TTL_SECS * 1000))\<rparr>)
                        in (Some \<lparr>rl_kind = js_get p ''kind'', rl_formToken = formToken, rl_meta = js_get p ''meta''\<rparr>, w2)))"

record form_content =
  fc_secret :: js
  fc_meta :: js

definition consumeFormToken ::
    "'r redis_exec \<Rightarrow> ms \<Rightarrow> rat \<Rightarrow> string \<Rightarrow> EmailLinkKind \<Rightarrow> ('r, 'z) code_store_scheme \<Rightarrow>
     form_content option \<times> ('r, 'z) code_store_scheme" where
  "consumeFormToken ex now rnd formToken expectedKind w =
     (if formToken = [] \<or> length formToken < CODE_BYTES * 2 then (None, w)
      else let (payload, w') =
                 (if isRedisAvailable w then fetch_and_delete ex now rnd (form_key formToken) w
                  else case take_entry now formToken (memoryForms w) of (r, m) \<Rightarrow> (r, w\<lparr>memoryForms := m\<rparr>))
           in case payload of
                None \<Rightarrow> (None, w')
              | Some p \<Rightarrow>
                  (if nullish p \<or> js_get p ''kind'' \<noteq> JStr (kind_name expectedKind) then (None, w')
                   else (Some \<lparr>fc_secret = js_get p ''secret'', fc_meta = js_get p ''meta''\<rparr>, w')))"

section \<open>Verification poll tokens\<close>

definition POLL_TTL_SECS :: int where "POLL_TTL_SECS = 86400"
definition POLL_BYTES :: nat where "POLL_BYTES = 32"

definition poll_key :: "string \<Rightarrow> string" where "poll_key tok = ''uam:verify-poll:'' @ tok"

definition pruneMemoryPolls :: "ms \<Rightarrow> ('r, 'z) code_store_scheme \<Rightarrow> ('r, 'z) code_store_scheme" where
  "pruneMemoryPolls now w = w\<lparr>memoryPolls := prune now (memoryPolls w)\<rparr>"

definition createVerificationPollToken ::
    "app_config \<Rightarrow> 'r redis_exec \<Rightarrow> ms \<Rightarrow> rat \<Rightarrow> string \<Rightarrow> string \<Rightarrow> (('r, 'z) code_store_scheme, string) act" where
  "createVerificationPollToken cfg ex now rnd tok userId w =
     (if isRedisAvailable w
      then (Inr tok, cacheSet ex now rnd (poll_key tok) (Raw userId) (Some POLL_TTL_SECS) w)
      else if nodeEnv cfg = ''production''
      then (Inl (Error ''Redis required for verification poll tokens in production''), w)
      else let w' = pruneMemoryPolls now w
           in (Inr tok, w'\<lparr>memoryPolls := (memoryPolls w')(tok \<mapsto> (userId, now + POLL_TTL_SECS * 1000))\<rparr>))"

fun raw_text :: "rtext \<Rightarrow> string option" where
  "raw_text (Raw s) = Some s"
| "raw_text (Json v) = None"

definition resolveVerificationPollToken ::
    "'r redis_exec \<Rightarrow> ms \<Rightarrow> rat \<Rightarrow> string \<Rightarrow> ('r, 'z) code_store_scheme \<Rightarrow>
     string option \<times> ('r, 'z) code_store_scheme" where
  "resolveVerificationPollToken ex now rnd tok w =
     (if tok = [] \<or> length tok < POLL_BYTES * 2 then (None, w)
      else if isRedisAvailable w
      then (case cacheGet ex now rnd (poll_key tok) w of (v, w') \<Rightarrow> (Option.bind v raw_text, w'))
      else (case lookup now (memoryPolls w) tok of
              None \<Rightarrow> (None, w\<lparr>memoryPolls := (memoryPolls w)(tok := None)\<rparr>)
            | Some userId \<Rightarrow> (Some userId, w)))"

definition revokeVerificationPollToken ::
    "'r redis_exec \<Rightarrow> ms \<Rightarrow> rat \<Rightarrow> string \<Rightarrow> ('r, 'z) code_store_scheme \<Rightarrow> ('r, 'z) code_store_scheme" where
  "revokeVerificationPollToken ex now rnd tok w =
     (if tok = [] then w
      else if isRedisAvailable w then cacheDel ex now rnd (poll_key tok) w
      else w\<lparr>memoryPolls := (memoryPolls w)(tok := None)\<rparr>)"

section \<open>Properties\<close>

text \<open>The services in memory mode as one-time stores.\<close>

definition memory_mode :: "app_config \<Rightarrow> ('r, 'z) code_store_scheme \<Rightarrow> bool" where
  "memory_mode cfg w \<longleftrightarrow> \<not> isRedisAvailable w \<and> nodeEnv cfg \<noteq> ''production''"

lemma available_memory_upd [simp]:
  "isRedisAvailable (w\<lparr>memoryCodes := m\<rparr>) = isRedisAvailable w"
  "isRedisAvailable (w\<lparr>memoryStates := m\<rparr>) = isRedisAvailable w"
  "isRedisAvailable (w\<lparr>memoryLinks := m\<rparr>) = isRedisAvailable w"
  "isRedisAvailable (w\<lparr>memoryForms := m\<rparr>) = isRedisAvailable w"
  "isRedisAvailable (w\<lparr>memoryPolls := p\<rparr>) = isRedisAvailable w"
  by (simp_all add: isRedisAvailable_def)

definition store_code ::
    "app_config \<Rightarrow> 'r redis_exec \<Rightarrow> rat \<Rightarrow> ms \<Rightarrow> string \<Rightarrow> string \<times> string \<times> string \<Rightarrow>
     ('r, 'z) code_store_scheme \<Rightarrow> ('r, 'z) code_store_scheme" where
  "store_code cfg ex rnd now code p w =
     (case p of (a, r, st) \<Rightarrow> snd (createOAuthExchangeCode cfg ex now rnd code a r st w))"

lemma create_code_memory:
  "memory_mode cfg w \<Longrightarrow> store_code cfg ex rnd now code (a, r, st) w =
     (if st = [] then w else w\<lparr>memoryCodes := put CODE_TTL_SECS now code (exchange_record a r st) (memoryCodes w)\<rparr>)"
  by (simp add: store_code_def createOAuthExchangeCode_def memory_mode_def pruneMemoryCodes_def put_def Let_def)

lemma consume_code_memory:
  "memory_mode cfg w \<Longrightarrow> consumeOAuthExchangeCode ex now rnd code st w =
     (if code = [] \<or> length code < 64 \<or> st = [] then (None, w)
      else (case lookup now (memoryCodes w) code of
              None \<Rightarrow> None
            | Some r \<Rightarrow> (if nullish r \<or> js_get r ''state'' \<noteq> JStr st then None else Some (js_get r ''tokens'')),
            w\<lparr>memoryCodes := (memoryCodes w)(code := None)\<rparr>))"
  by (auto simp: consumeOAuthExchangeCode_def memory_mode_def take_entry_def CODE_BYTES_def split: option.splits)

lemma exchange_record_simps [simp]:
  "js_get (exchange_record a r st) ''state'' = JStr st"
  "js_get (exchange_record a r st) ''tokens'' = JObj [(''accessToken'', JStr a), (''refreshToken'', JStr r)]"
  "nullish (exchange_record a r st) = False"
  by (simp_all add: exchange_record_def)

lemma memory_mode_upd [simp]: "memory_mode cfg (w\<lparr>memoryCodes := m\<rparr>) = memory_mode cfg w"
  by (simp add: memory_mode_def)

interpretation exchange: one_time_store "store_code cfg ex rnd"
    "\<lambda>now code. consumeOAuthExchangeCode ex now rnd code st"
    "\<lambda>t w code. fst (consumeOAuthExchangeCode ex t rnd code st w)"
    "\<lambda>(a, r, st'). if st' = st then Some (JObj [(''accessToken'', JStr a), (''refreshToken'', JStr r)]) else None"
    "CODE_TTL_SECS * 1000" "\<lambda>code (a, r, st'). 64 \<le> length code \<and> st \<noteq> [] \<and> st' \<noteq> []" "memory_mode cfg"
  for cfg ex rnd st
proof
  fix w :: "('a, 'b) code_store_scheme" and now t k k' and p :: "string \<times> string \<times> string"
  obtain a r st' where p: "p = (a, r, st')" by (cases p)
  assume w: "memory_mode cfg w"
  show "memory_mode cfg (store_code cfg ex rnd now k p w)" using w by (simp add: p create_code_memory)
  then show "k' \<noteq> k \<Longrightarrow> fst (consumeOAuthExchangeCode ex t rnd k' st w) = None \<Longrightarrow>
      fst (consumeOAuthExchangeCode ex t rnd k' st (store_code cfg ex rnd now k p w)) = None"
    using w by (auto simp: p create_code_memory consume_code_memory expiring_defs
        split: option.splits prod.splits if_splits)
  show "memory_mode cfg (snd (consumeOAuthExchangeCode ex now rnd k st w))"
    using w by (simp add: consume_code_memory)
  show "fst (consumeOAuthExchangeCode ex t rnd k st (snd (consumeOAuthExchangeCode ex now rnd k st w))) = None"
    using w by (simp add: consume_code_memory lookup_def)
  show "k' \<noteq> k \<Longrightarrow> fst (consumeOAuthExchangeCode ex t rnd k' st (snd (consumeOAuthExchangeCode ex now rnd k st w)))
      = fst (consumeOAuthExchangeCode ex t rnd k' st w)"
    using w by (simp add: consume_code_memory lookup_def)
  show "(case p of (a, r, st') \<Rightarrow> 64 \<le> length k \<and> st \<noteq> [] \<and> st' \<noteq> []) \<Longrightarrow> now \<le> t \<Longrightarrow>
      fst (consumeOAuthExchangeCode ex t rnd k st (store_code cfg ex rnd now k p w)) =
      (if t \<le> now + CODE_TTL_SECS * 1000
       then case p of (a, r, st') \<Rightarrow>
         if st' = st then Some (JObj [(''accessToken'', JStr a), (''refreshToken'', JStr r)]) else None
       else None)"
    using w by (auto simp: p create_code_memory consume_code_memory expiring_defs)
qed simp

text \<open>
  A history of the exchange-code service: codes created with their tokens and state, and
  redemptions under the state \<open>st\<close>; the list says what each redemption returned.
\<close>

fun exchange_history ::
    "app_config \<Rightarrow> 'r redis_exec \<Rightarrow> rat \<Rightarrow> string \<Rightarrow> ('r, 'z) code_store_scheme \<Rightarrow>
     (ms \<times> string \<times> (string \<times> string \<times> string) option) list \<Rightarrow> (string \<times> js option) list" where
  "exchange_history cfg ex rnd st w [] = []"
| "exchange_history cfg ex rnd st w ((now, code, Some (a, r, st')) # es) =
     exchange_history cfg ex rnd st (snd (createOAuthExchangeCode cfg ex now rnd code a r st' w)) es"
| "exchange_history cfg ex rnd st w ((now, code, None) # es) =
     (code, fst (consumeOAuthExchangeCode ex now rnd code st w))
     # exchange_history cfg ex rnd st (snd (consumeOAuthExchangeCode ex now rnd code st w)) es"

lemma store_code_apply:
  "store_code cfg ex rnd now code (a, r, st) w = snd (createOAuthExchangeCode cfg ex now rnd code a r st w)"
  by (simp add: store_code_def)

lemma exchange_history_eq: "exchange_history cfg ex rnd st w es = exchange.history cfg ex rnd st w es"
  by (induction cfg ex rnd st w es rule: exchange_history.induct) (simp_all add: store_code_apply)

text \<open>
  (C21) An exchange code is spent by its first redemption: in memory mode, whatever sequence of
  creations and redemptions of other codes surrounds it, a code that is not issued again yields
  tokens at most once. When it does, these are the tokens it was created with, for the same OAuth
  state and within two minutes of its creation.
\<close>

theorem exchange_code_single_use:
  assumes "\<not> isRedisAvailable w" and "nodeEnv cfg \<noteq> ''production''" and "st \<noteq> []" and "64 \<le> length code"
    and "now \<le> t" and "\<forall>t p. (t, code, Some p) \<notin> set es"
    and "w' = snd (createOAuthExchangeCode cfg ex now rnd code a r st' w)" and "st' \<noteq> []"
  shows "length (filter (\<lambda>x. fst x = code \<and> snd x \<noteq> None) (exchange_history cfg ex rnd st w' es)) \<le> 1
    \<and> fst (consumeOAuthExchangeCode ex t rnd code st w') =
        (if t \<le> now + 120000 \<and> st' = st
         then Some (JObj [(''accessToken'', JStr a), (''refreshToken'', JStr r)]) else None)"
proof -
  have w: "memory_mode cfg w" using assms(1,2) by (simp add: memory_mode_def)
  have w': "w' = store_code cfg ex rnd now code (a, r, st') w" by (simp add: assms(7) store_code_def)
  have "memory_mode cfg w'" unfolding w' by (rule exchange.store_inv [OF w])
  from exchange.redeemed_at_most_once [OF this assms(6)]
    exchange.store_holds [OF w, where k = code and p = "(a, r, st')" and st = st and now = now and t = t]
  show ?thesis using assms(3,4,5,8) by (auto simp: w' exchange_history_eq CODE_TTL_SECS_def)
qed

definition dev_config :: app_config where
  "dev_config = config_of_env (\<lambda>_. None) [''NODE_ENV'' \<mapsto> ''development'']"

definition demo_codes :: "mem code_store" where
  "demo_codes = pool.extend demo_pool \<lparr>memoryCodes = (\<lambda>_. None), memoryStates = (\<lambda>_. None),
     memoryLinks = (\<lambda>_. None), memoryForms = (\<lambda>_. None), memoryPolls = (\<lambda>_. None)\<rparr>"

definition demo_code :: string where "demo_code = replicate 64 (CHR ''a'')"

lemma demo_code_length: "length demo_code = 64"
  by (simp add: demo_code_def)

definition offline_codes :: "mem code_store" where
  "offline_codes = demo_codes\<lparr>cacheReady := False\<rparr>"

lemma offline_codes_facts: "\<not> isRedisAvailable offline_codes" "nodeEnv dev_config \<noteq> ''production''"
  by (simp_all add: offline_codes_def demo_codes_def demo_pool_def new_pool_def createClients_def
      isRedisAvailable_def pool.defs dev_config_def config_of_env_def or_str_def)

theorem exchange_code_single_use_witness:
  "fst (consumeOAuthExchangeCode mem_exec 60000 0 demo_code ''s''
     (snd (createOAuthExchangeCode dev_config mem_exec 1000 0 demo_code ''A'' ''R'' ''s'' offline_codes)))
   = Some (JObj [(''accessToken'', JStr ''A''), (''refreshToken'', JStr ''R'')])"
  using exchange_code_single_use [OF offline_codes_facts, of "''s''" demo_code 1000 60000 "[]", OF _ _ _ _ refl]
  by (simp add: demo_code_length)

text \<open>A Redis whose deletions time out without effect, and otherwise answers.\<close>

definition flaky_exec :: "mem redis_exec" where
  "flaky_exec now c m = (case c of DEL k \<Rightarrow> ((now + 5000, 0, 5000000000, TimerFires), [], m) | _ \<Rightarrow> mem_exec now c m)"

lemma flaky_exec_laws: "redis_laws flaky_exec mem_live"
  unfolding redis_laws_def
proof (intro conjI allI impI)
  fix now c r s late r'
  assume ex: "flaky_exec now c r = (s, late, r')"
  show "\<exists>applied. (resolves s \<noteq> None \<longrightarrow> applied) \<and>
      (\<forall>t\<ge>now. mem_live r' t = (if applied then apply_cmd c now t (mem_live r t) else mem_live r t))"
  proof (cases "\<exists>k. c = DEL k")
    case True
    with ex show ?thesis by (intro exI [of _ False]) (auto simp: flaky_exec_def)
  next
    case False
    with ex have "mem_exec now c r = (s, late, r')" by (simp add: flaky_exec_def split: rcmd.splits)
    from redis_lawsD [OF mem_exec_laws this] show ?thesis by metis
  qed
  show "v = get_reply (mem_live r now k)" if "c = GET k" "resolves s = Some v" for k v
    using redis_laws_get [OF mem_exec_laws, of now k r s late r' v] ex that by (simp add: flaky_exec_def)
next
  fix r :: mem and t t' k v
  show "t \<le> t' \<Longrightarrow> mem_live r t' k = Some v \<Longrightarrow> mem_live r t k = Some v"
    using redis_laws_expiry [OF mem_exec_laws] .
qed


text \<open>
  (C23) No open redirect: a redirect target accepted by \<open>resolveClientRedirectUri\<close> is the
  \<open>/oauth-callback\<close> path of an origin that one of the configured client URLs has, and the
  submitted URL was an http or https URL of that origin and path.
\<close>

theorem redirect_uri_allowlisted:
  assumes "resolveClientRedirectUri parse_url cfg v = Some target"
  shows "\<exists>s u base b. v = JStr s \<and> parse_url s = Some u \<and> u_protocol u \<in> {''https:'', ''http:''}
    \<and> strip_slash (u_pathname u) = ''/oauth-callback''
    \<and> base \<in> set (clientUrls cfg) \<and> parse_url base = Some b \<and> u_origin b = u_origin u
    \<and> target = u_origin b @ ''/oauth-callback''"
  using assms
  by (auto simp: resolveClientRedirectUri_def list_ex_iff split: js.splits if_splits option.splits)

definition demo_parse_url :: "string \<Rightarrow> web_url option" where
  "demo_parse_url s = (if s = ''http://localhost:5173'' then Some \<lparr>u_protocol = ''http:'', u_pathname = ''/'', u_origin = ''http://localhost:5173''\<rparr>
     else if s = ''http://localhost:5173/oauth-callback/''
     then Some \<lparr>u_protocol = ''http:'', u_pathname = ''/oauth-callback/'', u_origin = ''http://localhost:5173''\<rparr>
     else None)"

theorem redirect_uri_allowlisted_witness:
  "\<exists>s u. JStr ''http://localhost:5173/oauth-callback/'' = JStr s \<and> demo_parse_url s = Some u
     \<and> strip_slash (u_pathname u) = ''/oauth-callback''"
proof -
  have "resolveClientRedirectUri demo_parse_url dev_config (JStr ''http://localhost:5173/oauth-callback/'')
      = Some ''http://localhost:5173/oauth-callback''"
    by code_simp
  from redirect_uri_allowlisted [OF this] show ?thesis by blast
qed

lemma kind_name_inj [simp]: "kind_name a = kind_name b \<longleftrightarrow> a = b"
  by (cases a; cases b) simp_all

lemma link_payload_simps [simp]:
  "js_get (link_payload k s m) ''kind'' = k" "js_get (link_payload k s m) ''secret'' = s"
  "js_get (link_payload k s m) ''meta'' = m" "nullish (link_payload k s m) = False"
  by (simp_all add: link_payload_def)

lemma create_link_memory:
  "memory_mode cfg w \<Longrightarrow> snd (createEmailLinkCode cfg ex now rnd code kind secret meta w) =
     w\<lparr>memoryLinks := put LINK_TTL_SECS now code (link_payload (JStr (kind_name kind)) (JStr secret) meta) (memoryLinks w)\<rparr>"
  by (simp add: createEmailLinkCode_def memory_mode_def pruneMemoryLinks_def put_def Let_def)

lemma redeem_link_memory:
  "\<not> isRedisAvailable w \<Longrightarrow> 64 \<le> length code \<Longrightarrow> redeemEmailLinkCode ex now rnd tok code w =
     (let w1 = w\<lparr>memoryLinks := (memoryLinks w)(code := None)\<rparr>
      in case lookup now (memoryLinks w) code of
           None \<Rightarrow> (None, w1)
         | Some p \<Rightarrow> (if nullish p then (None, w1)
             else (Some \<lparr>rl_kind = js_get p ''kind'', rl_formToken = tok, rl_meta = js_get p ''meta''\<rparr>,
                   w1\<lparr>memoryForms := put FORM_TTL_SECS now tok
                      (link_payload (js_get p ''kind'') (js_get p ''secret'') (js_get p ''meta'')) (memoryForms w)\<rparr>)))"
  by (auto simp: redeemEmailLinkCode_def take_entry_def CODE_BYTES_def pruneMemoryForms_def put_def Let_def
      split: option.splits)

lemma consume_form_memory:
  "\<not> isRedisAvailable w \<Longrightarrow> 64 \<le> length tok \<Longrightarrow> consumeFormToken ex now rnd tok kind w =
     (case lookup now (memoryForms w) tok of
        None \<Rightarrow> None
      | Some p \<Rightarrow> (if nullish p \<or> js_get p ''kind'' \<noteq> JStr (kind_name kind) then None
                  else Some \<lparr>fc_secret = js_get p ''secret'', fc_meta = js_get p ''meta''\<rparr>),
      w\<lparr>memoryForms := (memoryForms w)(tok := None)\<rparr>)"
  by (auto simp: consumeFormToken_def take_entry_def CODE_BYTES_def Let_def split: option.splits)



end
