(* ===== verification/Where_Filter.thy ===== *)
theory Where_Filter
  imports UAM_Prelude
begin

text \<open>
  The column map (\<open>db/columns.ts\<close>) and the compiler from document-style filters to
  parameterised SQL (\<open>db/filter.ts\<close>). The compiler builds the syntax tree of the condition
  while it collects the parameters; \<open>render\<close> is the text the code concatenates. The meaning of
  a condition on a row is SQL's three-valued one, and the compiler is proved against a direct
  reading of the filter. The regular-expression engine of the database is a parameter.
\<close>

section \<open>Columns\<close>

definition FIELD_TO_COLUMN :: "(string \<times> string) list" where
  "FIELD_TO_COLUMN = [
     (''id'', ''id''),
     (''email'', ''email''),
     (''previousEmail'', ''previous_email''),
     (''password'', ''password''),
     (''displayName'', ''display_name''),
     (''avatar'', ''avatar''),
     (''bio'', ''bio''),
     (''isEmailVerified'', ''is_email_verified''),
     (''loginCount'', ''login_count''),
     (''lastLogin'', ''last_login''),
     (''emailVerificationToken'', ''email_verification_token''),
     (''emailVerificationExpires'', ''email_verification_expires''),
     (''passwordResetToken'', ''password_reset_token''),
     (''passwordResetExpires'', ''password_reset_expires''),
     (''provider'', ''provider''),
     (''providerId'', ''provider_id''),
     (''refreshTokens'', ''refresh_tokens''),
     (''activeAccessJtis'', ''active_access_jtis''),
     (''tokenVersion'', ''token_version''),
     (''migrationExpiry'', ''migration_expiry''),
     (''migrationToken'', ''migration_token''),
     (''migrationTokenExpires'', ''migration_token_expires''),
     (''newEmailPending'', ''new_email_pending''),
     (''lastMigrationDate'', ''last_migration_date''),
     (''currentEmailVerified'', ''current_email_verified''),
     (''newEmailVerified'', ''new_email_verified''),
     (''currentEmailToken'', ''current_email_token''),
     (''newEmailToken'', ''new_email_token''),
     (''lastMigrationEmailSent'', ''last_migration_email_sent''),
     (''migrationHistory'', ''migration_history''),
     (''createdAt'', ''created_at''),
     (''updatedAt'', ''updated_at'')]"

definition COLUMN_TO_FIELD :: "(string \<times> string) list" where
  "COLUMN_TO_FIELD = map (\<lambda>(k, v). (v, k)) FIELD_TO_COLUMN"

definition ALL_FIELDS :: "string list" where
  "ALL_FIELDS = map fst FIELD_TO_COLUMN"

definition SENSITIVE_FIELDS :: "string set" where
  "SENSITIVE_FIELDS = {''password'', ''refreshTokens'', ''activeAccessJtis''}"

definition JSONB_FIELDS :: "string set" where
  "JSONB_FIELDS = {''refreshTokens'', ''activeAccessJtis'', ''migrationHistory''}"

definition columnName :: "string \<Rightarrow> exn + string" where
  "columnName field =
     (if field = ''_id'' then Inr ''id''
      else case map_of FIELD_TO_COLUMN field of
             None \<Rightarrow> Inl (Error (''Unknown field: '' @ field))
           | Some col \<Rightarrow> Inr col)"

definition fieldName :: "string \<Rightarrow> exn + string" where
  "fieldName column = (case map_of COLUMN_TO_FIELD column of
      None \<Rightarrow> Inl (Error (''Unknown column: '' @ column))
    | Some field \<Rightarrow> Inr field)"

lemma columns_distinct: "distinct (map fst FIELD_TO_COLUMN)" "distinct (map snd FIELD_TO_COLUMN)"
  by code_simp+

lemma fieldName_columnName:
  assumes "columnName field = Inr col" and "field \<noteq> ''_id''"
  shows "fieldName col = Inr field"
proof -
  from assms have "(field, col) \<in> set FIELD_TO_COLUMN"
    by (auto simp: columnName_def dest!: map_of_SomeD split: option.splits)
  then have "(col, field) \<in> set COLUMN_TO_FIELD" by (force simp: COLUMN_TO_FIELD_def)
  moreover have "distinct (map fst COLUMN_TO_FIELD)"
    using columns_distinct(2) by (simp add: COLUMN_TO_FIELD_def case_prod_beta' comp_def)
  ultimately show ?thesis by (simp add: fieldName_def)
qed

section \<open>Filters and conditions\<close>

text \<open>
  A filter is an object from keys to values: a scalar, an array, a regular expression (source and
  the flag \<open>i\<close>), a plain object of operators, or, under \<open>$or\<close> and \<open>$and\<close>, a list of
  filters.
\<close>

datatype fvalue =
    FScalar js
  | FArr "js list"
  | FRegex string bool
  | FOps "(string \<times> fvalue) list"
  | FSubs "(string \<times> fvalue) list list"

type_synonym filt = "(string \<times> fvalue) list"

datatype cmp = Gt | Gte | Lt | Lte

datatype sql =
    SEq string nat
  | SContains string nat
  | SContainsText string nat
  | SCmp cmp string nat
  | SNotNull string
  | SIsNull string
  | SDistinct string nat
  | SAny string nat
  | SNotAny string nat
  | SFalse
  | STrue
  | SRegex bool string nat
  | SSizeEq string string
  | SSizeNe string string
  | SNot sql
  | SOps "sql list"
  | SOr "sql list list"
  | SGroup "sql list"

text \<open>A query parameter: arrays as arrays, anything else as its value.\<close>

fun fparam :: "fvalue \<Rightarrow> js" where
  "fparam (FScalar v) = v"
| "fparam (FArr xs) = JArr xs"
| "fparam v = JObj []"

fun fstring :: "fvalue \<Rightarrow> string" where
  "fstring (FScalar v) = js_String v"
| "fstring v = ''''"

fun ftruthy :: "fvalue \<Rightarrow> bool" where
  "ftruthy (FScalar v) = truthy v"
| "ftruthy v = True"

text \<open>The numeric \<open>$size\<close> under a \<open>$not\<close>, when there is one.\<close>

fun not_size :: "fvalue \<Rightarrow> int option" where
  "not_size (FOps ops) = (case map_of ops ''$size'' of Some (FScalar (JNum n)) \<Rightarrow> Some n | _ \<Rightarrow> None)"
| "not_size v = None"

section \<open>The compiler\<close>

text \<open>
  The compiler threads the parameter list, which only grows; \<open>$idx\<close> is one more than its
  length when the parameter is pushed.
\<close>

type_synonym 'a build = "js list \<Rightarrow> exn + ('a \<times> js list)"

definition push :: "js \<Rightarrow> (nat \<Rightarrow> sql) \<Rightarrow> sql build" where
  "push v mk params = Inr (mk (length params + 1), params @ [v])"

definition cmp_op :: "string \<Rightarrow> cmp option" where
  "cmp_op op = (if op = ''$gt'' then Some Gt else if op = ''$gte'' then Some Gte
     else if op = ''$lt'' then Some Lt else if op = ''$lte'' then Some Lte else None)"

text \<open>One operator other than \<open>$not\<close>: the \<open>switch\<close> of \<open>buildOperatorExpr\<close>.\<close>

definition build_op :: "string \<Rightarrow> string \<Rightarrow> fvalue \<Rightarrow> sql build" where
  "build_op col op v params =
     (case cmp_op op of
        Some c \<Rightarrow> push (fparam v) (SCmp c col) params
      | None \<Rightarrow>
          if op = ''$ne'' then
            (if v = FScalar JNull then Inr (SNotNull col, params) else push (fparam v) (SDistinct col) params)
          else if op = ''$exists'' then Inr (if ftruthy v then SNotNull col else SIsNull col, params)
          else if op = ''$in'' then
            (case v of
               FArr [] \<Rightarrow> Inr (SFalse, params)
             | FArr xs \<Rightarrow> push (JArr xs) (SAny col) params
             | _ \<Rightarrow> push (fparam v) (SAny col) params)
          else if op = ''$nin'' then
            (case v of
               FArr [] \<Rightarrow> Inr (STrue, params)
             | FArr xs \<Rightarrow> push (JArr xs) (SNotAny col) params
             | _ \<Rightarrow> push (fparam v) (SNotAny col) params)
          else if op = ''$regex'' then
            (case v of
               FRegex src ins \<Rightarrow> push (JStr src) (SRegex ins col) params
             | _ \<Rightarrow> push (JStr (fstring v)) (SRegex False col) params)
          else if op = ''$size'' then Inr (SSizeEq col (fstring v), params)
          else Inl (Error (''Unsupported operator: '' @ op)))"

fun buildExpr :: "string \<Rightarrow> fvalue \<Rightarrow> sql build"
  and buildOperatorExpr :: "string \<Rightarrow> string \<Rightarrow> (string \<times> fvalue) list \<Rightarrow> sql list build" where
  "buildExpr field v params =
     (case columnName field of
        Inl e \<Rightarrow> Inl e
      | Inr col \<Rightarrow>
          (case v of
             FOps ops \<Rightarrow>
               (case buildOperatorExpr field col ops params of
                  Inl e \<Rightarrow> Inl e
                | Inr (cs, ps) \<Rightarrow> Inr (SOps cs, ps))
           | FArr xs \<Rightarrow>
               (if field \<in> JSONB_FIELDS then push (JArr xs) (SContains col) params
                else push (JArr xs) (SEq col) params)
           | _ \<Rightarrow>
               (if field \<in> JSONB_FIELDS then push (fparam v) (SContainsText col) params
                else push (fparam v) (SEq col) params)))"
| "buildOperatorExpr field col [] params = Inr ([], params)"
| "buildOperatorExpr field col ((op, v) # ops) params =
     (case (if op = ''$not'' then
              (case not_size v of
                 Some n \<Rightarrow> Inr (SSizeNe col (show_int n), params)
               | None \<Rightarrow>
                   (case buildExpr field v params of
                      Inl e \<Rightarrow> Inl e
                    | Inr (c, ps) \<Rightarrow> Inr (SNot c, ps)))
            else build_op col op v params) of
        Inl e \<Rightarrow> Inl e
      | Inr (c, ps) \<Rightarrow>
          (case buildOperatorExpr field col ops ps of
             Inl e \<Rightarrow> Inl e
           | Inr (cs, ps') \<Rightarrow> Inr (c # cs, ps')))"

fun buildWhere :: "filt \<Rightarrow> sql list build"
  and buildSubs :: "filt list \<Rightarrow> sql list list build" where
  "buildWhere [] params = Inr ([], params)"
| "buildWhere ((key, v) # rest) params =
     (case (if key = ''$or'' then
              (case v of
                 FSubs subs \<Rightarrow>
                   (case buildSubs subs params of
                      Inl e \<Rightarrow> Inl e
                    | Inr (ws, ps) \<Rightarrow> Inr (if ws = [] then [] else [SOr ws], ps))
               | _ \<Rightarrow> Inl (Error ''subFilters is not iterable''))
            else if key = ''$and'' then
              (case v of
                 FSubs subs \<Rightarrow>
                   (case buildSubs subs params of
                      Inl e \<Rightarrow> Inl e
                    | Inr (ws, ps) \<Rightarrow> Inr (map SGroup (filter (\<lambda>w. w \<noteq> []) ws), ps))
               | _ \<Rightarrow> Inl (Error ''subFilters is not iterable''))
            else
              (case buildExpr key v params of
                 Inl e \<Rightarrow> Inl e
               | Inr (c, ps) \<Rightarrow> Inr ([c], ps))) of
        Inl e \<Rightarrow> Inl e
      | Inr (cs, ps) \<Rightarrow>
          (case buildWhere rest ps of
             Inl e \<Rightarrow> Inl e
           | Inr (cs', ps') \<Rightarrow> Inr (cs @ cs', ps')))"
| "buildSubs [] params = Inr ([], params)"
| "buildSubs (f # fs) params =
     (case buildWhere f params of
        Inl e \<Rightarrow> Inl e
      | Inr (w, ps) \<Rightarrow>
          (case buildSubs fs ps of
             Inl e \<Rightarrow> Inl e
           | Inr (ws, ps') \<Rightarrow> Inr (w # ws, ps')))"

section \<open>The text\<close>

definition placeholder :: "nat \<Rightarrow> string" where
  "placeholder i = CHR ''$'' # nat_digits i"

fun joined :: "string \<Rightarrow> string list \<Rightarrow> string" where
  "joined sep [] = []"
| "joined sep [s] = s"
| "joined sep (s # t # ss) = s @ sep @ joined sep (t # ss)"

fun cmp_text :: "cmp \<Rightarrow> string" where
  "cmp_text Gt = '' > ''"
| "cmp_text Gte = '' >= ''"
| "cmp_text Lt = '' < ''"
| "cmp_text Lte = '' <= ''"

fun render :: "sql \<Rightarrow> string" where
  "render (SEq c i) = ''('' @ c @ '' = '' @ placeholder i @ '')''"
| "render (SContains c i) = ''('' @ c @ '' @> '' @ placeholder i @ ''::jsonb)''"
| "render (SContainsText c i) = ''('' @ c @ '' @> to_jsonb('' @ placeholder i @ ''::text))''"
| "render (SCmp o' c i) = ''('' @ c @ cmp_text o' @ placeholder i @ '')''"
| "render (SNotNull c) = ''('' @ c @ '' IS NOT NULL)''"
| "render (SIsNull c) = ''('' @ c @ '' IS NULL)''"
| "render (SDistinct c i) = ''('' @ c @ '' IS DISTINCT FROM '' @ placeholder i @ '')''"
| "render (SAny c i) = ''('' @ c @ '' = ANY('' @ placeholder i @ ''))''"
| "render (SNotAny c i) = ''(NOT ('' @ c @ '' = ANY('' @ placeholder i @ '')))''"
| "render SFalse = ''(FALSE)''"
| "render STrue = ''(TRUE)''"
| "render (SRegex ins c i) = ''('' @ c @ (if ins then '' ~* '' else '' ~ '') @ placeholder i @ '')''"
| "render (SSizeEq c n) = ''(jsonb_array_length('' @ c @ '') = '' @ n @ '')''"
| "render (SSizeNe c n) = ''(jsonb_array_length('' @ c @ '') <> '' @ n @ '')''"
| "render (SNot s) = ''(NOT '' @ render s @ '')''"
| "render (SOps ss) = ''('' @ joined '' AND '' (map render ss) @ '')''"
| "render (SOr ws) = ''('' @ joined '' OR '' (map (\<lambda>w. ''('' @ joined '' AND '' (map render w) @ '')'') ws) @ '')''"
| "render (SGroup ss) = ''('' @ joined '' AND '' (map render ss) @ '')''"

definition where_text :: "sql list \<Rightarrow> string" where
  "where_text ss = joined '' AND '' (map render ss)"

section \<open>The meaning of a condition\<close>

datatype tri = T | F | U

fun tnot :: "tri \<Rightarrow> tri" where
  "tnot T = F" | "tnot F = T" | "tnot U = U"

fun tand :: "tri \<Rightarrow> tri \<Rightarrow> tri" where
  "tand F b = F" | "tand T b = b" | "tand U F = F" | "tand U b = U"

fun tor :: "tri \<Rightarrow> tri \<Rightarrow> tri" where
  "tor T b = T" | "tor F b = b" | "tor U T = T" | "tor U b = U"

definition tri :: "bool \<Rightarrow> tri" where
  "tri b = (if b then T else F)"

text \<open>SQL has one null; an undefined parameter is sent as null.\<close>

definition eq3 :: "js \<Rightarrow> js \<Rightarrow> tri" where
  "eq3 a b = (if nullish a \<or> nullish b then U else tri (a = b))"

definition distinct3 :: "js \<Rightarrow> js \<Rightarrow> tri" where
  "distinct3 a b = (if nullish a \<or> nullish b then tri (nullish a \<noteq> nullish b) else tri (a \<noteq> b))"

fun js_key :: "js \<Rightarrow> int option" where
  "js_key (JNum n) = Some n"
| "js_key (JDate t) = Some t"
| "js_key v = None"

fun cmp_holds :: "cmp \<Rightarrow> int \<Rightarrow> int \<Rightarrow> bool" where
  "cmp_holds Gt a b = (b < a)"
| "cmp_holds Gte a b = (b \<le> a)"
| "cmp_holds Lt a b = (a < b)"
| "cmp_holds Lte a b = (a \<le> b)"

text \<open>The ordered columns that are queried are numbers and timestamps.\<close>

definition cmp3 :: "cmp \<Rightarrow> js \<Rightarrow> js \<Rightarrow> tri" where
  "cmp3 c a b = (case (js_key a, js_key b) of (Some x, Some y) \<Rightarrow> tri (cmp_holds c x y) | _ \<Rightarrow> U)"

fun elems :: "js \<Rightarrow> js list" where
  "elems (JArr xs) = xs"
| "elems v = []"

definition contains3 :: "js \<Rightarrow> js list \<Rightarrow> tri" where
  "contains3 a xs = (if nullish a then U else tri (set xs \<subseteq> set (elems a)))"

definition any3 :: "js \<Rightarrow> js \<Rightarrow> tri" where
  "any3 a xs = (if nullish a \<or> nullish xs then U
     else if a \<in> set (elems xs) then T else if list_ex nullish (elems xs) then U else F)"

definition size3 :: "js \<Rightarrow> string \<Rightarrow> tri" where
  "size3 a n = (if nullish a then U
     else case parseInt n of None \<Rightarrow> U | Some k \<Rightarrow> tri (int (length (elems a)) = k))"

definition regex3 :: "(string \<Rightarrow> bool \<Rightarrow> string \<Rightarrow> bool) \<Rightarrow> js \<Rightarrow> bool \<Rightarrow> js \<Rightarrow> tri" where
  "regex3 re a ins pat = (case (a, pat) of (JStr s, JStr p) \<Rightarrow> tri (re p ins s) | _ \<Rightarrow> U)"

type_synonym regex_engine = "string \<Rightarrow> bool \<Rightarrow> string \<Rightarrow> bool"

type_synonym row = "string \<Rightarrow> js"

definition param :: "js list \<Rightarrow> nat \<Rightarrow> js" where
  "param ps i = ps ! (i - 1)"

definition text3 :: "js \<Rightarrow> js \<Rightarrow> tri" where
  "text3 a v = (if nullish v then U else contains3 a [JStr (js_String v)])"

fun eval :: "regex_engine \<Rightarrow> row \<Rightarrow> js list \<Rightarrow> sql \<Rightarrow> tri" where
  "eval re r ps (SEq c i) = eq3 (r c) (param ps i)"
| "eval re r ps (SContains c i) = contains3 (r c) (elems (param ps i))"
| "eval re r ps (SContainsText c i) = text3 (r c) (param ps i)"
| "eval re r ps (SCmp o' c i) = cmp3 o' (r c) (param ps i)"
| "eval re r ps (SNotNull c) = tri (\<not> nullish (r c))"
| "eval re r ps (SIsNull c) = tri (nullish (r c))"
| "eval re r ps (SDistinct c i) = distinct3 (r c) (param ps i)"
| "eval re r ps (SAny c i) = any3 (r c) (param ps i)"
| "eval re r ps (SNotAny c i) = tnot (any3 (r c) (param ps i))"
| "eval re r ps SFalse = F"
| "eval re r ps STrue = T"
| "eval re r ps (SRegex ins c i) = regex3 re (r c) ins (param ps i)"
| "eval re r ps (SSizeEq c n) = size3 (r c) n"
| "eval re r ps (SSizeNe c n) = tnot (size3 (r c) n)"
| "eval re r ps (SNot s) = tnot (eval re r ps s)"
| "eval re r ps (SOps ss) = foldr tand (map (eval re r ps) ss) T"
| "eval re r ps (SOr ws) = foldr tor (map (\<lambda>w. foldr tand (map (eval re r ps) w) T) ws) F"
| "eval re r ps (SGroup ss) = foldr tand (map (eval re r ps) ss) T"

definition eval_where :: "regex_engine \<Rightarrow> row \<Rightarrow> js list \<Rightarrow> sql list \<Rightarrow> tri" where
  "eval_where re r ps ss = foldr tand (map (eval re r ps) ss) T"

text \<open>The placeholders of a condition, from left to right.\<close>

fun holes :: "sql \<Rightarrow> nat list" where
  "holes (SEq c i) = [i]"
| "holes (SContains c i) = [i]"
| "holes (SContainsText c i) = [i]"
| "holes (SCmp o' c i) = [i]"
| "holes (SNotNull c) = []"
| "holes (SIsNull c) = []"
| "holes (SDistinct c i) = [i]"
| "holes (SAny c i) = [i]"
| "holes (SNotAny c i) = [i]"
| "holes SFalse = []"
| "holes STrue = []"
| "holes (SRegex ins c i) = [i]"
| "holes (SSizeEq c n) = []"
| "holes (SSizeNe c n) = []"
| "holes (SNot s) = holes s"
| "holes (SOps ss) = concat (map holes ss)"
| "holes (SOr ws) = concat (map (\<lambda>w. concat (map holes w)) ws)"
| "holes (SGroup ss) = concat (map holes ss)"

section \<open>The meaning of a filter\<close>

text \<open>The same values read directly from the filter, without parameters.\<close>

definition match_op :: "regex_engine \<Rightarrow> js \<Rightarrow> string \<Rightarrow> fvalue \<Rightarrow> tri" where
  "match_op re a op v =
     (case cmp_op op of
        Some c \<Rightarrow> cmp3 c a (fparam v)
      | None \<Rightarrow>
          if op = ''$ne'' then (if v = FScalar JNull then tri (\<not> nullish a) else distinct3 a (fparam v))
          else if op = ''$exists'' then tri (nullish a \<noteq> ftruthy v)
          else if op = ''$in'' then (if v = FArr [] then F else any3 a (fparam v))
          else if op = ''$nin'' then (if v = FArr [] then T else tnot (any3 a (fparam v)))
          else if op = ''$regex'' then
            (case v of FRegex src ins \<Rightarrow> regex3 re a ins (JStr src) | _ \<Rightarrow> regex3 re a False (JStr (fstring v)))
          else size3 a (fstring v))"

definition field_value :: "row \<Rightarrow> string \<Rightarrow> js" where
  "field_value r field = (case columnName field of Inl e \<Rightarrow> JUndef | Inr col \<Rightarrow> r col)"

fun matchExpr :: "regex_engine \<Rightarrow> row \<Rightarrow> string \<Rightarrow> fvalue \<Rightarrow> tri"
  and matchOps :: "regex_engine \<Rightarrow> row \<Rightarrow> string \<Rightarrow> (string \<times> fvalue) list \<Rightarrow> tri" where
  "matchExpr re r field v =
     (let a = field_value r field
      in case v of
           FOps ops \<Rightarrow> matchOps re r field ops
         | FArr xs \<Rightarrow> (if field \<in> JSONB_FIELDS then contains3 a xs else eq3 a (JArr xs))
         | _ \<Rightarrow> (if field \<in> JSONB_FIELDS then text3 a (fparam v) else eq3 a (fparam v)))"
| "matchOps re r field [] = T"
| "matchOps re r field ((op, v) # ops) =
     tand (if op = ''$not'' then
             (case not_size v of
                Some n \<Rightarrow> tnot (size3 (field_value r field) (show_int n))
              | None \<Rightarrow> tnot (matchExpr re r field v))
           else match_op re (field_value r field) op v)
          (matchOps re r field ops)"

fun matches :: "regex_engine \<Rightarrow> row \<Rightarrow> filt \<Rightarrow> tri"
  and match_any :: "regex_engine \<Rightarrow> row \<Rightarrow> filt list \<Rightarrow> tri"
  and match_all :: "regex_engine \<Rightarrow> row \<Rightarrow> filt list \<Rightarrow> tri" where
  "matches re r [] = T"
| "matches re r ((key, v) # rest) =
     tand (if key = ''$or'' then
             (case v of FSubs subs \<Rightarrow> (if subs = [] then T else match_any re r subs) | _ \<Rightarrow> U)
           else if key = ''$and'' then
             (case v of FSubs subs \<Rightarrow> match_all re r subs | _ \<Rightarrow> U)
           else matchExpr re r key v)
          (matches re r rest)"
| "match_any re r [] = F"
| "match_any re r (f # fs) = tor (matches re r f) (match_any re r fs)"
| "match_all re r [] = T"
| "match_all re r (f # fs) = tand (matches re r f) (match_all re r fs)"

section \<open>Compiler correctness\<close>

lemma tand_T [simp]: "tand a T = a" by (cases a) simp_all
lemma tand_assoc: "tand (tand a b) c = tand a (tand b c)" by (cases a; cases b; cases c) simp_all
lemma tor_F [simp]: "tor a F = a" by (cases a) simp_all

lemma foldr_tand: "NO_MATCH T b \<Longrightarrow> foldr tand xs b = tand (foldr tand xs T) b"
  by (induction xs) (simp_all add: tand_assoc)

lemma eval_where_simps [simp]:
  "eval_where re r ps [] = T"
  "eval_where re r ps (s # ss) = tand (eval re r ps s) (eval_where re r ps ss)"
  "eval_where re r ps (ss @ ss') = tand (eval_where re r ps ss) (eval_where re r ps ss')"
  by (simp_all add: eval_where_def foldr_tand)

text \<open>
  A parameter list that begins with what the compiler has collected: later pushes do not disturb
  the values already referred to.
\<close>

definition ext :: "js list \<Rightarrow> js list \<Rightarrow> bool" where
  "ext ps qs \<longleftrightarrow> (\<exists>rest. qs = ps @ rest)"

lemma ext_refl [simp]: "ext ps ps" by (simp add: ext_def)
lemma ext_trans: "ext ps qs \<Longrightarrow> ext qs rs \<Longrightarrow> ext ps rs" by (auto simp: ext_def)
lemma ext_snoc: "ext (ps @ [v]) qs \<Longrightarrow> param qs (length ps + 1) = v \<and> ext ps qs"
  by (auto simp: ext_def param_def nth_append)

definition compiled :: "js list \<Rightarrow> js list \<Rightarrow> nat list \<Rightarrow> bool" where
  "compiled ps ps' hs \<longleftrightarrow> ext ps ps' \<and> hs = [length ps + 1..<length ps' + 1]"

lemma compiled_nil [simp]: "compiled ps ps []" by (simp add: compiled_def)

lemma compiled_push: "compiled ps (ps @ [v]) [Suc (length ps)]"
  by (simp add: compiled_def ext_def)

lemma upt_glue: "a \<le> b \<Longrightarrow> b \<le> c \<Longrightarrow> [a..<b] @ [b..<c] = [a..<c]"
  by (metis upt_add_eq_append le_add_diff_inverse)

lemma compiled_append: "compiled ps ps' hs \<Longrightarrow> compiled ps' ps'' hs' \<Longrightarrow> compiled ps ps'' (hs @ hs')"
  by (auto simp: compiled_def ext_def upt_glue simp del: upt_Suc)

lemma compiled_ext: "compiled ps ps' hs \<Longrightarrow> ext ps ps'" by (simp add: compiled_def)

lemma push_correct:
  assumes "push v mk ps = Inr (c, ps')"
  shows "c = mk (length ps + 1)" and "ps' = ps @ [v]"
  using assms by (simp_all add: push_def)

lemma build_op_correct:
  assumes "build_op col op v ps = Inr (c, ps')" and "r col = a"
  shows "compiled ps ps' (holes c) \<and> (ext ps' qs \<longrightarrow> eval re r qs c = match_op re a op v)"
  using assms
  by (auto simp: build_op_def match_op_def push_def compiled_push cmp_op_def tri_def dest!: ext_snoc
      split: option.splits if_splits fvalue.splits list.splits)

lemma buildExpr_correct:
  "buildExpr field v ps = Inr (c, ps') \<Longrightarrow>
     compiled ps ps' (holes c) \<and> (ext ps' qs \<longrightarrow> eval re r qs c = matchExpr re r field v)"
  "buildOperatorExpr field col ops ps = Inr (cs, ps') \<Longrightarrow> columnName field = Inr col \<Longrightarrow>
     compiled ps ps' (concat (map holes cs)) \<and>
     (ext ps' qs \<longrightarrow> foldr tand (map (eval re r qs) cs) T = matchOps re r field ops)"
proof (induction field v ps and field col ops ps arbitrary: c ps' and cs ps' rule: buildExpr_buildOperatorExpr.induct)
  case (1 field v params)
  from "1.prems" obtain col where col: "columnName field = Inr col" by (auto split: sum.splits)
  have fv: "field_value r field = r col" by (simp add: field_value_def col)
  show ?case
  proof (cases "\<exists>ops. v = FOps ops")
    case True
    then obtain ops where v: "v = FOps ops" by blast
    from "1.prems" obtain cs where cs: "buildOperatorExpr field col ops params = Inr (cs, ps')" "c = SOps cs"
      by (auto simp: col v split: sum.splits)
    from "1.IH" [OF col v cs(1) col] show ?thesis by (simp add: cs(2) v)
  next
    case False
    with "1.prems" show ?thesis
      by (auto simp: col fv push_def compiled_push dest!: ext_snoc split: fvalue.splits if_splits)
  qed
next
  case (2 field col params)
  then show ?case by simp
next
  case (3 field col op v ops params)
  have fv: "field_value r field = r col" by (simp add: field_value_def "3.prems"(2))
  let ?first = "if op = ''$not'' then
              (case not_size v of
                 Some n \<Rightarrow> Inr (SSizeNe col (show_int n), params)
               | None \<Rightarrow>
                   (case buildExpr field v params of
                      Inl e \<Rightarrow> Inl e
                    | Inr (c, ps) \<Rightarrow> Inr (SNot c, ps)))
            else build_op col op v params"
  from "3.prems"(1) obtain c ps1 cs1 where f: "?first = Inr (c, ps1)"
    and rest: "buildOperatorExpr field col ops ps1 = Inr (cs1, ps')" and cs: "cs = c # cs1"
    by (auto split: sum.splits)
  have one: "compiled params ps1 (holes c) \<and> (ext ps1 qs \<longrightarrow> eval re r qs c =
      (if op = ''$not'' then
         (case not_size v of
            Some n \<Rightarrow> tnot (size3 (field_value r field) (show_int n))
          | None \<Rightarrow> tnot (matchExpr re r field v))
       else match_op re (field_value r field) op v))"
  proof (cases "op = ''$not''")
    case True
    show ?thesis
    proof (cases "not_size v")
      case None
      with f True obtain c' where c': "buildExpr field v params = Inr (c', ps1)" "c = SNot c'"
        by (auto split: sum.splits)
      from "3.IH"(1) [OF True None c'(1)] show ?thesis by (simp add: True None c'(2) del: buildExpr.simps matchExpr.simps)
    next
      case (Some n)
      with f True show ?thesis by (auto simp: fv)
    qed
  next
    case False
    with f build_op_correct [of col op v params c ps1 r "r col" qs re] show ?thesis by (simp add: fv)
  qed
  from "3.IH"(2) [OF f refl rest "3.prems"(2)] one show ?case
    by (auto simp: cs dest: compiled_append compiled_ext intro: ext_trans)
qed

lemma holes_groups:
  "concat (map holes (map SGroup (filter (\<lambda>w. w \<noteq> []) us))) = concat (map (\<lambda>w. concat (map holes w)) us)"
  by (induction us) auto

lemma eval_groups:
  "eval_where re r qs (map SGroup (filter (\<lambda>w. w \<noteq> []) us)) = foldr tand (map (eval_where re r qs) us) T"
  by (induction us) (auto simp: eval_where_def)

lemma eval_ors: "eval_where re r qs [SOr ws] = foldr tor (map (eval_where re r qs) ws) F"
  by (simp add: eval_where_def [abs_def])

lemma buildWhere_parts:
  "buildWhere f ps = Inr (cs, ps') \<Longrightarrow>
     compiled ps ps' (concat (map holes cs)) \<and> (ext ps' qs \<longrightarrow> eval_where re r qs cs = matches re r f)"
  "buildSubs fs ps = Inr (ws, ps') \<Longrightarrow>
     compiled ps ps' (concat (map (\<lambda>w. concat (map holes w)) ws)) \<and> length ws = length fs \<and>
     (ext ps' qs \<longrightarrow> foldr tor (map (eval_where re r qs) ws) F = match_any re r fs
        \<and> foldr tand (map (eval_where re r qs) ws) T = match_all re r fs)"
proof (induction f ps and fs ps arbitrary: cs ps' and ws ps' rule: buildWhere_buildSubs.induct)
  case (2 key v rest params)
  let ?first = "if key = ''$or'' then
              (case v of
                 FSubs subs \<Rightarrow>
                   (case buildSubs subs params of
                      Inl e \<Rightarrow> Inl e
                    | Inr (ws, ps) \<Rightarrow> Inr (if ws = [] then [] else [SOr ws], ps))
               | _ \<Rightarrow> Inl (Error ''subFilters is not iterable''))
            else if key = ''$and'' then
              (case v of
                 FSubs subs \<Rightarrow>
                   (case buildSubs subs params of
                      Inl e \<Rightarrow> Inl e
                    | Inr (ws, ps) \<Rightarrow> Inr (map SGroup (filter (\<lambda>w. w \<noteq> []) ws), ps))
               | _ \<Rightarrow> Inl (Error ''subFilters is not iterable''))
            else
              (case buildExpr key v params of
                 Inl e \<Rightarrow> Inl e
               | Inr (c, ps) \<Rightarrow> Inr ([c], ps))"
  from "2.prems" obtain cs1 ps1 cs2 where f: "?first = Inr (cs1, ps1)"
    and rest: "buildWhere rest ps1 = Inr (cs2, ps')" and cs: "cs = cs1 @ cs2"
    by (auto split: sum.splits)
  have one: "compiled params ps1 (concat (map holes cs1)) \<and> (ext ps1 qs \<longrightarrow> eval_where re r qs cs1 =
      (if key = ''$or'' then
         (case v of FSubs subs \<Rightarrow> (if subs = [] then T else match_any re r subs) | _ \<Rightarrow> U)
       else if key = ''$and'' then
         (case v of FSubs subs \<Rightarrow> match_all re r subs | _ \<Rightarrow> U)
       else matchExpr re r key v))"
  proof (cases "key = ''$or'' \<or> key = ''$and''")
    case True
    with f obtain subs ws where s: "v = FSubs subs" "buildSubs subs params = Inr (ws, ps1)"
      "cs1 = (if key = ''$or'' then if ws = [] then [] else [SOr ws] else map SGroup (filter (\<lambda>w. w \<noteq> []) ws))"
      by (auto split: if_splits fvalue.splits sum.splits)
    have IH: "compiled params ps1 (concat (map (\<lambda>w. concat (map holes w)) ws)) \<and> length ws = length subs \<and>
     (ext ps1 qs \<longrightarrow> foldr tor (map (eval_where re r qs) ws) F = match_any re r subs
        \<and> foldr tand (map (eval_where re r qs) ws) T = match_all re r subs)"
    proof (cases "key = ''$or''")
      case True
      then show ?thesis using "2.IH"(1) s(1,2) by simp
    next
      case False
      then show ?thesis using "2.IH"(2) s(1,2) True by simp
    qed
    from IH show ?thesis
    proof (cases "key = ''$or''")
      case True
      with IH s(3) eval_ors [of re r qs ws] show ?thesis by (auto simp: s(1))
    next
      case False
      then have cs1: "cs1 = map SGroup (filter (\<lambda>w. w \<noteq> []) ws)" by (simp add: s(3))
      show ?thesis unfolding cs1 holes_groups eval_groups
        using IH False \<open>key = ''$or'' \<or> key = ''$and''\<close> by (simp add: s(1))
    qed
  next
    case False
    with f obtain c where c: "buildExpr key v params = Inr (c, ps1)" "cs1 = [c]"
      by (auto split: sum.splits)
    from buildExpr_correct(1) [OF c(1), of qs re r] False c(2) show ?thesis by simp
  qed
  from "2.IH"(3) [OF f refl rest] one show ?case
    by (auto simp: cs dest: compiled_append compiled_ext intro: ext_trans)
next
  case (4 f fs params)
  from "4.prems" obtain w ps1 ws1 where w: "buildWhere f params = Inr (w, ps1)"
    and rest: "buildSubs fs ps1 = Inr (ws1, ps')" and ws: "ws = w # ws1"
    by (auto split: sum.splits)
  from "4.IH"(1) [OF w] "4.IH"(2) [OF w refl rest] show ?case
    by (auto simp: ws dest: compiled_append compiled_ext intro: ext_trans)
qed simp_all



definition sample_filter :: filt where
  "sample_filter = [(''$or'', FSubs [[(''email'', FScalar (JStr ''a@b.c''))], [(''previousEmail'', FScalar (JStr ''a@b.c''))]]),
     (''loginCount'', FOps [(''$lt'', FScalar (JNum 5)), (''$not'', FOps [(''$size'', FScalar (JNum 0))])])]"

definition sample_sql :: "sql list" where
  "sample_sql = [SOr [[SEq ''email'' 1], [SEq ''previous_email'' 2]],
     SOps [SCmp Lt ''login_count'' 3, SSizeNe ''login_count'' ''0'']]"

lemma sample_compiled:
  "buildWhere sample_filter [] = Inr (sample_sql, [JStr ''a@b.c'', JStr ''a@b.c'', JNum 5])"
  unfolding sample_filter_def sample_sql_def by code_simp


section \<open>The text is closed\<close>

text \<open>
  The characters of column names, keywords, placeholders and numerals: no quote, no semicolon, no
  comment and no line break.
\<close>

definition SQL_CHARS :: string where
  "SQL_CHARS = ''ABCDEFGHIJKLMNOPQRSTUVWXYZabcdefghijklmnopqrstuvwxyz0123456789_ ()$=<>@:~*-''"

definition safe_text :: "string \<Rightarrow> bool" where
  "safe_text s = (set s \<subseteq> set SQL_CHARS)"

fun numeric_sizes :: "fvalue \<Rightarrow> bool" where
  "numeric_sizes (FOps ops) =
     list_all (\<lambda>(op, v). (op = ''$size'' \<longrightarrow> (case v of FScalar (JNum n) \<Rightarrow> True | _ \<Rightarrow> False)) \<and> numeric_sizes v) ops"
| "numeric_sizes (FSubs subs) = list_all (list_all (\<lambda>(k, v). numeric_sizes v)) subs"
| "numeric_sizes v = True"

lemma safe_text_simps [simp]:
  "safe_text []" "safe_text (c # s) \<longleftrightarrow> c \<in> set SQL_CHARS \<and> safe_text s"
  "safe_text (s @ s') \<longleftrightarrow> safe_text s \<and> safe_text s'"
  by (auto simp: safe_text_def)

lemma safe_columns: "columnName field = Inr col \<Longrightarrow> safe_text col"
proof -
  assume a: "columnName field = Inr col"
  have "list_all safe_text (''id'' # map snd FIELD_TO_COLUMN)" unfolding safe_text_def by code_simp
  with a show ?thesis
    by (auto simp: columnName_def list_all_iff dest!: map_of_SomeD split: if_splits option.splits)
qed

lemma safe_digits: "safe_text (nat_digits n)"
proof (induction n rule: nat_digits.induct)
  case (1 n)
  have "list_all (\<lambda>k. char_of (48 + k) \<in> set SQL_CHARS) [0..<10::nat]" by code_simp
  then have d: "(char_of (48 + k) :: char) \<in> set SQL_CHARS" if "k < 10" for k :: nat
    using that by (auto simp: list_all_iff)
  from d [of "n mod 10"] d [of n] 1 show ?case by (subst nat_digits.simps) (simp del: nat_digits.simps)
qed

lemma sql_chars:
  "CHR '' '' \<in> set SQL_CHARS" "CHR ''$'' \<in> set SQL_CHARS" "CHR ''('' \<in> set SQL_CHARS"
  "CHR '')'' \<in> set SQL_CHARS" "CHR ''*'' \<in> set SQL_CHARS" "CHR ''-'' \<in> set SQL_CHARS"
  "CHR '':'' \<in> set SQL_CHARS" "CHR ''<'' \<in> set SQL_CHARS" "CHR ''='' \<in> set SQL_CHARS"
  "CHR ''>'' \<in> set SQL_CHARS" "CHR ''@'' \<in> set SQL_CHARS" "CHR ''A'' \<in> set SQL_CHARS"
  "CHR ''C'' \<in> set SQL_CHARS" "CHR ''D'' \<in> set SQL_CHARS" "CHR ''E'' \<in> set SQL_CHARS"
  "CHR ''F'' \<in> set SQL_CHARS" "CHR ''I'' \<in> set SQL_CHARS" "CHR ''L'' \<in> set SQL_CHARS"
  "CHR ''M'' \<in> set SQL_CHARS" "CHR ''N'' \<in> set SQL_CHARS" "CHR ''O'' \<in> set SQL_CHARS"
  "CHR ''R'' \<in> set SQL_CHARS" "CHR ''S'' \<in> set SQL_CHARS" "CHR ''T'' \<in> set SQL_CHARS"
  "CHR ''U'' \<in> set SQL_CHARS" "CHR ''Y'' \<in> set SQL_CHARS" "CHR ''_'' \<in> set SQL_CHARS"
  "CHR ''a'' \<in> set SQL_CHARS" "CHR ''b'' \<in> set SQL_CHARS" "CHR ''e'' \<in> set SQL_CHARS"
  "CHR ''g'' \<in> set SQL_CHARS" "CHR ''h'' \<in> set SQL_CHARS" "CHR ''j'' \<in> set SQL_CHARS"
  "CHR ''l'' \<in> set SQL_CHARS" "CHR ''n'' \<in> set SQL_CHARS" "CHR ''o'' \<in> set SQL_CHARS"
  "CHR ''r'' \<in> set SQL_CHARS" "CHR ''s'' \<in> set SQL_CHARS" "CHR ''t'' \<in> set SQL_CHARS"
  "CHR ''x'' \<in> set SQL_CHARS" "CHR ''y'' \<in> set SQL_CHARS" "CHR ''~'' \<in> set SQL_CHARS"
  by (simp_all add: SQL_CHARS_def)

lemma safe_show_int: "safe_text (show_int n)" and safe_placeholder: "safe_text (placeholder i)"
  by (simp_all add: show_int_def placeholder_def safe_digits sql_chars del: nat_digits.simps)

lemma safe_joined: "safe_text sep \<Longrightarrow> list_all safe_text ss \<Longrightarrow> safe_text (joined sep ss)"
  by (induction sep ss rule: joined.induct) simp_all

lemma safe_and: "safe_text '' AND ''" and safe_or: "safe_text '' OR ''"
  by (simp_all add: sql_chars)

lemma safe_render_atoms:
  "safe_text (render (SEq c i)) = safe_text c"
  "safe_text (render (SContains c i)) = safe_text c"
  "safe_text (render (SContainsText c i)) = safe_text c"
  "safe_text (render (SCmp o' c i)) = safe_text c"
  "safe_text (render (SNotNull c)) = safe_text c"
  "safe_text (render (SIsNull c)) = safe_text c"
  "safe_text (render (SDistinct c i)) = safe_text c"
  "safe_text (render (SAny c i)) = safe_text c"
  "safe_text (render (SNotAny c i)) = safe_text c"
  "safe_text (render SFalse)"
  "safe_text (render STrue)"
  "safe_text (render (SRegex ins c i)) = safe_text c"
  "safe_text (render (SSizeEq c n)) = (safe_text c \<and> safe_text n)"
  "safe_text (render (SSizeNe c n)) = (safe_text c \<and> safe_text n)"
  "safe_text (render (SNot s)) = safe_text (render s)"
  by (cases o'; simp add: safe_placeholder sql_chars)+

lemma safe_render_lists:
  "list_all (\<lambda>s. safe_text (render s)) ss \<Longrightarrow> safe_text (where_text ss)"
  "list_all (\<lambda>s. safe_text (render s)) ss \<Longrightarrow> safe_text (render (SOps ss))"
  "list_all (\<lambda>s. safe_text (render s)) ss \<Longrightarrow> safe_text (render (SGroup ss))"
  "list_all (list_all (\<lambda>s. safe_text (render s))) ws \<Longrightarrow> safe_text (render (SOr ws))"
  by (auto simp: where_text_def sql_chars list_all_iff intro!: safe_joined)

lemma safe_build_op:
  assumes "build_op col op v ps = Inr (c, ps')" and "safe_text col"
    and "op = ''$size'' \<longrightarrow> (case v of FScalar (JNum n) \<Rightarrow> True | _ \<Rightarrow> False)"
  shows "safe_text (render c)"
  using assms
  by (auto simp: build_op_def push_def safe_render_atoms safe_show_int simp del: render.simps
      split: option.splits if_splits fvalue.splits list.splits js.splits)

lemma safe_buildExpr:
  "buildExpr field v ps = Inr (c, ps') \<Longrightarrow> numeric_sizes v \<Longrightarrow> safe_text (render c)"
  "buildOperatorExpr field col ops ps = Inr (cs, ps') \<Longrightarrow> numeric_sizes (FOps ops) \<Longrightarrow> safe_text col \<Longrightarrow>
     list_all (\<lambda>s. safe_text (render s)) cs"
proof (induction field v ps and field col ops ps arbitrary: c ps' and cs ps' rule: buildExpr_buildOperatorExpr.induct)
  case (1 field v params)
  from "1.prems" obtain col where col: "columnName field = Inr col" by (auto split: sum.splits)
  note safe = safe_columns [OF col]
  show ?case
  proof (cases "\<exists>ops. v = FOps ops")
    case True
    then obtain ops where v: "v = FOps ops" by blast
    from "1.prems" obtain cs where cs: "buildOperatorExpr field col ops params = Inr (cs, ps')" "c = SOps cs"
      by (auto simp: col v split: sum.splits)
    from "1.IH" [OF col v cs(1) "1.prems"(2) [unfolded v] safe] show ?thesis
      unfolding cs(2) by (rule safe_render_lists)
  next
    case False
    with "1.prems" safe show ?thesis
      by (auto simp: col push_def safe_render_atoms simp del: render.simps split: fvalue.splits if_splits)
  qed
next
  case (3 field col op v ops params)
  from "3.prems"(1) obtain c ps1 cs1 where f: "(if op = ''$not'' then
              (case not_size v of
                 Some n \<Rightarrow> Inr (SSizeNe col (show_int n), params)
               | None \<Rightarrow>
                   (case buildExpr field v params of
                      Inl e \<Rightarrow> Inl e
                    | Inr (c, ps) \<Rightarrow> Inr (SNot c, ps)))
            else build_op col op v params) = Inr (c, ps1)"
    and rest: "buildOperatorExpr field col ops ps1 = Inr (cs1, ps')" and cs: "cs = c # cs1"
    by (auto split: sum.splits)
  have "safe_text (render c)"
  proof (cases "op = ''$not'' \<and> not_size v = None")
    case True
    with f obtain c' where c': "buildExpr field v params = Inr (c', ps1)" "c = SNot c'"
      by (auto split: sum.splits)
    from "3.IH"(1) [OF conjunct1 [OF True] conjunct2 [OF True] c'(1)] "3.prems"(2) show ?thesis
      by (simp add: c'(2) safe_render_atoms del: render.simps)
  next
    case False
    with f "3.prems"(2,3) show ?thesis
      by (cases "op = ''$not''")
        (auto simp: safe_render_atoms safe_show_int simp del: render.simps intro: safe_build_op)
  qed
  with "3.IH"(2) [OF f refl rest] "3.prems"(2,3) show ?case by (simp add: cs)
qed simp

lemma safe_buildWhere:
  "buildWhere f ps = Inr (cs, ps') \<Longrightarrow> list_all (\<lambda>(k, v). numeric_sizes v) f \<Longrightarrow>
     list_all (\<lambda>s. safe_text (render s)) cs"
  "buildSubs fs ps = Inr (ws, ps') \<Longrightarrow> list_all (list_all (\<lambda>(k, v). numeric_sizes v)) fs \<Longrightarrow>
     list_all (list_all (\<lambda>s. safe_text (render s))) ws"
proof (induction f ps and fs ps arbitrary: cs ps' and ws ps' rule: buildWhere_buildSubs.induct)
  case (2 key v rest params)
  from "2.prems"(1) obtain cs1 ps1 cs2 where f: "(if key = ''$or'' then
              (case v of
                 FSubs subs \<Rightarrow>
                   (case buildSubs subs params of
                      Inl e \<Rightarrow> Inl e
                    | Inr (ws, ps) \<Rightarrow> Inr (if ws = [] then [] else [SOr ws], ps))
               | _ \<Rightarrow> Inl (Error ''subFilters is not iterable''))
            else if key = ''$and'' then
              (case v of
                 FSubs subs \<Rightarrow>
                   (case buildSubs subs params of
                      Inl e \<Rightarrow> Inl e
                    | Inr (ws, ps) \<Rightarrow> Inr (map SGroup (filter (\<lambda>w. w \<noteq> []) ws), ps))
               | _ \<Rightarrow> Inl (Error ''subFilters is not iterable''))
            else
              (case buildExpr key v params of
                 Inl e \<Rightarrow> Inl e
               | Inr (c, ps) \<Rightarrow> Inr ([c], ps))) = Inr (cs1, ps1)"
    and rest: "buildWhere rest ps1 = Inr (cs2, ps')" and cs: "cs = cs1 @ cs2"
    by (auto split: sum.splits)
  have "list_all (\<lambda>s. safe_text (render s)) cs1"
  proof (cases "key = ''$or'' \<or> key = ''$and''")
    case True
    with f obtain subs ws where s: "v = FSubs subs" "buildSubs subs params = Inr (ws, ps1)"
      "cs1 = (if key = ''$or'' then if ws = [] then [] else [SOr ws] else map SGroup (filter (\<lambda>w. w \<noteq> []) ws))"
      by (auto split: if_splits fvalue.splits sum.splits)
    from "2.prems"(2) s(1) have n: "list_all (list_all (\<lambda>(k, v). numeric_sizes v)) subs" by simp
    have "list_all (list_all (\<lambda>s. safe_text (render s))) ws"
      using True "2.IH"(1,2) s(1,2) n by (cases "key = ''$or''") simp_all
    then show ?thesis
      by (auto simp: s(3) list_all_iff simp del: render.simps intro!: safe_render_lists(3,4))
  next
    case False
    with f obtain c where c: "buildExpr key v params = Inr (c, ps1)" "cs1 = [c]"
      by (auto split: sum.splits)
    with safe_buildExpr(1) [OF c(1)] "2.prems"(2) show ?thesis by simp
  qed
  with "2.IH"(3) [OF f refl rest] "2.prems"(2) show ?case by (simp add: cs)
next
  case (4 f fs params)
  from "4.prems"(1) obtain w ps1 ws1 where w: "buildWhere f params = Inr (w, ps1)"
    and rest: "buildSubs fs ps1 = Inr (ws1, ps')" and ws: "ws = w # ws1"
    by (auto split: sum.splits)
  from "4.IH"(1) [OF w] "4.IH"(2) [OF w refl rest] "4.prems"(2) show ?case by (simp add: ws)
qed simp_all


lemma sample_numeric: "list_all (\<lambda>(k, v). numeric_sizes v) sample_filter"
  by (simp add: sample_filter_def)

lemma sample_text: "where_text sample_sql =
  ''(((email = $1)) OR ((previous_email = $2))) AND ((login_count < $3) AND (jsonb_array_length(login_count) <> 0))''"
  unfolding sample_sql_def by code_simp


end
