(* ===== verification/Database.thy ===== *)
theory Database
  imports Where_Filter
begin

text \<open>
  The tables of \<open>db/migrations.ts\<close> (which \<open>db/schema.ts\<close> mirrors) as the queries of the
  backend see them: columns with types, defaults and constraints, rows in storage order, and the
  statements the code issues. Any statement may fail for a reason outside the program; the list
  \<open>faults\<close> says which of the coming statements do, so that what holds for every such list holds
  whatever the database does. The state of the two tables is an invariant: it satisfies the
  constraints after every statement.
\<close>

section \<open>Columns\<close>

datatype coltype = TText | TBool | TInt | TTime | TJson

text \<open>The default of a column may read the clock.\<close>

record column =
  c_name :: string
  c_type :: coltype
  c_notnull :: bool
  c_default :: "ms \<Rightarrow> js"

definition col :: "string \<Rightarrow> coltype \<Rightarrow> column" where
  "col name ty = \<lparr>c_name = name, c_type = ty, c_notnull = False, c_default = (\<lambda>_. JNull)\<rparr>"

definition col_required :: "string \<Rightarrow> coltype \<Rightarrow> column" where
  "col_required name ty = (col name ty)\<lparr>c_notnull := True\<rparr>"

definition col_default :: "string \<Rightarrow> coltype \<Rightarrow> js \<Rightarrow> column" where
  "col_default name ty v = (col name ty)\<lparr>c_notnull := True, c_default := (\<lambda>_. v)\<rparr>"

definition col_now :: "string \<Rightarrow> column" where
  "col_now name = (col name TTime)\<lparr>c_notnull := True, c_default := JDate\<rparr>"

definition users_columns :: "column list" where
  "users_columns = [
     col_required ''id'' TText,
     col_required ''email'' TText,
     col ''previous_email'' TText,
     col ''password'' TText,
     col_required ''display_name'' TText,
     col ''avatar'' TText,
     col ''bio'' TText,
     col_default ''is_email_verified'' TBool (JBool False),
     col_default ''login_count'' TInt (JNum 0),
     col ''last_login'' TTime,
     col ''email_verification_token'' TText,
     col ''email_verification_expires'' TTime,
     col ''password_reset_token'' TText,
     col ''password_reset_expires'' TTime,
     col_default ''provider'' TText (JStr ''local''),
     col ''provider_id'' TText,
     col_default ''refresh_tokens'' TJson (JArr []),
     col_default ''active_access_jtis'' TJson (JArr []),
     col_default ''token_version'' TInt (JNum 0),
     col ''migration_expiry'' TTime,
     col ''migration_token'' TText,
     col ''migration_token_expires'' TTime,
     col ''new_email_pending'' TText,
     col ''last_migration_date'' TTime,
     col ''current_email_verified'' TBool,
     col ''new_email_verified'' TBool,
     col ''current_email_token'' TText,
     col ''new_email_token'' TText,
     col ''last_migration_email_sent'' TTime,
     col_default ''migration_history'' TJson (JArr []),
     col_now ''created_at'',
     col_now ''updated_at'']"

definition identity_columns :: "column list" where
  "identity_columns = [
     col_required ''key'' TText,
     col_required ''kind'' TText,
     col_required ''user_id'' TText,
     col ''provider'' TText,
     col ''verified'' TBool,
     col ''expires_at'' TTime,
     col_now ''created_at'',
     col_now ''updated_at'']"

text \<open>
  What a parameter becomes in a column. Numbers and booleans sent to a text column arrive as their
  text; dates inside a JSON document, which the driver writes as ISO text, are kept as the instant
  they denote; an undefined property of an object is dropped. A value of another type is refused
  (the database would also parse strings given for numbers, booleans and timestamps, which no
  caller sends).
\<close>

fun json_value :: "js \<Rightarrow> js" where
  "json_value JUndef = JNull"
| "json_value (JArr xs) = JArr (map json_value xs)"
| "json_value (JObj kvs) = JObj (map (\<lambda>(k, v). (k, json_value v)) (filter (\<lambda>(k, v). v \<noteq> JUndef) kvs))"
| "json_value v = v"

definition int4 :: "int \<Rightarrow> bool" where
  "int4 n \<longleftrightarrow> - (2 ^ 31) \<le> n \<and> n < 2 ^ 31"

fun coerce :: "coltype \<Rightarrow> js \<Rightarrow> js option" where
  "coerce TJson v = Some (json_value v)"
| "coerce TText (JStr s) = Some (JStr s)"
| "coerce TText (JNum n) = Some (JStr (show_int n))"
| "coerce TText (JBool b) = Some (JStr (if b then ''true'' else ''false''))"
| "coerce TBool (JBool b) = Some (JBool b)"
| "coerce TInt (JNum n) = (if int4 n then Some (JNum n) else None)"
| "coerce TTime (JDate t) = Some (JDate t)"
| "coerce ty JNull = Some JNull"
| "coerce ty JUndef = Some JNull"
| "coerce ty v = None"

text \<open>The values a column can hold.\<close>

fun has_type :: "coltype \<Rightarrow> js \<Rightarrow> bool" where
  "has_type ty JNull = True"
| "has_type TText v = (case v of JStr s \<Rightarrow> True | _ \<Rightarrow> False)"
| "has_type TBool v = (case v of JBool b \<Rightarrow> True | _ \<Rightarrow> False)"
| "has_type TInt v = (case v of JNum n \<Rightarrow> int4 n | _ \<Rightarrow> False)"
| "has_type TTime v = (case v of JDate t \<Rightarrow> True | _ \<Rightarrow> False)"
| "has_type TJson v = (v \<noteq> JUndef)"

lemma json_value_defined: "json_value v \<noteq> JUndef"
  by (cases v) simp_all

lemma has_type_json: "has_type TJson v \<longleftrightarrow> v \<noteq> JUndef"
  by (cases v) simp_all

lemma coerce_has_type: "coerce ty v = Some v' \<Longrightarrow> has_type ty v'"
  by (cases ty; cases v) (auto simp: has_type_json json_value_defined split: if_splits)

section \<open>Rows\<close>

text \<open>The assignments of a statement: column names with their parameters.\<close>

type_synonym assigns = "(string \<times> js) list"

text \<open>The row with the given cells.\<close>

definition cells :: "(string \<times> js) list \<Rightarrow> row" where
  "cells xs n = (case map_of xs n of None \<Rightarrow> JUndef | Some v \<Rightarrow> v)"

definition syntax_error :: exn where
  "syntax_error = Error ''syntax error''"

text \<open>
  Assign to the columns of a row, or to the defaults of a new one: refused when a column is
  unknown, named twice, or given a value of another type.
\<close>

definition assign :: "column list \<Rightarrow> row \<Rightarrow> assigns \<Rightarrow> exn + row" where
  "assign cs r as =
     (if \<not> distinct (map fst as) \<or> \<not> list_all (\<lambda>(n, v). n \<in> set (map c_name cs)) as
      then Inl (Error ''column does not exist or is specified more than once'')
      else if \<not> list_all (\<lambda>c. case map_of as (c_name c) of None \<Rightarrow> True | Some v \<Rightarrow> coerce (c_type c) v \<noteq> None) cs
      then Inl (Error ''invalid input for column'')
      else Inr (cells (map (\<lambda>c. (c_name c, case map_of as (c_name c) of
                                                None \<Rightarrow> r (c_name c)
                                              | Some v \<Rightarrow> (case coerce (c_type c) v of Some v' \<Rightarrow> v' | None \<Rightarrow> JUndef))) cs)))"

definition default_row :: "column list \<Rightarrow> ms \<Rightarrow> row" where
  "default_row cs now = cells (map (\<lambda>c. (c_name c, c_default c now)) cs)"

definition not_nulls :: "column list \<Rightarrow> row \<Rightarrow> bool" where
  "not_nulls cs r = list_all (\<lambda>c. c_notnull c \<longrightarrow> r (c_name c) \<noteq> JNull) cs"

definition well_typed :: "column list \<Rightarrow> row \<Rightarrow> bool" where
  "well_typed cs r = list_all (\<lambda>c. has_type (c_type c) (r (c_name c))) cs"

text \<open>Two rows clash on a unique key when they agree on its columns and none of them is null.\<close>

definition clash :: "string list \<Rightarrow> row \<Rightarrow> row \<Rightarrow> bool" where
  "clash key r r' = list_all (\<lambda>c. r c = r' c \<and> r c \<noteq> JNull) key"

definition clash_detail :: "string list \<Rightarrow> row \<Rightarrow> (string \<times> string) list" where
  "clash_detail key r = map (\<lambda>c. (c, js_String (r c))) key"

text \<open>The first unique key on which a row clashes with one of the others.\<close>

fun first_clash :: "string list list \<Rightarrow> row list \<Rightarrow> row \<Rightarrow> string list option" where
  "first_clash [] rs r = None"
| "first_clash (k # ks) rs r = (if list_ex (clash k r) rs then Some k else first_clash ks rs r)"

definition users_keys :: "string list list" where
  "users_keys = [[''id''], [''email''], [''provider'', ''provider_id'']]"

definition is_array :: "js \<Rightarrow> bool" where
  "is_array v = (case v of JArr xs \<Rightarrow> True | _ \<Rightarrow> False)"

definition users_checks :: "row \<Rightarrow> bool" where
  "users_checks r \<longleftrightarrow>
     r ''provider'' \<in> {JStr ''local'', JStr ''google'', JStr ''github''}
     \<and> is_array (r ''refresh_tokens'') \<and> is_array (r ''active_access_jtis'') \<and> is_array (r ''migration_history'')"

section \<open>The database\<close>

record db =
  users :: "row list"
  identities :: "row list"
  faults :: "bool list"

text \<open>One statement: it fails when the next fault says so.\<close>

definition query :: "(db, 'a) act \<Rightarrow> (db, 'a) act" where
  "query m d = (case faults d of
      [] \<Rightarrow> m d
    | f # fs \<Rightarrow> (if f then (Inl (Error ''database error''), d\<lparr>faults := fs\<rparr>) else m (d\<lparr>faults := fs\<rparr>)))"

text \<open>
  A transaction: when its body throws, the tables are as they were (the faults are not: they
  belong to the outside).
\<close>

definition transaction :: "(db, 'a) act \<Rightarrow> (db, 'a) act" where
  "transaction m d = (case m d of
      (Inr a, d') \<Rightarrow> (Inr a, d')
    | (Inl e, d') \<Rightarrow> (Inl e, d'\<lparr>users := users d, identities := identities d\<rparr>))"

text \<open>
  A condition whose text is not SQL: an operator object without operators, or an empty
  alternative, gives \<open>()\<close>.
\<close>

fun sql_wf :: "sql \<Rightarrow> bool" where
  "sql_wf (SNot s) = sql_wf s"
| "sql_wf (SOps ss) = (ss \<noteq> [] \<and> list_all sql_wf ss)"
| "sql_wf (SOr ws) = list_all (\<lambda>w. w \<noteq> [] \<and> list_all sql_wf w) ws"
| "sql_wf (SGroup ss) = list_all sql_wf ss"
| "sql_wf s = True"

definition selects :: "regex_engine \<Rightarrow> sql list \<Rightarrow> js list \<Rightarrow> row \<Rightarrow> bool" where
  "selects re cs ps r = (eval_where re r ps cs = T)"

text \<open>\<open>SELECT ... WHERE cs\<close>; an absent condition selects every row.\<close>

definition select_users :: "regex_engine \<Rightarrow> sql list \<Rightarrow> js list \<Rightarrow> (db, row list) act" where
  "select_users re cs ps = query (\<lambda>d.
     if list_all sql_wf cs then (Inr (filter (selects re cs ps) (users d)), d) else (Inl syntax_error, d))"

definition users_constraints :: "row list \<Rightarrow> row \<Rightarrow> exn option" where
  "users_constraints others r =
     (if \<not> not_nulls users_columns r then Some (Error ''null value violates not-null constraint'')
      else if \<not> users_checks r then Some (Error ''violates check constraint'')
      else case first_clash users_keys others r of
             None \<Rightarrow> None
           | Some k \<Rightarrow> Some (PgUnique (clash_detail k r)))"

definition insert_user :: "ms \<Rightarrow> assigns \<Rightarrow> (db, row) act" where
  "insert_user now as = query (\<lambda>d.
     case assign users_columns (default_row users_columns now) as of
       Inl e \<Rightarrow> (Inl e, d)
     | Inr r \<Rightarrow>
         (case users_constraints (users d) r of
            Some e \<Rightarrow> (Inl e, d)
          | None \<Rightarrow> (Inr r, d\<lparr>users := users d @ [r]\<rparr>)))"

text \<open>
  \<open>UPDATE users SET ... WHERE id = $n RETURNING *\<close>: the key is unique, so at most one row is
  changed; the id of a row that the identity table refers to cannot change.
\<close>

definition update_user :: "ms \<Rightarrow> js \<Rightarrow> assigns \<Rightarrow> (db, row option) act" where
  "update_user now uid as = query (\<lambda>d.
     case find (\<lambda>r. eq3 (r ''id'') uid = T) (users d) of
       None \<Rightarrow> (Inr None, d)
     | Some r0 \<Rightarrow>
         (case assign users_columns r0 (as @ [(''updated_at'', JDate now)]) of
            Inl e \<Rightarrow> (Inl e, d)
          | Inr r \<Rightarrow>
              (if r ''id'' \<noteq> r0 ''id'' \<and> r0 ''id'' \<in> set (map (\<lambda>i. i ''user_id'') (identities d))
               then (Inl (Error ''violates foreign key constraint''), d)
               else case users_constraints (filter (\<lambda>r'. r' ''id'' \<noteq> r0 ''id'') (users d)) r of
                 Some e \<Rightarrow> (Inl e, d)
               | None \<Rightarrow> (Inr (Some r), d\<lparr>users := map (\<lambda>r'. if r' ''id'' = r0 ''id'' then r else r') (users d)\<rparr>))))"

text \<open>Deleting users deletes the identity rows that refer to them.\<close>

definition delete_users :: "(row \<Rightarrow> bool) \<Rightarrow> (db, row list) act" where
  "delete_users P = query (\<lambda>d.
     let gone = filter P (users d)
     in (Inr gone,
         d\<lparr>users := filter (\<lambda>r. \<not> P r) (users d),
           identities := filter (\<lambda>i. i ''user_id'' \<notin> set (map (\<lambda>r. r ''id'') gone)) (identities d)\<rparr>))"

section \<open>The identity table\<close>

definition identity_constraints :: "row list \<Rightarrow> row list \<Rightarrow> row \<Rightarrow> exn option" where
  "identity_constraints us others r =
     (if \<not> not_nulls identity_columns r then Some (Error ''null value violates not-null constraint'')
      else if list_ex (clash [''key''] r) others then Some (PgUnique (clash_detail [''key''] r))
      else if r ''user_id'' \<notin> set (map (\<lambda>u. u ''id'') us) then Some (Error ''violates foreign key constraint'')
      else None)"

definition select_identities :: "regex_engine \<Rightarrow> sql list \<Rightarrow> js list \<Rightarrow> (db, row list) act" where
  "select_identities re cs ps = query (\<lambda>d.
     if cs = [] then (Inl syntax_error, d) else (Inr (filter (selects re cs ps) (identities d)), d))"

definition insert_identity :: "ms \<Rightarrow> assigns \<Rightarrow> (db, unit) act" where
  "insert_identity now as = query (\<lambda>d.
     case assign identity_columns (default_row identity_columns now) as of
       Inl e \<Rightarrow> (Inl e, d)
     | Inr r \<Rightarrow>
         (case identity_constraints (users d) (identities d) r of
            Some e \<Rightarrow> (Inl e, d)
          | None \<Rightarrow> (Inr (), d\<lparr>identities := identities d @ [r]\<rparr>)))"

definition update_identity :: "ms \<Rightarrow> js \<Rightarrow> assigns \<Rightarrow> (db, nat) act" where
  "update_identity now key as = query (\<lambda>d.
     case find (\<lambda>r. eq3 (r ''key'') key = T) (identities d) of
       None \<Rightarrow> (Inr 0, d)
     | Some r0 \<Rightarrow>
         (case assign identity_columns r0 (as @ [(''updated_at'', JDate now)]) of
            Inl e \<Rightarrow> (Inl e, d)
          | Inr r \<Rightarrow>
              (case identity_constraints (users d) (filter (\<lambda>r'. r' ''key'' \<noteq> r0 ''key'') (identities d)) r of
                 Some e \<Rightarrow> (Inl e, d)
               | None \<Rightarrow> (Inr 1, d\<lparr>identities := map (\<lambda>r'. if r' ''key'' = r0 ''key'' then r else r') (identities d)\<rparr>))))"

definition delete_identities :: "(row \<Rightarrow> bool) \<Rightarrow> (db, nat) act" where
  "delete_identities P = query (\<lambda>d.
     (Inr (length (filter P (identities d))), d\<lparr>identities := filter (\<lambda>r. \<not> P r) (identities d)\<rparr>))"

text \<open>One tick of the sweeper of \<open>db/migrations.ts\<close>; a failure is logged.\<close>

definition sweep_identities :: "ms \<Rightarrow> (db, unit) act" where
  "sweep_identities now = catchE
     (bindE (delete_identities (\<lambda>r. case r ''expires_at'' of JDate t \<Rightarrow> t < now | _ \<Rightarrow> False)) (\<lambda>_. ret ()))
     (\<lambda>_. ret ())"

section \<open>Every statement keeps the constraints\<close>

definition users_row_ok :: "row \<Rightarrow> bool" where
  "users_row_ok r \<longleftrightarrow> well_typed users_columns r \<and> not_nulls users_columns r \<and> users_checks r"

definition free_of :: "string list list \<Rightarrow> row \<Rightarrow> row \<Rightarrow> bool" where
  "free_of ks r r' = list_all (\<lambda>k. \<not> clash k r r') ks"

definition unclashed :: "string list list \<Rightarrow> row list \<Rightarrow> bool" where
  "unclashed ks rs = sorted_wrt (free_of ks) rs"

definition db_ok :: "db \<Rightarrow> bool" where
  "db_ok d \<longleftrightarrow>
     list_all users_row_ok (users d) \<and> unclashed users_keys (users d)
     \<and> list_all (\<lambda>r. well_typed identity_columns r \<and> not_nulls identity_columns r
                     \<and> r ''user_id'' \<in> set (map (\<lambda>u. u ''id'') (users d))) (identities d)
     \<and> unclashed [[''key'']] (identities d)"

lemma clash_sym: "clash k r r' = clash k r' r"
  by (auto simp: clash_def list_all_iff)

lemma free_of_sym: "free_of ks r r' = free_of ks r' r"
  by (simp add: free_of_def clash_sym [of _ r])

lemma first_clash_None: "first_clash ks rs r = None \<longleftrightarrow> (\<forall>r' \<in> set rs. free_of ks r r')"
  by (induction ks) (auto simp: free_of_def list_ex_iff)

lemma unclashed_insert:
  "unclashed ks (xs @ r # ys) \<longleftrightarrow> unclashed ks (xs @ ys) \<and> (\<forall>r' \<in> set (xs @ ys). free_of ks r r')"
  by (auto simp: unclashed_def sorted_wrt_append free_of_sym [of ks _ r])

lemma unclashed_filter: "unclashed ks rs \<Longrightarrow> unclashed ks (filter P rs)"
  unfolding unclashed_def by (rule sorted_wrt_filter)

text \<open>A row is the only one with its key: what replacing it does to the table.\<close>

lemma only_row:
  assumes u: "unclashed ks rs" and k: "[c] \<in> set ks" and n: "\<forall>r \<in> set rs. r c \<noteq> JNull"
    and f: "find P rs = Some r0"
  obtains xs ys where "rs = xs @ r0 # ys"
    "filter (\<lambda>r'. r' c \<noteq> r0 c) rs = xs @ ys"
    "\<And>r. map (\<lambda>r'. if r' c = r0 c then r else r') rs = xs @ r # ys"
proof -
  from f obtain xs ys where rs: "rs = xs @ r0 # ys"
    by (metis find_Some_iff nth_mem split_list)
  have "r' c \<noteq> r0 c" if "r' \<in> set (xs @ ys)" for r'
  proof -
    from u that have "free_of ks r0 r'" by (simp add: rs unclashed_insert)
    with k have "\<not> clash [c] r0 r'" by (auto simp: free_of_def list_all_iff)
    with n show ?thesis by (auto simp: clash_def rs)
  qed
  then have "filter (\<lambda>r'. r' c \<noteq> r0 c) rs = xs @ ys"
    and "map (\<lambda>r'. if r' c = r0 c then r else r') rs = xs @ r # ys" for r
    by (auto simp: rs filter_id_conv intro: map_idI)
  with rs show ?thesis by (rule that)
qed

lemma find_column:
  assumes "distinct (map c_name cs)" and "c \<in> set cs"
  shows "find (\<lambda>c'. c_name c' = c_name c) cs = Some c"
  using assms by (induction cs) (auto dest: image_eqI)

lemma cells_column:
  assumes "distinct (map c_name cs)" and "c \<in> set cs"
  shows "cells (map (\<lambda>c. (c_name c, g c)) cs) (c_name c) = g c"
proof -
  from assms have "map_of (map (\<lambda>c. (c_name c, g c)) cs) (c_name c) = Some (g c)"
    by (intro map_of_is_SomeI) (auto simp: comp_def)
  then show ?thesis by (simp add: cells_def)
qed

lemma assign_apply:
  assumes "assign cs r as = Inr r'" and "distinct (map c_name cs)" and "c \<in> set cs"
  shows "r' (c_name c) = (case map_of as (c_name c) of None \<Rightarrow> r (c_name c) | Some v \<Rightarrow> the (coerce (c_type c) v))"
    and "map_of as (c_name c) = Some v \<Longrightarrow> coerce (c_type c) v \<noteq> None"
proof -
  from assms(1,3) show def: "map_of as (c_name c) = Some v \<Longrightarrow> coerce (c_type c) v \<noteq> None" for v
    by (fastforce simp: assign_def list_all_iff split: if_splits)
  from assms(1) have "r' = cells (map (\<lambda>c. (c_name c, case map_of as (c_name c) of
        None \<Rightarrow> r (c_name c)
      | Some v \<Rightarrow> (case coerce (c_type c) v of Some v' \<Rightarrow> v' | None \<Rightarrow> JUndef))) cs)"
    by (simp add: assign_def split: if_splits)
  then show "r' (c_name c) = (case map_of as (c_name c) of None \<Rightarrow> r (c_name c) | Some v \<Rightarrow> the (coerce (c_type c) v))"
    using def by (auto simp: cells_column [OF assms(2,3)] split: option.splits)
qed

lemma assign_well_typed:
  assumes "assign cs r as = Inr r'" and "distinct (map c_name cs)" and "well_typed cs r"
  shows "well_typed cs r'"
  unfolding well_typed_def list_all_iff
proof
  fix c assume c: "c \<in> set cs"
  show "has_type (c_type c) (r' (c_name c))"
  proof (cases "map_of as (c_name c)")
    case None
    with assms(3) c show ?thesis by (simp add: assign_apply(1) [OF assms(1,2) c] well_typed_def list_all_iff)
  next
    case (Some v)
    with assign_apply(2) [OF assms(1,2) c Some] show ?thesis
      by (auto simp: assign_apply(1) [OF assms(1,2) c] intro: coerce_has_type)
  qed
qed

lemma default_row_apply:
  "distinct (map c_name cs) \<Longrightarrow> c \<in> set cs \<Longrightarrow> default_row cs now (c_name c) = c_default c now"
  by (simp add: default_row_def cells_column)

lemma default_well_typed:
  "distinct (map c_name cs) \<Longrightarrow> list_all (\<lambda>c. has_type (c_type c) (c_default c now)) cs \<Longrightarrow>
     well_typed cs (default_row cs now)"
  by (auto simp: well_typed_def list_all_iff default_row_apply)

lemmas col_defs = col_def col_required_def col_default_def col_now_def

lemma users_columns_distinct: "distinct (map c_name users_columns)"
  and identity_columns_distinct: "distinct (map c_name identity_columns)"
  by (simp_all add: users_columns_def identity_columns_def col_defs)

lemma users_default_typed: "well_typed users_columns (default_row users_columns now)"
  and identity_default_typed: "well_typed identity_columns (default_row identity_columns now)"
  by (rule default_well_typed [OF users_columns_distinct], simp add: users_columns_def col_defs int4_def)
    (rule default_well_typed [OF identity_columns_distinct], simp add: identity_columns_def col_defs)

text \<open>A statement keeps the invariant when its body does, whether or not it fails.\<close>

lemma keeps_query:
  assumes "\<And>d. db_ok d \<Longrightarrow> db_ok (snd (m d))"
  shows "keeps db_ok (query m)"
proof -
  have "db_ok d = db_ok (d\<lparr>faults := fs\<rparr>)" for d fs by (simp add: db_ok_def)
  with assms show ?thesis by (auto simp: keeps_def query_def split: list.splits)
qed

lemma keeps_transaction: "keeps db_ok m \<Longrightarrow> keeps db_ok (transaction m)"
  by (fastforce simp: keeps_def transaction_def db_ok_def split: prod.splits sum.splits)

lemma db_ok_users: "db_ok d \<Longrightarrow> r \<in> set (users d) \<Longrightarrow> users_row_ok r"
  by (auto simp: db_ok_def list_all_iff)

lemma users_row_id: "users_row_ok r \<Longrightarrow> r ''id'' \<noteq> JNull"
  by (simp add: users_row_ok_def not_nulls_def users_columns_def col_defs)

lemma db_ok_user_ids: "db_ok d \<Longrightarrow> \<forall>r \<in> set (users d). r ''id'' \<noteq> JNull"
  by (simp add: users_row_id db_ok_users)

lemma identity_key_notnull: "db_ok d \<Longrightarrow> \<forall>r \<in> set (identities d). r ''key'' \<noteq> JNull"
  by (auto simp: db_ok_def list_all_iff not_nulls_def identity_columns_def col_defs)

lemma users_constraints_None:
  "users_constraints others r = None \<longleftrightarrow>
     not_nulls users_columns r \<and> users_checks r \<and> (\<forall>r' \<in> set others. free_of users_keys r r')"
  by (auto simp: users_constraints_def first_clash_None [symmetric] split: option.splits)

lemma identity_constraints_None:
  "identity_constraints us others r = None \<longleftrightarrow>
     not_nulls identity_columns r \<and> (\<forall>r' \<in> set others. free_of [[''key'']] r r')
     \<and> r ''user_id'' \<in> set (map (\<lambda>u. u ''id'') us)"
  by (auto simp: identity_constraints_def free_of_def list_ex_iff)

lemma keeps_select_users: "keeps db_ok (select_users re cs ps)"
  unfolding select_users_def by (rule keeps_query) simp

lemma keeps_select_identities: "keeps db_ok (select_identities re cs ps)"
  unfolding select_identities_def by (rule keeps_query) simp

lemma keeps_insert_user: "keeps db_ok (insert_user now as)"
  unfolding insert_user_def
proof (rule keeps_query)
  fix d assume ok: "db_ok d"
  show "db_ok (snd (case assign users_columns (default_row users_columns now) as of
       Inl e \<Rightarrow> (Inl e, d)
     | Inr r \<Rightarrow>
         (case users_constraints (users d) r of
            Some e \<Rightarrow> (Inl e, d)
          | None \<Rightarrow> (Inr r, d\<lparr>users := users d @ [r]\<rparr>))))"
    using ok assign_well_typed [OF _ users_columns_distinct users_default_typed]
      unclashed_insert [of users_keys "users d" _ "[]"]
    by (auto simp: users_constraints_None db_ok_def users_row_ok_def list_all_iff split: sum.splits option.splits)
qed

lemma keeps_update_user: "keeps db_ok (update_user now uid as)"
  unfolding update_user_def
proof (rule keeps_query)
  fix d assume ok: "db_ok d"
  let ?P = "\<lambda>r. eq3 (r ''id'') uid = T"
  show "db_ok (snd (case find ?P (users d) of
       None \<Rightarrow> (Inr None, d)
     | Some r0 \<Rightarrow>
         (case assign users_columns r0 (as @ [(''updated_at'', JDate now)]) of
            Inl e \<Rightarrow> (Inl e, d)
          | Inr r \<Rightarrow>
              (if r ''id'' \<noteq> r0 ''id'' \<and> r0 ''id'' \<in> set (map (\<lambda>i. i ''user_id'') (identities d))
               then (Inl (Error ''violates foreign key constraint''), d)
               else case users_constraints (filter (\<lambda>r'. r' ''id'' \<noteq> r0 ''id'') (users d)) r of
                 Some e \<Rightarrow> (Inl e, d)
               | None \<Rightarrow> (Inr (Some r), d\<lparr>users := map (\<lambda>r'. if r' ''id'' = r0 ''id'' then r else r') (users d)\<rparr>)))))"
    (is "db_ok (snd ?res)")
  proof (cases "find ?P (users d)")
    case None
    with ok show ?thesis by simp
  next
    case (Some r0)
    from ok have u: "unclashed users_keys (users d)" by (simp add: db_ok_def)
    from only_row [OF u, of "''id''", OF _ db_ok_user_ids [OF ok] Some]
    obtain xs ys where rs: "users d = xs @ r0 # ys"
      and fl: "filter (\<lambda>r'. r' ''id'' \<noteq> r0 ''id'') (users d) = xs @ ys"
      and mp: "\<And>r. map (\<lambda>r'. if r' ''id'' = r0 ''id'' then r else r') (users d) = xs @ r # ys"
      by (auto simp: users_keys_def)
    have r0: "well_typed users_columns r0" using db_ok_users [OF ok, of r0] by (simp add: rs users_row_ok_def)
    {
      fix r assume as: "assign users_columns r0 (as @ [(''updated_at'', JDate now)]) = Inr r"
        and fk: "\<not> (r ''id'' \<noteq> r0 ''id'' \<and> r0 ''id'' \<in> set (map (\<lambda>i. i ''user_id'') (identities d)))"
        and c: "users_constraints (xs @ ys) r = None"
      from as r0 have "well_typed users_columns r" by (rule assign_well_typed [OF _ users_columns_distinct])
      with c ok have 1: "list_all users_row_ok (xs @ r # ys)"
        by (auto simp: users_constraints_None users_row_ok_def db_ok_def rs)
      from c u have 2: "unclashed users_keys (xs @ r # ys)"
        by (simp add: users_constraints_None unclashed_insert rs)
      have "i ''user_id'' \<in> set (map (\<lambda>u. u ''id'') (xs @ r # ys))" if i: "i \<in> set (identities d)" for i
      proof -
        from ok i have "i ''user_id'' \<in> set (map (\<lambda>u. u ''id'') (xs @ r0 # ys))"
          by (auto simp: db_ok_def list_all_iff rs [symmetric])
        with fk imageI [OF i, of "\<lambda>i. i ''user_id''"] show ?thesis by auto
      qed
      with 1 2 ok have "db_ok (d\<lparr>users := xs @ r # ys\<rparr>)"
        by (simp add: db_ok_def list_all_iff)
    }
    then show ?thesis using ok Some by (auto simp: fl mp split: sum.splits option.splits)
  qed
qed

lemma image_rest: "v \<in> f ` A \<Longrightarrow> v \<notin> f ` {x \<in> A. P x} \<Longrightarrow> v \<in> f ` {x \<in> A. \<not> P x}"
  by auto

lemma keeps_delete_users: "keeps db_ok (delete_users P)"
  unfolding delete_users_def
  by (rule keeps_query) (auto simp: db_ok_def Let_def list_all_iff intro: unclashed_filter image_rest)

lemma keeps_insert_identity: "keeps db_ok (insert_identity now as)"
  unfolding insert_identity_def
proof (rule keeps_query)
  fix d assume ok: "db_ok d"
  show "db_ok (snd (case assign identity_columns (default_row identity_columns now) as of
       Inl e \<Rightarrow> (Inl e, d)
     | Inr r \<Rightarrow>
         (case identity_constraints (users d) (identities d) r of
            Some e \<Rightarrow> (Inl e, d)
          | None \<Rightarrow> (Inr (), d\<lparr>identities := identities d @ [r]\<rparr>))))"
    using ok assign_well_typed [OF _ identity_columns_distinct identity_default_typed]
      unclashed_insert [of "[[''key'']]" "identities d" _ "[]"]
    by (auto simp: identity_constraints_None db_ok_def list_all_iff split: sum.splits option.splits)
qed

lemma keeps_update_identity: "keeps db_ok (update_identity now key as)"
  unfolding update_identity_def
proof (rule keeps_query)
  fix d assume ok: "db_ok d"
  let ?P = "\<lambda>r. eq3 (r ''key'') key = T"
  show "db_ok (snd (case find ?P (identities d) of
       None \<Rightarrow> (Inr 0, d)
     | Some r0 \<Rightarrow>
         (case assign identity_columns r0 (as @ [(''updated_at'', JDate now)]) of
            Inl e \<Rightarrow> (Inl e, d)
          | Inr r \<Rightarrow>
              (case identity_constraints (users d) (filter (\<lambda>r'. r' ''key'' \<noteq> r0 ''key'') (identities d)) r of
                 Some e \<Rightarrow> (Inl e, d)
               | None \<Rightarrow> (Inr 1, d\<lparr>identities := map (\<lambda>r'. if r' ''key'' = r0 ''key'' then r else r') (identities d)\<rparr>)))))"
  proof (cases "find ?P (identities d)")
    case None
    with ok show ?thesis by simp
  next
    case (Some r0)
    from ok have u: "unclashed [[''key'']] (identities d)" by (simp add: db_ok_def)
    from only_row [OF u, of "''key''", OF _ identity_key_notnull [OF ok] Some]
    obtain xs ys where rs: "identities d = xs @ r0 # ys"
      and fl: "filter (\<lambda>r'. r' ''key'' \<noteq> r0 ''key'') (identities d) = xs @ ys"
      and mp: "\<And>r. map (\<lambda>r'. if r' ''key'' = r0 ''key'' then r else r') (identities d) = xs @ r # ys"
      by auto
    have r0: "well_typed identity_columns r0" using ok by (simp add: rs db_ok_def)
    {
      fix r assume as: "assign identity_columns r0 (as @ [(''updated_at'', JDate now)]) = Inr r"
        and c: "identity_constraints (users d) (xs @ ys) r = None"
      from as r0 have "well_typed identity_columns r" by (rule assign_well_typed [OF _ identity_columns_distinct])
      with c ok u have "db_ok (d\<lparr>identities := xs @ r # ys\<rparr>)"
        by (auto simp: identity_constraints_None db_ok_def rs unclashed_insert)
    }
    then show ?thesis using ok Some by (auto simp: fl mp split: sum.splits option.splits)
  qed
qed

lemma keeps_delete_identities: "keeps db_ok (delete_identities P)"
  unfolding delete_identities_def
  by (rule keeps_query) (auto simp: db_ok_def list_all_iff intro: unclashed_filter)

lemma keeps_sweep_identities: "keeps db_ok (sweep_identities now)"
  unfolding sweep_identities_def by (intro keeps_catchE keeps_bindE keeps_ret keeps_delete_identities)

lemmas keeps_statements = keeps_select_users keeps_insert_user keeps_update_user keeps_delete_users
  keeps_select_identities keeps_insert_identity keeps_update_identity keeps_delete_identities

end
