(* ===== verification/Host.thy ===== *)
theory Host
  imports One_Time_Codes Database
begin

text \<open>
  What a request handler of the backend sees. The record \<open>host\<close> holds what is outside the
  program and what the process reads once: the libraries and services it calls, the configuration,
  the environment, the clock, and the random values a request draws. The record \<open>world\<close> is the
  state the handlers share: the Redis pool with the one-time codes, the database, the mail that
  left and the requests sent to the control plane.
\<close>

section \<open>Outside the program\<close>

text \<open>
  \<open>jsonwebtoken\<close>: signing a payload with a secret, a life time in seconds, an issuer and an
  audience; checking a token against a secret, issuer and audience, with the payload when it is
  valid; and the JSON of a base64url segment.
\<close>

record jwt_lib =
  jwt_sign :: "ms \<Rightarrow> (string \<times> js) list \<Rightarrow> string \<Rightarrow> int \<Rightarrow> string \<Rightarrow> string \<Rightarrow> string"
  jwt_verify :: "ms \<Rightarrow> string \<Rightarrow> string \<Rightarrow> string \<Rightarrow> string \<Rightarrow> js option"
  b64url_json :: "string \<Rightarrow> js option"

record http_post =
  hp_url :: string
  hp_headers :: "(string \<times> string) list"
  hp_body :: string

datatype http_result = HttpOk | HttpStatus int | HttpFailed

record mail =
  m_to :: string
  m_subject :: string
  m_link :: string

text \<open>\<open>h_tz\<close> is the offset of local time from UTC; \<open>h_fresh n\<close> is the n-th random string a request draws; \<open>h_mailer m k\<close> says whether the k-th
  attempt to hand over a mail succeeds.\<close>

record 'r host =
  h_redis :: "'r redis_exec"
  h_crypto :: crypto
  h_sha256 :: "string \<Rightarrow> string"
  h_sha256url :: "string \<Rightarrow> string"
  h_md5 :: "string \<Rightarrow> string"
  h_jwt :: jwt_lib
  h_regex :: regex_engine
  h_parse_url :: "string \<Rightarrow> web_url option"
  h_encode_uri :: "string \<Rightarrow> string"
  h_post :: "http_post \<Rightarrow> http_result"
  h_mailer :: "mail \<Rightarrow> nat \<Rightarrow> bool"
  h_config :: app_config
  h_env :: env
  h_now :: ms
  h_tz :: ms
  h_rnd :: rat
  h_seed :: nat
  h_fresh :: "nat \<Rightarrow> string"

section \<open>The shared state\<close>

record 'r world = "'r code_store" +
  database :: db
  outbox :: "mail list"
  posts :: "http_post list"

text \<open>A database computation in the world.\<close>

definition on_db :: "(db, 'a) act \<Rightarrow> (('r, 'z) world_scheme, 'a) act" where
  "on_db m w = (case m (database w) of (r, d) \<Rightarrow> (r, w\<lparr>database := d\<rparr>))"

lemma on_db_Inr [act_simps]: "m (database w) = (Inr a, d) \<Longrightarrow> on_db m w = (Inr a, w\<lparr>database := d\<rparr>)"
  and on_db_Inl [act_simps]: "m (database w) = (Inl e, d) \<Longrightarrow> on_db m w = (Inl e, w\<lparr>database := d\<rparr>)"
  by (simp_all add: on_db_def)

lemma keeps_on_db: "keeps P m \<Longrightarrow> keeps (\<lambda>w. P (database w)) (on_db m)"
  by (fastforce simp: keeps_def on_db_def split: prod.splits)

section \<open>JSON text\<close>

text \<open>\<open>JSON.stringify\<close> on the values that are signed as text: strings, numbers and objects of them (no
  dates).\<close>

fun json_escape :: "string \<Rightarrow> string" where
  "json_escape [] = []"
| "json_escape (c # s) =
     (if c = CHR 0x22 \<or> c = CHR 0x5C then CHR 0x5C # c # json_escape s
      else if c = CHR 0x0A then CHR 0x5C # CHR ''n'' # json_escape s
      else c # json_escape s)"

definition json_string :: "string \<Rightarrow> string" where
  "json_string s = CHR 0x22 # json_escape s @ [CHR 0x22]"

fun JSON_stringify :: "js \<Rightarrow> string" where
  "JSON_stringify JUndef = ''null''"
| "JSON_stringify JNull = ''null''"
| "JSON_stringify (JBool b) = (if b then ''true'' else ''false'')"
| "JSON_stringify (JNum n) = show_int n"
| "JSON_stringify (JStr s) = json_string s"
| "JSON_stringify (JDate t) = json_string (show_int t)"
| "JSON_stringify (JArr xs) = ''['' @ joined '','' (map JSON_stringify xs) @ '']''"
| "JSON_stringify (JObj kvs) =
     CHR 0x7B # joined '','' (map (\<lambda>(k, v). json_string k @ '':'' @ JSON_stringify v)
       (filter (\<lambda>(k, v). v \<noteq> JUndef) kvs)) @ [CHR 0x7D]"

section \<open>Addresses\<close>

definition normalizeEmail :: "string \<Rightarrow> string" where
  "normalizeEmail email = toLowerCase (trim email)"

definition getGravatarUrl :: "'r host \<Rightarrow> string \<Rightarrow> int \<Rightarrow> string" where
  "getGravatarUrl h email size0 =
     (if email = [] then []
      else ''https://www.gravatar.com/avatar/'' @ h_md5 h (toLowerCase (trim email))
           @ ''?s='' @ show_int size0 @ ''&d=identicon&r=pg'')"

definition getAvatarUrl :: "'r host \<Rightarrow> string \<Rightarrow> string option \<Rightarrow> int \<Rightarrow> string" where
  "getAvatarUrl h email oauthAvatar size0 = (case or_undef oauthAvatar of
      Some a \<Rightarrow> a
    | None \<Rightarrow> getGravatarUrl h email size0)"

section \<open>A concrete host\<close>

text \<open>
  A development host for examples: the in-memory Redis, toy digests, and tokens of a fixed shape
  that carry the user \<open>u1\<close> at version 0.
\<close>

definition toy_sign :: "ms \<Rightarrow> (string \<times> js) list \<Rightarrow> string \<Rightarrow> int \<Rightarrow> string \<Rightarrow> string \<Rightarrow> string" where
  "toy_sign now p secret e iss aud = ''h.'' @ js_String (js_get (JObj p) ''jti'') @ ''.s''"

definition toy_verify :: "ms \<Rightarrow> string \<Rightarrow> string \<Rightarrow> string \<Rightarrow> string \<Rightarrow> js option" where
  "toy_verify now tok secret iss aud =
     Some (JObj [(''userId'', JStr ''u1''), (''tv'', JNum 0), (''jti'', JStr ''j1''),
       (''type'', JStr (if secret = ''a'' then ''access'' else ''refresh''))])"

definition toy_segment :: "string \<Rightarrow> js option" where
  "toy_segment seg = Some (JObj [(''jti'', JStr seg)])"

definition toy_jwt :: jwt_lib where
  "toy_jwt = \<lparr>jwt_sign = toy_sign, jwt_verify = toy_verify, b64url_json = toy_segment\<rparr>"

definition toy_digest :: "string \<Rightarrow> string" where "toy_digest s = CHR ''#'' # s"
definition toy_regex :: regex_engine where "toy_regex p i s = (p = s)"
definition toy_uri :: "string \<Rightarrow> string" where "toy_uri s = s"
definition toy_post :: "http_post \<Rightarrow> http_result" where "toy_post p = HttpOk"
definition toy_mailer :: "mail \<Rightarrow> nat \<Rightarrow> bool" where "toy_mailer m k = True"
definition toy_env :: env where "toy_env k = (if k = ''NODE_ENV'' then Some ''development'' else None)"
definition toy_fresh :: "nat \<Rightarrow> string" where "toy_fresh n = replicate 64 (char_of (97 + n))"

definition demo_config :: app_config where
  "demo_config = \<lparr>
     port = Some 8080, nodeEnv = ''development'', pg_url = [], pg_ssl = False,
     pg_pool = \<lparr>pg_min = 2, pg_max = 10, pg_idleTimeoutMs = 30000, pg_connectTimeoutMs = 10000\<rparr>,
     pg_appName = ''uam-backend'',
     redis = \<lparr>rc_enabled = True, rc_host = ''localhost'', rc_port = Some 6379, rc_username = None, rc_password = [],
       rc_tls = False, rc_db = 0, rc_connectTimeoutMs = 10000, rc_commandTimeoutMs = 5000, rc_keepAliveMs = 30000,
       rc_maxRetriesPerRequest = 3, rc_maxReconnectAttempts = 20\<rparr>,
     jwt = \<lparr>accessSecret = ''a'', refreshSecret = ''r'', accessExpiresIn = ''15m'', refreshExpiresIn = ''7d'',
       issuer = ''i'', audience = ''c''\<rparr>,
     passwordPepper = [], defaultHomeRegion = ''US'', autoVerifyEmail = False,
     google = \<lparr>clientId = [], clientSecret = [], callbackUrl = []\<rparr>,
     github = \<lparr>clientId = [], clientSecret = [], callbackUrl = []\<rparr>,
     smtp = \<lparr>smtp_host = [], smtp_port = Some 587, smtp_user = [], smtp_pass = []\<rparr>,
     clientUrl = ''http://localhost:5173'', clientUrls = [''http://localhost:5173''],
     cookie_secure = False, cookie_sameSite = ''strict'', cookie_path = ''/api/auth'',
     omitRefreshInBody = False, googleEnabled = False, githubEnabled = False, requireDistributed = False,
     controlPlane_url = ''http://plane'', adminApiKey = ''k'', metricsToken = []\<rparr>"

definition demo_host :: "mem host" where
  "demo_host = \<lparr>
     h_redis = mem_exec,
     h_crypto = toy_crypto,
     h_sha256 = toy_digest,
     h_sha256url = toy_digest,
     h_md5 = toy_digest,
     h_jwt = toy_jwt,
     h_regex = toy_regex,
     h_parse_url = demo_parse_url,
     h_encode_uri = toy_uri,
     h_post = toy_post,
     h_mailer = toy_mailer,
     h_config = demo_config,
     h_env = toy_env,
     h_now = 1000,
     h_tz = 0,
     h_rnd = 0,
     h_seed = 0,
     h_fresh = toy_fresh\<rparr>"

definition empty_db :: db where
  "empty_db = \<lparr>users = [], identities = [], faults = []\<rparr>"

lemma empty_db_ok: "db_ok empty_db" "faults empty_db = []"
  by (simp_all add: empty_db_def db_ok_def unclashed_def)

definition demo_world :: "mem world" where
  "demo_world = code_store.extend demo_codes \<lparr>database = empty_db, outbox = [], posts = []\<rparr>"

end
