(* ===== verification/User_Model.thy ===== *)
theory User_Model
  imports Host "HOL-Library.AList"
begin

text \<open>
  The user model of \<open>db/User.ts\<close>: documents with dirty tracking over the rows of the table,
  queries with projections, and the read-modify-write update. A document is a value here: a
  handler that changes it passes the changed document on.
\<close>

section \<open>Errors\<close>

text \<open>
  The regular expression over the error's detail finds a single column name and a value without a
  closing parenthesis; a key of two columns does not match.
\<close>

definition word_char :: "char \<Rightarrow> bool" where
  "word_char c \<longleftrightarrow> is_digit c \<or> is_upper c \<or> (97 \<le> (of_char c :: nat) \<and> (of_char c :: nat) \<le> 122) \<or> c = CHR ''_''"

fun translateDuplicateKey :: "exn \<Rightarrow> exn" where
  "translateDuplicateKey (PgUnique detail) = (case detail of
      [(c, v)] \<Rightarrow> (if c \<noteq> [] \<and> list_all word_char c \<and> CHR '')'' \<notin> set v
                    then UniqueViolation c (Some v) else UniqueViolation ''key'' None)
    | _ \<Rightarrow> UniqueViolation ''key'' None)"
| "translateDuplicateKey e = e"

section \<open>Documents\<close>

type_synonym vals = "(string \<times> js) list"

text \<open>Adding to a JavaScript set keeps the order of insertion.\<close>

definition set_add :: "'a \<Rightarrow> 'a list \<Rightarrow> 'a list" where
  "set_add x xs = (if x \<in> set xs then xs else xs @ [x])"

definition COLUMN_TO_FIELD_REV :: "(string \<times> string) list" where
  "COLUMN_TO_FIELD_REV = map (\<lambda>f. (case columnName f of Inr c \<Rightarrow> c | Inl e \<Rightarrow> [], f)) ALL_FIELDS"

text \<open>A result row is the list of the selected columns with their values.\<close>

fun rowToValues :: "(string \<times> js) list \<Rightarrow> vals" where
  "rowToValues [] = []"
| "rowToValues ((c, v) # r) = (case map_of COLUMN_TO_FIELD_REV c of
      None \<Rightarrow> rowToValues r
    | Some f \<Rightarrow> (f, v) # rowToValues r)"

definition star :: "row \<Rightarrow> (string \<times> js) list" where
  "star r = map (\<lambda>c. (c_name c, r (c_name c))) users_columns"

record user =
  u_values :: vals
  u_modified :: "string list"
  u_isNew :: bool

definition new_User :: "vals \<Rightarrow> bool \<Rightarrow> user" where
  "new_User data isNew = \<lparr>u_values = filter (\<lambda>(k, v). v \<noteq> JUndef) data, u_modified = [], u_isNew = isNew\<rparr>"

text \<open>Reading and writing a field through the proxy; \<open>_id\<close> reads the id.\<close>

definition getf :: "user \<Rightarrow> string \<Rightarrow> js" where
  "getf u f = (case map_of (u_values u) (if f = ''_id'' then ''id'' else f) of None \<Rightarrow> JUndef | Some v \<Rightarrow> v)"

definition setf :: "user \<Rightarrow> string \<Rightarrow> js \<Rightarrow> user" where
  "setf u f v = u\<lparr>u_values := AList.update f v (u_values u), u_modified := set_add f (u_modified u)\<rparr>"

definition markModified :: "string \<Rightarrow> user \<Rightarrow> user" where
  "markModified f u = u\<lparr>u_modified := set_add f (u_modified u)\<rparr>"

definition loaded :: "(string \<times> js) list \<Rightarrow> user" where
  "loaded r = new_User (rowToValues r) False"

section \<open>Queries\<close>

text \<open>\<open>split(/\\s+/).filter(Boolean)\<close>.\<close>

fun words_aux :: "string \<Rightarrow> string \<Rightarrow> string list" where
  "words_aux [] w = (if w = [] then [] else [rev w])"
| "words_aux (c # s) w = (if is_space c then (if w = [] then words_aux s [] else rev w # words_aux s []) else words_aux s (c # w))"

definition words :: "string \<Rightarrow> string list" where
  "words s = words_aux s []"

definition starts_plus :: "string \<Rightarrow> bool" where
  "starts_plus t = (case t of c # _ \<Rightarrow> c = CHR ''+'' | [] \<Rightarrow> False)"

text \<open>The fields a query returns; \<open>None\<close> is a query without \<open>select\<close>, or one with an empty
  specification.\<close>

definition default_fields :: "string list" where
  "default_fields = filter (\<lambda>f. f \<notin> SENSITIVE_FIELDS) ALL_FIELDS"

definition resolveFields :: "string option \<Rightarrow> string list" where
  "resolveFields projection = (case or_undef projection of
      None \<Rightarrow> default_fields
    | Some p \<Rightarrow>
        (let tokens = words p;
             additive = filter starts_plus tokens;
             inclusion = filter (\<lambda>t. \<not> starts_plus t) tokens
         in if inclusion \<noteq> [] then fold set_add (''id'' # inclusion) []
            else fold (\<lambda>t. set_add (tl t)) additive default_fields))"

text \<open>A list of fallible results: the first error, or all the values.\<close>

fun all_Inr :: "(exn + 'a) list \<Rightarrow> exn + 'a list" where
  "all_Inr [] = Inr []"
| "all_Inr (Inl e # xs) = Inl e"
| "all_Inr (Inr a # xs) = (case all_Inr xs of Inl e \<Rightarrow> Inl e | Inr as \<Rightarrow> Inr (a # as))"

definition project :: "string list \<Rightarrow> row \<Rightarrow> (string \<times> js) list" where
  "project cols r = map (\<lambda>c. (c, r c)) cols"

text \<open>\<open>buildSelect\<close> and the query: the selected rows, projected to the resolved fields.\<close>

definition execute_select ::
    "'r host \<Rightarrow> filt \<Rightarrow> string option \<Rightarrow> nat option \<Rightarrow> (db, (string \<times> js) list list) act" where
  "execute_select h f projection limit =
     (case all_Inr (map columnName (resolveFields projection)) of
        Inl e \<Rightarrow> raise e
      | Inr cols \<Rightarrow>
          (case buildWhere f [] of
             Inl e \<Rightarrow> raise e
           | Inr (cs, ps) \<Rightarrow>
               bindE (select_users (h_regex h) cs ps)
                 (\<lambda>rows. ret (map (project cols) (case limit of None \<Rightarrow> rows | Some n \<Rightarrow> take n rows)))))"

definition find_users :: "'r host \<Rightarrow> filt \<Rightarrow> string option \<Rightarrow> (db, user list) act" where
  "find_users h f projection = bindE (execute_select h f projection None) (\<lambda>rows. ret (map loaded rows))"

definition first_row :: "'a list \<Rightarrow> 'a option" where
  "first_row xs = (case xs of [] \<Rightarrow> None | x # _ \<Rightarrow> Some x)"

definition findOne :: "'r host \<Rightarrow> filt \<Rightarrow> string option \<Rightarrow> (db, user option) act" where
  "findOne h f projection =
     bindE (execute_select h f projection (Some 1)) (\<lambda>rows. ret (map_option loaded (first_row rows)))"

definition findOne_lean :: "'r host \<Rightarrow> filt \<Rightarrow> string option \<Rightarrow> (db, vals option) act" where
  "findOne_lean h f projection =
     bindE (execute_select h f projection (Some 1)) (\<lambda>rows. ret (map_option rowToValues (first_row rows)))"

definition by_id :: "js \<Rightarrow> filt" where
  "by_id uid = [(''id'', FScalar (JStr (js_String uid)))]"

definition findById :: "'r host \<Rightarrow> js \<Rightarrow> string option \<Rightarrow> (db, user option) act" where
  "findById h uid projection = findOne h (by_id uid) projection"

section \<open>Writing documents\<close>

text \<open>The parameter of a written field: JSON arrays, hashed passwords, null for undefined.\<close>

definition write_param :: "'r host \<Rightarrow> string \<Rightarrow> js \<Rightarrow> js" where
  "write_param h f v =
     (if f \<in> JSONB_FIELDS then (if nullish v then JArr [] else v)
      else case v of
             JStr s \<Rightarrow> (if f = ''password'' \<and> s \<noteq> [] then JStr (hashPassword (h_crypto h) (h_env h) (h_seed h) s) else v)
           | _ \<Rightarrow> (if nullish v then JNull else v))"

text \<open>Column assignments for a list of fields; an unknown field throws.\<close>

fun write_assigns :: "'r host \<Rightarrow> (string \<Rightarrow> js) \<Rightarrow> string list \<Rightarrow> exn + assigns" where
  "write_assigns h val [] = Inr []"
| "write_assigns h val (f # fs) = (case columnName f of
      Inl e \<Rightarrow> Inl e
    | Inr c \<Rightarrow> (case write_assigns h val fs of Inl e \<Rightarrow> Inl e | Inr as \<Rightarrow> Inr ((c, write_param h f (val f)) # as)))"

definition rethrow_duplicate :: "(db, 'a) act \<Rightarrow> (db, 'a) act" where
  "rethrow_duplicate m = catchE m (\<lambda>e. raise (translateDuplicateKey e))"

definition clock_fields :: "string list" where
  "clock_fields = [''createdAt'', ''updatedAt'']"

definition saved :: "row \<Rightarrow> user \<Rightarrow> user" where
  "saved r u = u\<lparr>u_values := rowToValues (star r), u_modified := []\<rparr>"

text \<open>\<open>_insert\<close>: \<open>uuid\<close> is the value of \<open>crypto.randomUUID()\<close>.\<close>

definition save_insert :: "'r host \<Rightarrow> string \<Rightarrow> user \<Rightarrow> (db, user) act" where
  "save_insert h uuid u =
     (let values = (if truthy (getf u ''id'') then u_values u
                    else AList.update ''id'' (JStr uuid) (u_values u));
          fields = filter (\<lambda>f. f \<notin> set clock_fields) (map fst values);
          val = (\<lambda>f. case map_of values f of None \<Rightarrow> JUndef | Some v \<Rightarrow> v)
      in case write_assigns h val fields of
           Inl e \<Rightarrow> raise e
         | Inr as \<Rightarrow> bindE (rethrow_duplicate (insert_user (h_now h) as)) (\<lambda>r. ret ((saved r u)\<lparr>u_isNew := False\<rparr>)))"

definition JSONB_LIST :: "string list" where
  "JSONB_LIST = [''refreshTokens'', ''activeAccessJtis'', ''migrationHistory'']"

text \<open>
  The fields \<open>_update\<close> writes: the modified ones, and every loaded JSON field. A removed field
  is never in the list twice.
\<close>

definition write_fields :: "user \<Rightarrow> string list" where
  "write_fields u =
     filter (\<lambda>f. f \<noteq> ''id'' \<and> f \<notin> set clock_fields)
       (fold set_add (filter (\<lambda>f. map_of (u_values u) f \<noteq> None) JSONB_LIST) (u_modified u))"

definition save_update :: "'r host \<Rightarrow> user \<Rightarrow> (db, user) act" where
  "save_update h u =
     (case write_assigns h (getf u) (write_fields u) of
        Inl e \<Rightarrow> raise e
      | Inr as \<Rightarrow>
          bindE (rethrow_duplicate (update_user (h_now h) (getf u ''id'') as))
            (\<lambda>row. ret (case row of Some r \<Rightarrow> saved r u | None \<Rightarrow> u\<lparr>u_modified := []\<rparr>)))"

definition save :: "'r host \<Rightarrow> string \<Rightarrow> user \<Rightarrow> (db, user) act" where
  "save h uuid u = (if u_isNew u then save_insert h uuid u else save_update h u)"

text \<open>
  \<open>comparePassword\<close>: on a match that asks for a rehash the candidate is written as the password
  and saved; a failure to save is ignored (the document keeps the assignment).
\<close>

definition js_opt :: "js \<Rightarrow> string option" where
  "js_opt v = (case v of JStr s \<Rightarrow> Some s | _ \<Rightarrow> None)"

definition comparePassword :: "'r host \<Rightarrow> string \<Rightarrow> string \<Rightarrow> user \<Rightarrow> (db, bool \<times> user) act" where
  "comparePassword h uuid candidate u =
     (if \<not> truthy (getf u ''password'') then ret (False, u)
      else let v = verifyPassword (h_crypto h) (h_env h) candidate (js_opt (getf u ''password''))
           in if vr_match v \<and> vr_needsRehash v
              then let u' = setf u ''password'' (JStr candidate)
                   in bindE (catchE (save h uuid u') (\<lambda>_. ret u')) (\<lambda>u''. ret (True, u''))
              else ret (vr_match v, u))"

section \<open>Updates\<close>

text \<open>
  An update document. \<open>$push\<close> has the pushed elements and the slice when there is one; \<open>$unset\<close>
  has the fields.
\<close>

record update_doc =
  up_push :: "(string \<times> (js list \<times> int option)) list"
  up_pull :: "(string \<times> js) list"
  up_set :: "(string \<times> js) list"
  up_unset :: "string list"
  up_inc :: "(string \<times> int) list"

definition no_update :: update_doc where
  "no_update = \<lparr>up_push = [], up_pull = [], up_set = [], up_unset = [], up_inc = []\<rparr>"

definition js_slice :: "int \<Rightarrow> 'a list \<Rightarrow> 'a list" where
  "js_slice n xs = (if n < 0 then slice_last (nat (- n)) xs else take (nat n) xs)"

definition val_of :: "vals \<Rightarrow> string \<Rightarrow> js" where
  "val_of vs f = (case map_of vs f of None \<Rightarrow> JUndef | Some v \<Rightarrow> v)"

definition push_field :: "string \<times> js list \<times> int option \<Rightarrow> vals \<Rightarrow> vals" where
  "push_field p vs = (case p of (f, each, slice) \<Rightarrow>
     let current = elems (val_of vs f) @ each
     in AList.update f (JArr (case slice of None \<Rightarrow> current | Some n \<Rightarrow> js_slice n current)) vs)"

definition pull_field :: "string \<times> js \<Rightarrow> vals \<Rightarrow> vals" where
  "pull_field p vs = (case p of (f, v) \<Rightarrow>
     AList.update f (JArr (filter (\<lambda>x. x \<noteq> v) (elems (val_of vs f)))) vs)"

definition inc_field :: "string \<times> int \<Rightarrow> vals \<Rightarrow> vals" where
  "inc_field p vs = (case p of (f, n) \<Rightarrow>
     AList.update f (JNum ((case val_of vs f of JNum m \<Rightarrow> m | _ \<Rightarrow> 0) + n)) vs)"

definition updated_values :: "update_doc \<Rightarrow> vals \<Rightarrow> vals" where
  "updated_values up vs =
     (let vs = fold push_field (up_push up) vs;
          vs = fold pull_field (up_pull up) vs;
          vs = fold (\<lambda>(f, v). AList.update f v) (up_set up) vs;
          vs = fold (\<lambda>f. AList.update f JUndef) (up_unset up) vs
      in fold inc_field (up_inc up) vs)"

definition changed_fields :: "update_doc \<Rightarrow> string list" where
  "changed_fields up =
     fold set_add (map fst (up_push up) @ map fst (up_pull up) @ map fst (up_set up)
       @ up_unset up @ map fst (up_inc up)) []"

text \<open>Unlike \<open>save\<close>, this path does not hash a password.\<close>

definition update_param :: "string \<Rightarrow> js \<Rightarrow> js" where
  "update_param f v = (if f \<in> JSONB_FIELDS then (if nullish v then JArr [] else v) else if nullish v then JNull else v)"

fun update_assigns :: "vals \<Rightarrow> string list \<Rightarrow> exn + assigns" where
  "update_assigns vs [] = Inr []"
| "update_assigns vs (f # fs) =
     (if f = ''id'' then update_assigns vs fs
      else case columnName f of
             Inl e \<Rightarrow> Inl e
           | Inr c \<Rightarrow> (case update_assigns vs fs of
                         Inl e \<Rightarrow> Inl e
                       | Inr as \<Rightarrow> Inr ((c, update_param f (val_of vs f)) # as)))"

text \<open>
  \<open>applyUpdate\<close>: connect, begin, select for update, update, commit; an error rolls back and is
  translated. An empty filter leaves \<open>WHERE\<close> without a condition.
\<close>

definition nop :: "(db, unit) act" where
  "nop = query (ret ())"

definition update_body :: "'r host \<Rightarrow> filt \<Rightarrow> update_doc \<Rightarrow> (db, user option) act" where
  "update_body h f up =
     thenE nop
       (case buildWhere f [] of
          Inl e \<Rightarrow> raise e
        | Inr (cs, ps) \<Rightarrow>
            bindE (if cs = [] then query (raise syntax_error) else select_users (h_regex h) cs ps)
              (\<lambda>rows. case rows of
                 [] \<Rightarrow> thenE nop (ret None)
               | r # _ \<Rightarrow>
                   (case update_assigns (updated_values up (rowToValues (star r))) (changed_fields up) of
                      Inl e \<Rightarrow> raise e
                    | Inr as \<Rightarrow>
                        bindE (update_user (h_now h) (r ''id'') as)
                          (\<lambda>row. thenE nop (ret (map_option (\<lambda>r. loaded (star r)) row))))))"

definition applyUpdate :: "'r host \<Rightarrow> filt \<Rightarrow> update_doc \<Rightarrow> (db, user option) act" where
  "applyUpdate h f up =
     thenE nop
       (catchE (transaction (update_body h f up)) (\<lambda>e. thenE nop (raise (translateDuplicateKey e))))"

section \<open>The static interface\<close>

definition create :: "'r host \<Rightarrow> string \<Rightarrow> vals \<Rightarrow> (db, user) act" where
  "create h uuid data = save h uuid (new_User data True)"

definition findOneAndUpdate :: "'r host \<Rightarrow> filt \<Rightarrow> update_doc \<Rightarrow> (db, user option) act" where
  "findOneAndUpdate h f up = applyUpdate h f up"

definition findByIdAndUpdate :: "'r host \<Rightarrow> js \<Rightarrow> update_doc \<Rightarrow> (db, user option) act" where
  "findByIdAndUpdate h uid up = applyUpdate h (by_id uid) up"

definition findByIdAndDelete :: "'r host \<Rightarrow> js \<Rightarrow> (db, user option) act" where
  "findByIdAndDelete h uid =
     bindE (delete_users (\<lambda>r. r ''id'' = JStr (js_String uid)))
       (\<lambda>rows. ret (map_option (\<lambda>r. loaded (star r)) (first_row rows)))"

definition deleteMany :: "'r host \<Rightarrow> filt \<Rightarrow> (db, nat) act" where
  "deleteMany h f = (case buildWhere f [] of
      Inl e \<Rightarrow> raise e
    | Inr (cs, ps) \<Rightarrow>
        (if cs = [] \<or> \<not> list_all sql_wf cs then query (raise syntax_error)
         else bindE (delete_users (selects (h_regex h) cs ps)) (\<lambda>rows. ret (length rows))))"

text \<open>\<open>deleteOne\<close> has the same statement: it deletes every match.\<close>

definition deleteOne :: "'r host \<Rightarrow> filt \<Rightarrow> (db, nat) act" where
  "deleteOne h f = deleteMany h f"

section \<open>Reading a row back\<close>

lemma rev_columns [code]: "COLUMN_TO_FIELD_REV = COLUMN_TO_FIELD"
  by code_simp

lemma columns_aligned: "map c_name users_columns = map snd FIELD_TO_COLUMN"
  by code_simp

lemma rowToValues_star [code_unfold]: "rowToValues (star r) = map (\<lambda>(f, c). (f, r c)) FIELD_TO_COLUMN"
proof -
  have d: "distinct (map fst COLUMN_TO_FIELD)"
    using columns_distinct(2) by (simp add: COLUMN_TO_FIELD_def case_prod_beta' comp_def)
  have "rowToValues (map (\<lambda>(f, c). (c, r c)) xs) = map (\<lambda>(f, c). (f, r c)) xs"
    if "set xs \<subseteq> set FIELD_TO_COLUMN" for xs
    using that
  proof (induction xs)
    case (Cons p xs)
    obtain f c where p: "p = (f, c)" by fastforce
    with Cons.prems have "(c, f) \<in> set COLUMN_TO_FIELD" by (auto simp: COLUMN_TO_FIELD_def)
    with d have "map_of COLUMN_TO_FIELD c = Some f" by simp
    with Cons show ?case by (simp add: p rev_columns)
  qed simp
  moreover have "star r = map (\<lambda>(f, c). (c, r c)) FIELD_TO_COLUMN"
    using arg_cong [OF columns_aligned, of "map (\<lambda>c. (c, r c))"] by (simp add: star_def comp_def case_prod_beta')
  ultimately show ?thesis by simp
qed

lemma rev_lookup:
  "map_of COLUMN_TO_FIELD_REV c = Some f \<longleftrightarrow> (columnName f = Inr c \<and> f \<noteq> ''_id'')"
proof
  assume "map_of COLUMN_TO_FIELD_REV c = Some f"
  then have m: "(f, c) \<in> set FIELD_TO_COLUMN"
    by (auto simp: rev_columns COLUMN_TO_FIELD_def dest!: map_of_SomeD)
  have "f \<noteq> ''_id''"
  proof
    assume "f = ''_id''"
    with m have "''_id'' \<in> set (map fst FIELD_TO_COLUMN)" by force
    moreover have "''_id'' \<notin> set (map fst FIELD_TO_COLUMN)" by code_simp
    ultimately show False by simp
  qed
  with m columns_distinct(1) show "columnName f = Inr c \<and> f \<noteq> ''_id''" by (simp add: columnName_def)
next
  assume "columnName f = Inr c \<and> f \<noteq> ''_id''"
  then show "map_of COLUMN_TO_FIELD_REV c = Some f"
    using fieldName_columnName [of f c] by (auto simp: fieldName_def rev_columns split: option.splits)
qed

lemma rowToValues_lookup:
  assumes "columnName f = Inr c" and "f \<noteq> ''_id''"
  shows "map_of (rowToValues r) f = map_of r c"
proof -
  have same: "map_of COLUMN_TO_FIELD_REV c = Some f" using assms by (simp add: rev_lookup)
  have other: "map_of COLUMN_TO_FIELD_REV c' \<noteq> Some f" if "c' \<noteq> c" for c'
    using assms that by (auto simp: rev_lookup)
  show ?thesis
  proof (induction r rule: rowToValues.induct)
    case (2 c' v r)
    then show ?case using other [of c'] by (cases "c' = c") (auto simp: same split: option.splits)
  qed simp
qed

lemma rowToValues_unknown:
  assumes "\<And>c. columnName f = Inr c \<Longrightarrow> f = ''_id''"
  shows "map_of (rowToValues r) f = None"
  using assms by (induction r rule: rowToValues.induct) (auto simp: rev_lookup split: option.splits)

lemma rowToValues_keys: "columnName f = Inr c \<Longrightarrow> f \<in> fst ` set (rowToValues r) \<Longrightarrow> c \<in> fst ` set r"
  by (induction r rule: rowToValues.induct) (auto simp: rev_lookup split: option.splits)

lemma rowToValues_distinct: "distinct (map fst r) \<Longrightarrow> distinct (map fst (rowToValues r))"
proof (induction r rule: rowToValues.induct)
  case (2 c v r)
  have "f \<notin> set (map fst (rowToValues r))" if f: "columnName f = Inr c" for f
  proof
    assume "f \<in> set (map fst (rowToValues r))"
    with rowToValues_keys [OF f, of r] have "c \<in> set (map fst r)" by simp
    with "2.prems" show False by simp
  qed
  with 2 show ?case by (auto simp: rev_lookup split: option.splits)
qed simp

lemma map_of_project: "map_of (project cols r) c = (if c \<in> set cols then Some (r c) else None)"
  by (induction cols) (auto simp: project_def)

lemma star_project: "star r = project (map c_name users_columns) r"
  by (simp add: star_def project_def)

lemma val_of_defined: "distinct (map fst vs) \<Longrightarrow> val_of (filter (\<lambda>(k, v). v \<noteq> JUndef) vs) f = val_of vs f"
proof (induction vs)
  case (Cons p vs)
  obtain k v where p: "p = (k, v)" by fastforce
  have "map_of (filter (\<lambda>(k, v). v \<noteq> JUndef) vs) k = None" if "k \<notin> set (map fst vs)"
    using that by (force simp: map_of_eq_None_iff)
  with Cons show ?case by (auto simp: p val_of_def)
qed simp

lemma getf_val: "getf u f = val_of (u_values u) (if f = ''_id'' then ''id'' else f)"
  by (simp add: getf_def val_of_def)

text \<open>A loaded document has the selected columns; the other fields read as undefined.\<close>

lemma field_column: "f \<in> set ALL_FIELDS \<Longrightarrow> f \<noteq> ''_id''" "f \<in> set ALL_FIELDS \<Longrightarrow> \<exists>c. columnName f = Inr c"
proof -
  have "list_all (\<lambda>f. f \<noteq> ''_id'') ALL_FIELDS" by code_simp
  then show "f \<in> set ALL_FIELDS \<Longrightarrow> f \<noteq> ''_id''" by (auto simp: list_all_iff)
  then show "f \<in> set ALL_FIELDS \<Longrightarrow> \<exists>c. columnName f = Inr c"
    using columns_distinct(1) by (auto simp: ALL_FIELDS_def columnName_def)
qed

definition field_col :: "string \<Rightarrow> string" where
  "field_col f = (case columnName f of Inl e \<Rightarrow> [] | Inr c \<Rightarrow> c)"

lemma columnName_field: "f \<in> set ALL_FIELDS \<Longrightarrow> columnName f = Inr (field_col f)"
  using field_column(2) [of f] by (auto simp: field_col_def)

lemma fieldName_field: "f \<in> set ALL_FIELDS \<Longrightarrow> fieldName (field_col f) = Inr f"
  by (rule fieldName_columnName [OF columnName_field field_column(1)])

lemma field_col_inj: "f \<in> set ALL_FIELDS \<Longrightarrow> g \<in> set ALL_FIELDS \<Longrightarrow> field_col f = field_col g \<Longrightarrow> f = g"
  by (metis fieldName_field sum.inject(2))

lemma getf_loaded:
  assumes "distinct cols" and "f \<in> set ALL_FIELDS"
  shows "getf (loaded (project cols r)) f =
    (if \<exists>c \<in> set cols. columnName f = Inr c then field_value r f else JUndef)"
proof -
  from field_column [OF assms(2)] obtain c where c: "columnName f = Inr c" and f: "f \<noteq> ''_id''" by blast
  have "distinct (map fst (project cols r))" using assms(1) by (simp add: project_def comp_def)
  note d = rowToValues_distinct [OF this]
  show ?thesis
    by (simp add: getf_val loaded_def new_User_def val_of_defined [OF d] f)
      (auto simp: val_of_def rowToValues_lookup [OF c f] map_of_project field_value_def c)
qed

lemma star_columns: "f \<in> set ALL_FIELDS \<Longrightarrow> \<exists>c \<in> set (map c_name users_columns). columnName f = Inr c"
proof -
  have "list_all (\<lambda>f. list_ex (\<lambda>c. columnName f = Inr (c_name c)) users_columns) ALL_FIELDS" by code_simp
  then show "f \<in> set ALL_FIELDS \<Longrightarrow> ?thesis" by (auto simp: list_all_iff list_ex_iff)
qed

lemma getf_star: "f \<in> set ALL_FIELDS \<Longrightarrow> getf (loaded (star r)) f = field_value r f"
  using star_columns [of f] by (simp add: star_project getf_loaded [OF users_columns_distinct])

lemma getf_saved: "f \<in> set ALL_FIELDS \<Longrightarrow> getf (saved r u) f = field_value r f"
proof -
  assume f: "f \<in> set ALL_FIELDS"
  have "distinct (map fst (star r))"
    using users_columns_distinct by (simp add: star_def comp_def)
  from val_of_defined [OF rowToValues_distinct [OF this]]
  have "getf (saved r u) f = getf (loaded (star r)) f"
    by (simp add: getf_val saved_def loaded_def new_User_def)
  with f show ?thesis by (simp add: getf_star)
qed

section \<open>What the statements do when the database answers\<close>

definition user_row :: "db \<Rightarrow> string \<Rightarrow> row option" where
  "user_row d uid = find (\<lambda>r. r ''id'' = JStr uid) (users d)"

lemma query_ok: "faults d = [] \<Longrightarrow> query m d = m d"
  by (simp add: query_def)

lemma nop_ok [act_simps]: "faults d = [] \<Longrightarrow> nop d = (Inr (), d)"
  by (simp add: nop_def query_ok act_simps)

lemma eq3_T: "eq3 a (JStr s) = T \<longleftrightarrow> a = JStr s"
  by (auto simp: eq3_def tri_def)

lemma by_id_where: "buildWhere (by_id uid) [] = Inr ([SEq ''id'' 1], [JStr (js_String uid)])"
proof -
  have "columnName ''id'' = Inr ''id''" by code_simp
  then show ?thesis by (simp add: by_id_def push_def JSONB_FIELDS_def)
qed

lemma selects_id: "selects re [SEq ''id'' (Suc 0)] [JStr s] = (\<lambda>r. r ''id'' = JStr s)"
  by (rule ext) (simp add: selects_def param_def eq3_T)

lemma take_filter_find: "first_row (take (Suc 0) (filter P xs)) = find P xs"
  by (induction xs) (auto simp: first_row_def)

lemma first_row_map: "first_row (map f xs) = map_option f (first_row xs)"
  by (cases xs) (simp_all add: first_row_def)

text \<open>The projections the callers use name known fields, each once.\<close>

definition known :: "string option \<Rightarrow> bool" where
  "known p \<longleftrightarrow> set (resolveFields p) \<subseteq> set ALL_FIELDS \<and> distinct (resolveFields p)"

definition columns_of :: "string option \<Rightarrow> string list" where
  "columns_of p = map field_col (resolveFields p)"

lemma all_Inr_map: "(\<And>x. x \<in> set xs \<Longrightarrow> g x = Inr (f x)) \<Longrightarrow> all_Inr (map g xs) = Inr (map f xs)"
  by (induction xs) simp_all

lemma known_columns: "known p \<Longrightarrow> all_Inr (map columnName (resolveFields p)) = Inr (columns_of p)"
  unfolding columns_of_def by (rule all_Inr_map) (auto simp: known_def intro: columnName_field)

lemma known_distinct: "known p \<Longrightarrow> distinct (columns_of p)"
  unfolding known_def columns_of_def distinct_map by (meson field_col_inj inj_onI subsetD)

lemma getf_found:
  assumes "known p" and "f \<in> set ALL_FIELDS"
  shows "getf (loaded (project (columns_of p) r)) f = (if f \<in> set (resolveFields p) then field_value r f else JUndef)"
proof -
  have "field_col f \<in> field_col ` set (resolveFields p) \<longleftrightarrow> f \<in> set (resolveFields p)"
    using assms field_col_inj [OF assms(2)] by (auto simp: known_def)
  then have "(\<exists>c \<in> set (columns_of p). columnName f = Inr c) \<longleftrightarrow> f \<in> set (resolveFields p)"
    by (auto simp: columns_of_def columnName_field [OF assms(2)])
  then show ?thesis by (simp add: getf_loaded [OF known_distinct [OF assms(1)] assms(2)])
qed

lemma set_add_distinct: "distinct xs \<Longrightarrow> distinct (fold (\<lambda>t. set_add (g t)) ts xs)"
  and set_add_set: "set (fold (\<lambda>t. set_add (g t)) ts xs) = set xs \<union> g ` set ts"
  by (induction ts arbitrary: xs) (auto simp: set_add_def)

definition additive :: "string \<Rightarrow> bool" where
  "additive p \<longleftrightarrow> p \<noteq> [] \<and> list_all (\<lambda>t. starts_plus t \<and> tl t \<in> set ALL_FIELDS) (words p)"

lemma default_fields_ok: "set default_fields \<subseteq> set ALL_FIELDS" "distinct default_fields"
  using columns_distinct(1) by (auto simp: default_fields_def ALL_FIELDS_def)

lemma additive_fields:
  assumes "additive p"
  shows "resolveFields (Some p) = fold (\<lambda>t. set_add (tl t)) (words p) default_fields"
proof -
  have "filter (\<lambda>t. \<not> starts_plus t) (words p) = []" "filter starts_plus (words p) = words p"
    using assms by (auto simp: additive_def list_all_iff filter_id_conv)
  then show ?thesis using assms by (simp add: resolveFields_def additive_def or_undef_def Let_def)
qed

lemma known_additive: "additive p \<Longrightarrow> known (Some p)"
  using default_fields_ok
  by (auto simp: known_def additive_fields set_add_set additive_def list_all_iff intro: set_add_distinct)

lemma known_default: "known None"
  using default_fields_ok by (simp add: known_def resolveFields_def or_undef_def)

lemma findById_row:
  assumes "known p" and "faults d = []"
  shows "findById h (JStr uid) p d = (Inr (map_option (\<lambda>r. loaded (project (columns_of p) r)) (user_row d uid)), d)"
  by (simp add: findById_def findOne_def execute_select_def known_columns assms by_id_where select_users_def query_ok
      bindE_def ret_apply selects_id take_map first_row_map take_filter_find option.map_comp comp_def user_row_def
      del: buildWhere.simps)

lemma find_user_id: "find (\<lambda>r. eq3 (r ''id'') (JStr uid) = T) (users d) = user_row d uid"
  by (simp add: eq3_T user_row_def)

lemma assign_unassigned:
  assumes "assign users_columns r0 as = Inr r" and "n \<in> set (map c_name users_columns)" and "n \<notin> fst ` set as"
  shows "r n = r0 n"
proof -
  from assms(2) obtain c where c: "c \<in> set users_columns" "c_name c = n" by auto
  from assms(3) have "map_of as n = None" by (simp add: map_of_eq_None_iff)
  with assign_apply(1) [OF assms(1) users_columns_distinct c(1)] show ?thesis by (simp add: c(2))
qed

lemma user_row_Some: "user_row d uid = Some r \<Longrightarrow> r \<in> set (users d) \<and> r ''id'' = JStr uid"
  unfolding user_row_def by (auto simp: find_Some_iff)

text \<open>An update by id that changes a row: only that row, and the row is what the assignments make it.\<close>

lemma update_user_effect:
  assumes "db_ok d" and "update_user now (JStr uid) as d = (Inr (Some r), d')" and "''id'' \<notin> fst ` set as"
    and "faults d = []"
  shows "\<exists>r0. user_row d uid = Some r0 \<and> assign users_columns r0 (as @ [(''updated_at'', JDate now)]) = Inr r
    \<and> user_row d' uid = Some r \<and> (\<forall>v. v \<noteq> uid \<longrightarrow> user_row d' v = user_row d v)
    \<and> identities d' = identities d \<and> faults d' = [] \<and> db_ok d'"
proof -
  from assms(2,4) obtain r0 where r0: "user_row d uid = Some r0"
    by (auto simp: update_user_def query_ok find_user_id split: option.splits)
  from assms(1) have u: "unclashed users_keys (users d)" by (simp add: db_ok_def)
  from only_row [OF u, of "''id''", OF _ db_ok_user_ids [OF assms(1)] r0 [unfolded user_row_def]]
  obtain xs ys where rs: "users d = xs @ r0 # ys"
    and fl: "filter (\<lambda>r'. r' ''id'' \<noteq> r0 ''id'') (users d) = xs @ ys"
    and mp: "\<And>r. map (\<lambda>r'. if r' ''id'' = r0 ''id'' then r else r') (users d) = xs @ r # ys"
    by (auto simp: users_keys_def)
  from assms(2,4) have as: "assign users_columns r0 (as @ [(''updated_at'', JDate now)]) = Inr r"
    and d': "d' = d\<lparr>users := xs @ r # ys\<rparr>"
    by (auto simp: update_user_def query_ok find_user_id r0 mp split: sum.splits if_splits option.splits)
  from user_row_Some [OF r0] have id0: "r0 ''id'' = JStr uid" by simp
  have "''id'' \<in> set (map c_name users_columns)" by code_simp
  from assign_unassigned [OF as this] assms(3) id0 have id: "r ''id'' = JStr uid" by simp
  have "\<forall>r' \<in> set (xs @ ys). r' ''id'' \<noteq> JStr uid"
  proof -
    have "set (filter (\<lambda>r'. r' ''id'' \<noteq> r0 ''id'') (users d)) = set (xs @ ys)" by (simp only: fl)
    then show ?thesis using id0 by auto
  qed
  then have 1: "user_row d' uid = Some r"
    by (auto simp: d' user_row_def id find_append find_Some_iff split: option.splits)
  have 2: "user_row d' v = user_row d v" if "v \<noteq> uid" for v
    using that by (simp add: d' user_row_def id id0 rs find_append split: option.splits)
  have "db_ok d'" by (rule keepsD [OF keeps_update_user assms(1,2)])
  with r0 as 1 2 assms(4) show ?thesis by (simp add: d')
qed

lemma insert_user_effect:
  assumes "db_ok d" and "insert_user now as d = (Inr r, d')" and "faults d = []"
  shows "assign users_columns (default_row users_columns now) as = Inr r
    \<and> (\<exists>uid. r ''id'' = JStr uid \<and> user_row d uid = None \<and> user_row d' uid = Some r
        \<and> (\<forall>v. v \<noteq> uid \<longrightarrow> user_row d' v = user_row d v))
    \<and> identities d' = identities d \<and> faults d' = [] \<and> db_ok d'"
proof -
  from assms(2,3) have as: "assign users_columns (default_row users_columns now) as = Inr r"
    and c: "users_constraints (users d) r = None" and d': "d' = d\<lparr>users := users d @ [r]\<rparr>"
    by (auto simp: insert_user_def query_ok split: sum.splits option.splits)
  have ok: "db_ok d'" by (rule keepsD [OF keeps_insert_user assms(1,2)])
  then have r: "users_row_ok r" by (simp add: d' db_ok_def)
  have "\<exists>uid. r ''id'' = JStr uid"
  proof -
    from r have "has_type TText (r ''id'')" "r ''id'' \<noteq> JNull"
      by (simp_all add: users_row_ok_def well_typed_def users_row_id [OF r] users_columns_def col_defs)
    then show ?thesis by (cases "r ''id''") simp_all
  qed
  then obtain uid where id: "r ''id'' = JStr uid" by blast
  have "r' ''id'' \<noteq> JStr uid" if "r' \<in> set (users d)" for r'
  proof -
    from c that have "free_of users_keys r r'" by (simp add: users_constraints_None)
    then show ?thesis by (auto simp: free_of_def users_keys_def clash_def id)
  qed
  then have none: "user_row d uid = None" by (simp add: user_row_def find_None_iff)
  then have "user_row d' uid = Some r" by (simp add: d' user_row_def find_append id)
  moreover have "user_row d' v = user_row d v" if "v \<noteq> uid" for v
    using that by (simp add: d' user_row_def find_append id split: option.splits)
  ultimately show ?thesis using as ok id none assms(3) by (auto simp: d')
qed

text \<open>The columns of the table hold values of their types.\<close>

definition users_type :: "string \<Rightarrow> coltype option" where
  "users_type n = map_option c_type (find (\<lambda>c. c_name c = n) users_columns)"

lemma users_type_column: "users_type n = Some ty \<Longrightarrow> \<exists>c \<in> set users_columns. c_name c = n \<and> c_type c = ty"
  by (auto simp: users_type_def find_Some_iff)

lemma assign_value:
  assumes "assign users_columns r0 as = Inr r" and "users_type n = Some ty"
  shows "r n = (case map_of as n of None \<Rightarrow> r0 n | Some v \<Rightarrow> the (coerce ty v))"
proof -
  from users_type_column [OF assms(2)] obtain c where c: "c \<in> set users_columns" "c_name c = n" "c_type c = ty" by blast
  from assign_apply(1) [OF assms(1) users_columns_distinct c(1)] show ?thesis unfolding c(2,3) .
qed

lemma row_typed: "users_row_ok r \<Longrightarrow> users_type n = Some ty \<Longrightarrow> has_type ty (r n)"
  using users_type_column [of n ty] by (auto simp: users_row_ok_def well_typed_def list_all_iff)

lemma users_types:
  "users_type ''id'' = Some TText" "users_type ''email'' = Some TText" "users_type ''previous_email'' = Some TText"
  "users_type ''password'' = Some TText" "users_type ''display_name'' = Some TText" "users_type ''avatar'' = Some TText"
  "users_type ''bio'' = Some TText" "users_type ''is_email_verified'' = Some TBool"
  "users_type ''login_count'' = Some TInt" "users_type ''last_login'' = Some TTime"
  "users_type ''email_verification_token'' = Some TText" "users_type ''email_verification_expires'' = Some TTime"
  "users_type ''password_reset_token'' = Some TText" "users_type ''password_reset_expires'' = Some TTime"
  "users_type ''provider'' = Some TText" "users_type ''provider_id'' = Some TText"
  "users_type ''refresh_tokens'' = Some TJson" "users_type ''active_access_jtis'' = Some TJson"
  "users_type ''token_version'' = Some TInt" "users_type ''migration_expiry'' = Some TTime"
  "users_type ''migration_token'' = Some TText" "users_type ''migration_token_expires'' = Some TTime"
  "users_type ''new_email_pending'' = Some TText" "users_type ''last_migration_date'' = Some TTime"
  "users_type ''current_email_verified'' = Some TBool" "users_type ''new_email_verified'' = Some TBool"
  "users_type ''current_email_token'' = Some TText" "users_type ''new_email_token'' = Some TText"
  "users_type ''last_migration_email_sent'' = Some TTime" "users_type ''migration_history'' = Some TJson"
  "users_type ''created_at'' = Some TTime" "users_type ''updated_at'' = Some TTime"
  by (simp_all add: users_type_def users_columns_def col_defs)

section \<open>Every operation keeps the constraints of the tables\<close>

lemma keeps_rethrow: "keeps db_ok m \<Longrightarrow> keeps db_ok (rethrow_duplicate m)"
  unfolding rethrow_duplicate_def by (intro keeps_catchE keeps_raise)

lemma keeps_nop: "keeps db_ok nop"
  unfolding nop_def by (rule keeps_query) (simp add: ret_def)

lemma keeps_execute_select: "keeps db_ok (execute_select h f p n)"
  unfolding execute_select_def
  by (auto split: sum.splits prod.splits intro: keeps_bindE keeps_select_users keeps_ret keeps_raise)

lemma keeps_findOne: "keeps db_ok (findOne h f p)"
  and keeps_findOne_lean: "keeps db_ok (findOne_lean h f p)"
  and keeps_findById: "keeps db_ok (findById h uid p)"
  and keeps_find_users: "keeps db_ok (find_users h f p)"
  unfolding findOne_def findOne_lean_def findById_def find_users_def
  by (intro keeps_bindE keeps_execute_select keeps_ret)+

lemma keeps_save: "keeps db_ok (save h uuid u)"
  unfolding save_def save_insert_def save_update_def Let_def
  by (auto split: sum.splits intro!: keeps_bindE keeps_rethrow keeps_insert_user keeps_update_user keeps_ret keeps_raise)

lemma keeps_update_body: "keeps db_ok (update_body h f up)"
proof -
  have "keeps db_ok (query (raise e))" for e by (rule keeps_query) (simp add: raise_def)
  then show ?thesis unfolding update_body_def
    by (auto split: sum.splits prod.splits list.splits
        intro!: keeps_thenE keeps_bindE keeps_nop keeps_select_users keeps_update_user keeps_ret keeps_raise)
qed

lemma keeps_applyUpdate: "keeps db_ok (applyUpdate h f up)"
  unfolding applyUpdate_def
  by (intro keeps_thenE keeps_catchE keeps_transaction keeps_update_body keeps_nop keeps_raise)

lemma keeps_deleteMany: "keeps db_ok (deleteMany h f)"
proof -
  have "keeps db_ok (query (raise e))" for e by (rule keeps_query) (simp add: raise_def)
  then show ?thesis unfolding deleteMany_def
    by (auto split: sum.splits prod.splits intro!: keeps_bindE keeps_delete_users keeps_ret keeps_raise)
qed

lemma keeps_comparePassword: "keeps db_ok (comparePassword h uuid cand u)"
  unfolding comparePassword_def Let_def by (auto intro!: keeps_bindE keeps_catchE keeps_save keeps_ret)

lemma keeps_findByIdAndDelete: "keeps db_ok (findByIdAndDelete h uid)"
  unfolding findByIdAndDelete_def by (intro keeps_bindE keeps_delete_users keeps_ret)

lemmas keeps_user_model = keeps_findOne keeps_findOne_lean keeps_findById keeps_find_users keeps_save
  keeps_applyUpdate keeps_deleteMany keeps_comparePassword keeps_findByIdAndDelete

section \<open>Properties\<close>

text \<open>
  (C33) A query without a projection, and so every document the handlers load by default, carries
  neither the password nor the refresh tokens nor the access-token ids: these fields read as
  undefined.
\<close>

theorem sensitive_fields_hidden:
  assumes "findOne h f None d = (Inr (Some u), d')" and "s \<in> SENSITIVE_FIELDS"
  shows "getf u s = JUndef"
proof -
  from assms(1) obtain r where u: "u = loaded (project (columns_of None) r)"
    by (auto simp: findOne_def execute_select_def known_columns [OF known_default] bindE_eq_Inr ret_def raise_def
        first_row_map split: sum.splits prod.splits simp del: buildWhere.simps)
  have "list_all (\<lambda>s. s \<in> set ALL_FIELDS) [''password'', ''refreshTokens'', ''activeAccessJtis'']" by code_simp
  with assms(2) have "s \<in> set ALL_FIELDS" by (auto simp: SENSITIVE_FIELDS_def)
  moreover have "s \<notin> set (resolveFields None)"
    using assms(2) by (simp add: resolveFields_def or_undef_def default_fields_def)
  ultimately show ?thesis by (simp add: u getf_found [OF known_default])
qed

lemma write_assigns_eq:
  "write_assigns h val fs = Inr as \<Longrightarrow> as = map (\<lambda>f. (field_col f, write_param h f (val f))) fs"
  by (induction fs arbitrary: as) (auto simp: field_col_def split: sum.splits)

lemma field_type: "f \<in> set ALL_FIELDS \<Longrightarrow> \<exists>ty. users_type (field_col f) = Some ty"
proof -
  assume f: "f \<in> set ALL_FIELDS"
  from star_columns [OF f] columnName_field [OF f] have "field_col f \<in> set (map c_name users_columns)" by auto
  then obtain c where "c \<in> set users_columns" "c_name c = field_col f" by auto
  with find_column [OF users_columns_distinct] show ?thesis by (metis option.simps(9) users_type_def)
qed

lemma field_value_col: "f \<in> set ALL_FIELDS \<Longrightarrow> field_value r f = r (field_col f)"
  by (simp add: field_value_def columnName_field)

text \<open>What the table holds for a field that is written with a value.\<close>

definition stored :: "'r host \<Rightarrow> string \<Rightarrow> js \<Rightarrow> js" where
  "stored h f v = (case users_type (field_col f) of None \<Rightarrow> JUndef | Some ty \<Rightarrow> the (coerce ty (write_param h f v)))"

lemma written_field:
  assumes as: "assign users_columns r0 (as @ as') = Inr r"
    and w: "write_assigns h val fs = Inr as" and f: "f \<in> set ALL_FIELDS" "f \<in> set fs"
  shows "field_value r f = stored h f (val f)"
proof -
  from field_type [OF f(1)] obtain ty where ty: "users_type (field_col f) = Some ty" by blast
  from as have "distinct (map fst (as @ as'))" by (auto simp: assign_def split: if_splits)
  moreover have "(field_col f, write_param h f (val f)) \<in> set (as @ as')"
    using f(2) by (auto simp: write_assigns_eq [OF w])
  ultimately have "map_of (as @ as') (field_col f) = Some (write_param h f (val f))"
    by (rule map_of_is_SomeI)
  with assign_value [OF as ty] show ?thesis by (simp add: field_value_col [OF f(1)] stored_def ty)
qed

lemma unwritten_field:
  assumes as: "assign users_columns r0 (as @ as') = Inr r" and w: "write_assigns h val fs = Inr as"
    and f: "f \<in> set ALL_FIELDS" "field_col f \<notin> field_col ` set fs" "field_col f \<notin> fst ` set as'"
  shows "field_value r f = field_value r0 f"
proof -
  from field_type [OF f(1)] obtain ty where ty: "users_type (field_col f) = Some ty" by blast
  have "map_of (as @ as') (field_col f) = None"
    using f(2,3) by (auto simp: map_of_eq_None_iff write_assigns_eq [OF w] image_image)
  with assign_value [OF as ty] show ?thesis by (simp only: field_value_col [OF f(1)]) simp
qed

text \<open>
  (C34) What is created is what is found: when \<open>create\<close> succeeds, the database holds a row under
  the id of the returned document, a later \<open>findById\<close> returns it with exactly the fields of the
  projection, each with the value of the returned document, and every field given at creation
  has the stored form of its value (passwords hashed, missing JSON arrays empty, undefined as
  null).
\<close>

theorem create_find_roundtrip:
  assumes "db_ok d" and "faults d = []" and "create h uuid data d = (Inr u, d')" and "known p"
    and "distinct (map fst data)"
  shows "\<exists>v. findById h (getf u ''id'') p d' = (Inr (Some v), d')
      \<and> (\<forall>f \<in> set (resolveFields p). getf v f = getf u f)
      \<and> (\<forall>f \<in> set ALL_FIELDS - set (resolveFields p). getf v f = JUndef)
      \<and> (\<forall>f \<in> set ALL_FIELDS - set clock_fields. \<forall>x. map_of data f = Some x \<and> f \<noteq> ''id'' \<and> x \<noteq> JUndef
             \<longrightarrow> getf u f = stored h f x)"
proof -
  define u0 where "u0 = new_User data True"
  define values0 where "values0 = (if truthy (getf u0 ''id'') then u_values u0 else AList.update ''id'' (JStr uuid) (u_values u0))"
  define val where "val = (\<lambda>f. case map_of values0 f of None \<Rightarrow> JUndef | Some v \<Rightarrow> v)"
  define fs where "fs = filter (\<lambda>f. f \<notin> set clock_fields) (map fst values0)"
  from assms(3) have s: "save_insert h uuid u0 d = (Inr u, d')" by (simp add: create_def save_def u0_def new_User_def)
  then obtain as r where w: "write_assigns h val fs = Inr as" and ins: "insert_user (h_now h) as d = (Inr r, d')"
    and u: "u = (saved r u0)\<lparr>u_isNew := False\<rparr>"
    by (auto simp: save_insert_def Let_def values0_def [symmetric] val_def [symmetric] fs_def [symmetric]
        rethrow_duplicate_def bindE_eq_Inr catchE_def act_simps ret_def raise_def split: sum.splits prod.splits)
  from insert_user_effect [OF assms(1) ins assms(2)] obtain uid
    where as: "assign users_columns (default_row users_columns (h_now h)) as = Inr r"
      and id: "r ''id'' = JStr uid" "user_row d' uid = Some r" and ok: "faults d' = []" by blast
  have getu: "getf u f = field_value r f" if "f \<in> set ALL_FIELDS" for f
    using getf_saved [OF that, of r u0] by (simp add: u getf_def)
  have idf: "''id'' \<in> set ALL_FIELDS" and idc: "field_col ''id'' = ''id''" by code_simp+
  have uid: "getf u ''id'' = JStr uid" by (simp add: getu [OF idf] field_value_col [OF idf] idc id(1))
  from findById_row [OF assms(4) ok, of h uid] id(2)
  have found: "findById h (getf u ''id'') p d' = (Inr (Some (loaded (project (columns_of p) r))), d')"
    by (simp add: uid)
  have data: "getf u f = stored h f x"
    if f: "f \<in> set ALL_FIELDS" "f \<notin> set clock_fields" "f \<noteq> ''id''" and x: "map_of data f = Some x" "x \<noteq> JUndef" for f x
  proof -
    have "val_of (u_values u0) f = x"
      using x(1) by (simp add: u0_def new_User_def val_of_defined [OF assms(5)]) (simp add: val_of_def)
    with x(2) have m: "map_of (u_values u0) f = Some x" by (auto simp: val_of_def split: option.splits)
    then have v: "map_of values0 f = Some x" using f(3) by (simp add: values0_def update_conv')
    then have "f \<in> set fs" using f(2) by (force simp: fs_def dest: map_of_SomeD)
    with written_field [of _ as "[]", OF _ w f(1)] as v show ?thesis by (simp add: getu [OF f(1)] val_def)
  qed
  from assms(4) have sub: "set (resolveFields p) \<subseteq> set ALL_FIELDS" by (simp add: known_def)
  show ?thesis
    by (rule exI [of _ "loaded (project (columns_of p) r)"])
      (use found data sub in \<open>auto simp: getf_found [OF assms(4)] getu\<close>)
qed

definition demo_data :: vals where
  "demo_data = [(''email'', JStr ''a@b.c''), (''password'', JStr ''pw''), (''displayName'', JStr ''A'')]"

lemma demo_created: "\<exists>u d'. create demo_host ''u1'' demo_data empty_db = (Inr u, d') \<and> getf u ''email'' = JStr ''a@b.c''"
proof -
  have "(case create demo_host ''u1'' demo_data empty_db of
      (Inl e, d) \<Rightarrow> False | (Inr u, d) \<Rightarrow> getf u ''email'' = JStr ''a@b.c'')" by code_simp
  then show ?thesis by (auto split: prod.splits sum.splits)
qed

theorem create_find_roundtrip_witness:
  "\<exists>u d' v. create demo_host ''u1'' demo_data empty_db = (Inr u, d')
     \<and> findById demo_host (getf u ''id'') None d' = (Inr (Some v), d')
     \<and> getf v ''password'' = JUndef \<and> getf u ''password'' = stored demo_host ''password'' (JStr ''pw'')"
proof -
  from demo_created obtain u d' where c: "create demo_host ''u1'' demo_data empty_db = (Inr u, d')" by blast
  have m: "''password'' \<in> set ALL_FIELDS - set (resolveFields None)" "''password'' \<in> set ALL_FIELDS - set clock_fields"
    by code_simp+
  have d: "distinct (map fst demo_data)" and p: "map_of demo_data ''password'' = Some (JStr ''pw'')"
    by (simp_all add: demo_data_def)
  from create_find_roundtrip [OF empty_db_ok c known_default d] obtain v
    where "findById demo_host (getf u ''id'') None d' = (Inr (Some v), d')" "getf v ''password'' = JUndef"
      "getf u ''password'' = stored demo_host ''password'' (JStr ''pw'')"
    using m p by blast
  with c show ?thesis by blast
qed

text \<open>A document found without a projection in the same table.\<close>

theorem sensitive_fields_hidden_witness:
  "\<exists>u d d'. findOne demo_host (by_id (JStr ''u1'')) None d = (Inr (Some u), d')
     \<and> getf u ''email'' = JStr ''a@b.c'' \<and> getf u ''password'' = JUndef"
proof -
  have "(case findOne demo_host (by_id (JStr ''u1'')) None (snd (create demo_host ''u1'' demo_data empty_db)) of
      (Inr (Some u), d) \<Rightarrow> getf u ''email'' = JStr ''a@b.c'' | _ \<Rightarrow> False)" by code_simp
  then obtain u d' where f: "findOne demo_host (by_id (JStr ''u1'')) None (snd (create demo_host ''u1'' demo_data empty_db)) = (Inr (Some u), d')"
    and "getf u ''email'' = JStr ''a@b.c''"
    by (auto split: prod.splits sum.splits option.splits)
  with sensitive_fields_hidden [OF f, of "''password''"] show ?thesis by (auto simp: SENSITIVE_FIELDS_def)
qed

end
