(* ===== verification/Identity_Index.thy ===== *)
theory Identity_Index
  imports User_Model "HOL-Library.List_Lexorder" "HOL-Library.Char_ord"
begin

text \<open>
  The inverted identity index: the table model of \<open>db/UserIdentityIndex.ts\<close> and the service of
  \<open>services/identity-index.service.ts\<close>, which keeps one row per e-mail address or OAuth identity
  that leads to a user.
\<close>

section \<open>The table model\<close>

definition IDENTITY_COLUMNS :: "(string \<times> string) list" where
  "IDENTITY_COLUMNS = [
     (''key'', ''key''),
     (''kind'', ''kind''),
     (''userId'', ''user_id''),
     (''provider'', ''provider''),
     (''verified'', ''verified''),
     (''expiresAt'', ''expires_at''),
     (''createdAt'', ''created_at''),
     (''updatedAt'', ''updated_at'')]"

definition identity_column :: "string \<Rightarrow> string" where
  "identity_column f = (case map_of IDENTITY_COLUMNS f of None \<Rightarrow> f | Some c \<Rightarrow> c)"

record identity =
  id_key :: js
  id_kind :: js
  id_userId :: js
  id_provider :: js
  id_verified :: js
  id_expiresAt :: js
  id_createdAt :: js
  id_updatedAt :: js

definition rowToDoc :: "row \<Rightarrow> identity" where
  "rowToDoc r = \<lparr>id_key = r ''key'', id_kind = r ''kind'', id_userId = r ''user_id'', id_provider = r ''provider'',
     id_verified = r ''verified'', id_expiresAt = r ''expires_at'', id_createdAt = r ''created_at'',
     id_updatedAt = r ''updated_at''\<rparr>"

text \<open>
  The conditions of this table's own compiler; \<open>col <> $n\<close> is the negation of the equality. The
  entries of an array are its indices, which are no operators.
\<close>

definition identity_op :: "string \<Rightarrow> string \<Rightarrow> fvalue \<Rightarrow> sql build" where
  "identity_op c op v params =
     (case cmp_op op of
        Some cmp \<Rightarrow> push (fparam v) (SCmp cmp c) params
      | None \<Rightarrow>
          if op = ''$ne'' then
            (if v = FScalar JNull then Inr (SNotNull c, params) else push (fparam v) (\<lambda>i. SNot (SEq c i)) params)
          else if op = ''$in'' then push (fparam v) (SAny c) params
          else if op = ''$nin'' then push (fparam v) (SNotAny c) params
          else Inl (Error (''Unsupported operator for identity index: '' @ op)))"

fun identity_ops :: "string \<Rightarrow> (string \<times> fvalue) list \<Rightarrow> sql list build" where
  "identity_ops c [] params = Inr ([], params)"
| "identity_ops c ((op, v) # ops) params = (case identity_op c op v params of
      Inl e \<Rightarrow> Inl e
    | Inr (s, ps) \<Rightarrow> (case identity_ops c ops ps of Inl e \<Rightarrow> Inl e | Inr (ss, ps') \<Rightarrow> Inr (s # ss, ps')))"

definition identity_field :: "string \<Rightarrow> fvalue \<Rightarrow> sql list build" where
  "identity_field c v params = (case v of
      FOps ops \<Rightarrow> identity_ops c ops params
    | FArr (x # xs) \<Rightarrow> Inl (Error ''Unsupported operator for identity index: 0'')
    | FSubs (x # xs) \<Rightarrow> Inl (Error ''Unsupported operator for identity index: 0'')
    | FScalar s \<Rightarrow> (case push s (SEq c) params of Inl e \<Rightarrow> Inl e | Inr (s', ps) \<Rightarrow> Inr ([s'], ps))
    | _ \<Rightarrow> Inr ([], params))"

fun identity_where :: "filt \<Rightarrow> sql list build" where
  "identity_where [] params = Inr ([], params)"
| "identity_where ((f, v) # rest) params = (case identity_field (identity_column f) v params of
      Inl e \<Rightarrow> Inl e
    | Inr (ss, ps) \<Rightarrow> (case identity_where rest ps of Inl e \<Rightarrow> Inl e | Inr (ss', ps') \<Rightarrow> Inr (ss @ ss', ps')))"

definition identity_findOne :: "'r host \<Rightarrow> filt \<Rightarrow> (db, identity option) act" where
  "identity_findOne h f = (case identity_where f [] of
      Inl e \<Rightarrow> raise e
    | Inr (cs, ps) \<Rightarrow>
        bindE (select_identities (h_regex h) cs ps) (\<lambda>rows. ret (map_option rowToDoc (first_row rows))))"

text \<open>\<open>updateOne\<close>: the counts of matched, modified and inserted rows.\<close>

definition identity_sets :: "(string \<times> js) list \<Rightarrow> string list \<Rightarrow> assigns" where
  "identity_sets s us = map (\<lambda>(f, v). (identity_column f, if nullish v then JNull else v)) s
     @ map (\<lambda>f. (identity_column f, JNull)) us"

definition filter_value :: "filt \<Rightarrow> string \<Rightarrow> js" where
  "filter_value f k = (case map_of f k of Some v \<Rightarrow> fparam v | None \<Rightarrow> JUndef)"

definition identity_doc :: "filt \<Rightarrow> (string \<times> js) list \<Rightarrow> string list \<Rightarrow> vals" where
  "identity_doc f s us =
     fold (\<lambda>u. AList.update u JNull) us (fold (\<lambda>(k, v). AList.update k v) s [(''key'', filter_value f ''key'')])"

definition identity_inserts :: "vals \<Rightarrow> assigns" where
  "identity_inserts doc =
     map (\<lambda>(f, v). (identity_column f, if nullish v then JNull else v))
       (filter (\<lambda>(f, v). f \<noteq> ''createdAt'' \<and> f \<noteq> ''updatedAt'') doc)"

definition identity_updateOne ::
    "'r host \<Rightarrow> filt \<Rightarrow> (string \<times> js) list \<Rightarrow> string list \<Rightarrow> bool \<Rightarrow> (db, nat \<times> nat \<times> nat) act" where
  "identity_updateOne h f s us upsert = (case identity_where f [] of
      Inl e \<Rightarrow> raise e
    | Inr (cs, ps) \<Rightarrow>
        bindE (select_identities (h_regex h) cs ps) (\<lambda>rows. case first_row rows of
           Some r \<Rightarrow>
             bindE (update_identity (h_now h) (r ''key'') (identity_sets s us)) (\<lambda>n. ret (n, n, 0))
         | None \<Rightarrow>
             if upsert then
               (let doc = identity_doc f s us
                in if \<not> truthy (val_of doc ''key'') \<or> \<not> truthy (coalesce (val_of doc ''kind'') (JStr ''oauth''))
                      \<or> \<not> truthy (val_of doc ''userId'')
                   then raise (Error ''identity index upsert requires key, kind, userId'')
                   else thenE (insert_identity (h_now h) (identity_inserts doc)) (ret (0, 0, 1)))
             else ret (0, 0, 0)))"

definition identity_deleteMany :: "'r host \<Rightarrow> filt \<Rightarrow> (db, nat) act" where
  "identity_deleteMany h f = (case identity_where f [] of
      Inl e \<Rightarrow> raise e
    | Inr (cs, ps) \<Rightarrow>
        (if cs = [] then query (raise syntax_error) else delete_identities (selects (h_regex h) cs ps)))"

definition identity_deleteOne :: "'r host \<Rightarrow> filt \<Rightarrow> (db, nat) act" where
  "identity_deleteOne h f = identity_deleteMany h f"

section \<open>Keys\<close>

datatype email_kind = PrimaryEmail | PreviousEmail | PendingMigration

fun email_kind_name :: "email_kind \<Rightarrow> string" where
  "email_kind_name PrimaryEmail = ''primary_email''"
| "email_kind_name PreviousEmail = ''previous_email''"
| "email_kind_name PendingMigration = ''pending_migration''"

definition indexSecret :: "'r host \<Rightarrow> string" where
  "indexSecret h = or_str (h_env h ''EMAIL_INDEX_SECRET'') (accessSecret (jwt (h_config h)))"

definition emailKey :: "'r host \<Rightarrow> email_kind \<Rightarrow> string \<Rightarrow> string" where
  "emailKey h kind email =
     email_kind_name kind @ '':'' @ hmac (h_crypto h) (indexSecret h) (normalizeEmail email)"

definition oauthKey :: "string \<Rightarrow> string \<Rightarrow> string" where
  "oauthKey provider providerId = ''oauth:'' @ provider @ '':'' @ providerId"

text \<open>\<open>date > new Date()\<close>, false for anything that is not a date.\<close>

definition after :: "js \<Rightarrow> ms \<Rightarrow> bool" where
  "after v now = (case v of JDate t \<Rightarrow> now < t | _ \<Rightarrow> False)"

definition isActive :: "'r host \<Rightarrow> identity \<Rightarrow> bool" where
  "isActive h doc \<longleftrightarrow> \<not> truthy (id_expiresAt doc) \<or> after (id_expiresAt doc) (h_now h)"

section \<open>The service\<close>

datatype email_match = MatchPrimary | MatchPrevious | MatchPendingMigration

record resolved_identity =
  ri_userId :: js
  ri_match :: email_match
  ri_verified :: js

definition key_filter :: "string \<Rightarrow> filt" where
  "key_filter k = [(''key'', FScalar (JStr k))]"

fun resolve_kinds :: "'r host \<Rightarrow> string \<Rightarrow> (email_kind \<times> email_match) list \<Rightarrow> (db, resolved_identity option) act" where
  "resolve_kinds h email [] = ret None"
| "resolve_kinds h email ((kind, m) # ks) =
     bindE (identity_findOne h (key_filter (emailKey h kind email))) (\<lambda>doc. case doc of
        None \<Rightarrow> resolve_kinds h email ks
      | Some i \<Rightarrow> (if isActive h i
                    then ret (Some \<lparr>ri_userId = id_userId i, ri_match = m, ri_verified = id_verified i\<rparr>)
                    else resolve_kinds h email ks))"

definition resolveEmailIdentity :: "'r host \<Rightarrow> string \<Rightarrow> (db, resolved_identity option) act" where
  "resolveEmailIdentity h email =
     resolve_kinds h (normalizeEmail email)
       [(PrimaryEmail, MatchPrimary), (PreviousEmail, MatchPrevious), (PendingMigration, MatchPendingMigration)]"

definition findUserIdByPrimaryEmail :: "'r host \<Rightarrow> string \<Rightarrow> (db, js option) act" where
  "findUserIdByPrimaryEmail h email =
     bindE (identity_findOne h (key_filter (emailKey h PrimaryEmail email)))
       (\<lambda>doc. ret (case doc of None \<Rightarrow> None | Some i \<Rightarrow> if isActive h i then Some (id_userId i) else None))"

definition findPendingMigrationHolder :: "'r host \<Rightarrow> string \<Rightarrow> (db, js option) act" where
  "findPendingMigrationHolder h email =
     bindE (identity_findOne h (key_filter (emailKey h PendingMigration email)
              @ [(''expiresAt'', FOps [(''$gt'', FScalar (JDate (h_now h)))])]))
       (\<lambda>doc. ret (map_option id_userId doc))"

definition findUserIdByOAuth :: "'r host \<Rightarrow> string \<Rightarrow> string \<Rightarrow> (db, js option) act" where
  "findUserIdByOAuth h provider providerId =
     bindE (identity_findOne h (key_filter (oauthKey provider providerId))) (\<lambda>doc. ret (map_option id_userId doc))"

definition releaseUserIdentityIndexes :: "'r host \<Rightarrow> js \<Rightarrow> (db, unit) act" where
  "releaseUserIdentityIndexes h userId =
     bindE (identity_deleteMany h [(''userId'', FScalar userId)]) (\<lambda>_. ret ())"

definition releasePrimaryEmail :: "'r host \<Rightarrow> string \<Rightarrow> (db, unit) act" where
  "releasePrimaryEmail h email =
     bindE (identity_deleteOne h (key_filter (emailKey h PrimaryEmail email))) (\<lambda>_. ret ())"

definition clearPendingMigration :: "'r host \<Rightarrow> string \<Rightarrow> (db, unit) act" where
  "clearPendingMigration h email =
     bindE (identity_deleteOne h (key_filter (emailKey h PendingMigration email))) (\<lambda>_. ret ())"

definition clearPreviousEmail :: "'r host \<Rightarrow> string \<Rightarrow> (db, unit) act" where
  "clearPreviousEmail h email =
     bindE (identity_deleteOne h (key_filter (emailKey h PreviousEmail email))) (\<lambda>_. ret ())"

text \<open>The text of a field that holds a string.\<close>

definition textf :: "user \<Rightarrow> string \<Rightarrow> string" where
  "textf u f = js_String (getf u f)"

definition has_previous :: "'r host \<Rightarrow> user \<Rightarrow> bool" where
  "has_previous h u \<longleftrightarrow> truthy (getf u ''previousEmail'') \<and> after (getf u ''migrationExpiry'') (h_now h)"

definition has_pending :: "'r host \<Rightarrow> user \<Rightarrow> bool" where
  "has_pending h u \<longleftrightarrow> truthy (getf u ''newEmailPending'') \<and> after (getf u ''migrationTokenExpires'') (h_now h)"

definition has_oauth :: "user \<Rightarrow> bool" where
  "has_oauth u \<longleftrightarrow> getf u ''provider'' \<noteq> JStr ''local'' \<and> truthy (getf u ''providerId'')"

definition expectedKeysForUser :: "'r host \<Rightarrow> user \<Rightarrow> string list" where
  "expectedKeysForUser h u =
     fold set_add
       ([emailKey h PrimaryEmail (textf u ''email'')]
        @ (if has_previous h u then [emailKey h PreviousEmail (textf u ''previousEmail'')] else [])
        @ (if has_pending h u then [emailKey h PendingMigration (textf u ''newEmailPending'')] else [])
        @ (if has_oauth u then [oauthKey (textf u ''provider'') (textf u ''providerId'')] else [])) []"

definition only_if :: "bool \<Rightarrow> ('w, unit) act \<Rightarrow> ('w, unit) act" where
  "only_if b m = (if b then m else ret ())"

definition upsert_key :: "'r host \<Rightarrow> string \<Rightarrow> (string \<times> js) list \<Rightarrow> string list \<Rightarrow> (db, unit) act" where
  "upsert_key h k s us = bindE (identity_updateOne h (key_filter k) s us True) (\<lambda>_. ret ())"

definition syncIdentityIndexesFromUser :: "'r host \<Rightarrow> user \<Rightarrow> (db, unit) act" where
  "syncIdentityIndexesFromUser h u =
     (let uid = getf u ''_id''
      in thenE (upsert_key h (emailKey h PrimaryEmail (textf u ''email''))
            [(''kind'', JStr ''primary_email''), (''userId'', uid),
             (''verified'', JBool (getf u ''isEmailVerified'' = JBool True))] [''expiresAt'', ''provider''])
        (thenE (only_if (has_previous h u) (upsert_key h (emailKey h PreviousEmail (textf u ''previousEmail''))
            [(''kind'', JStr ''previous_email''), (''userId'', uid), (''expiresAt'', getf u ''migrationExpiry'')]
            [''verified'', ''provider'']))
        (thenE (only_if (has_pending h u) (upsert_key h (emailKey h PendingMigration (textf u ''newEmailPending''))
            [(''kind'', JStr ''pending_migration''), (''userId'', uid), (''expiresAt'', getf u ''migrationTokenExpires'')]
            [''verified'', ''provider'']))
        (thenE (only_if (has_oauth u) (upsert_key h (oauthKey (textf u ''provider'') (textf u ''providerId''))
            [(''kind'', JStr ''oauth''), (''userId'', uid), (''provider'', getf u ''provider'')]
            [''verified'', ''expiresAt'']))
        (bindE (identity_deleteMany h [(''userId'', FScalar uid),
             (''key'', FOps [(''$nin'', FArr (map JStr (expectedKeysForUser h u)))])]) (\<lambda>_. ret ()))))))"

section \<open>The backfill\<close>

text \<open>
  The cursor of \<open>db/User.ts\<close> pages through the table in the order of the ids, 500 rows at a
  time, starting after the last id seen; the ids compare as texts.
\<close>

definition id_text :: "row \<Rightarrow> string" where
  "id_text r = js_String (r ''id'')"

definition PAGE :: nat where "PAGE = 500"

definition cursor_page :: "string option \<Rightarrow> (db, row list) act" where
  "cursor_page lastId = query (\<lambda>d. (Inr (take PAGE (sort_key id_text
     (filter (\<lambda>r. case lastId of None \<Rightarrow> True | Some l \<Rightarrow> l < id_text r) (users d)))), d))"

fun sync_rows :: "'r host \<Rightarrow> row list \<Rightarrow> (db, unit) act" where
  "sync_rows h [] = ret ()"
| "sync_rows h (r # rs) = thenE (syncIdentityIndexesFromUser h (loaded (star r))) (sync_rows h rs)"

text \<open>The loop over the pages, with a bound on their number; \<open>None\<close> when the bound is reached.\<close>

fun backfill_loop :: "nat \<Rightarrow> 'r host \<Rightarrow> string option \<Rightarrow> nat \<Rightarrow> (db, nat option) act" where
  "backfill_loop 0 h lastId scanned = ret None"
| "backfill_loop (Suc fuel) h lastId scanned =
     bindE (cursor_page lastId) (\<lambda>rows.
       if rows = [] then ret (Some scanned)
       else thenE (sync_rows h rows)
              (backfill_loop fuel h (Some (id_text (last rows))) (scanned + length rows)))"

text \<open>Both counters of the result count the users that were synchronised.\<close>

definition backfillIdentityIndexes :: "nat \<Rightarrow> 'r host \<Rightarrow> (db, nat option) act" where
  "backfillIdentityIndexes fuel h = backfill_loop fuel h None 0"

section \<open>What the statements do when the database answers\<close>

definition identity_row :: "db \<Rightarrow> string \<Rightarrow> row option" where
  "identity_row d k = find (\<lambda>r. r ''key'' = JStr k) (identities d)"

lemma key_where: "identity_where (key_filter k) [] = Inr ([SEq ''key'' 1], [JStr k])"
  by (simp add: key_filter_def identity_field_def push_def identity_column_def IDENTITY_COLUMNS_def)

lemma selects_key: "selects re [SEq ''key'' (Suc 0)] [JStr k] = (\<lambda>r. r ''key'' = JStr k)"
  by (rule ext) (simp add: selects_def param_def eq3_T)

lemma first_row_filter: "first_row (filter P xs) = find P xs"
  by (induction xs) (auto simp: first_row_def)

lemma select_key:
  "faults d = [] \<Longrightarrow> select_identities re [SEq ''key'' (Suc 0)] [JStr k] d = (Inr (filter (\<lambda>r. r ''key'' = JStr k) (identities d)), d)"
  by (simp add: select_identities_def query_ok selects_key)

lemma identity_findOne_key:
  "faults d = [] \<Longrightarrow> identity_findOne h (key_filter k) d = (Inr (map_option rowToDoc (identity_row d k)), d)"
  by (simp add: identity_findOne_def key_where bindE_def select_key ret_apply first_row_filter identity_row_def)

lemma identity_row_Some: "identity_row d k = Some r \<Longrightarrow> r \<in> set (identities d) \<and> r ''key'' = JStr k"
  unfolding identity_row_def by (auto simp: find_Some_iff)

text \<open>Replacing the only row with a key.\<close>

lemma find_replaced:
  assumes "\<forall>r' \<in> set (xs @ ys). r' c \<noteq> v0" and "r c = v0" and "r0 c = v0"
  shows "find (\<lambda>r. r c = v0) (xs @ r # ys) = Some r"
    and "v \<noteq> v0 \<Longrightarrow> find (\<lambda>r. r c = v) (xs @ r # ys) = find (\<lambda>r. r c = v) (xs @ r0 # ys)"
proof -
  from assms(1) have "find (\<lambda>r. r c = v0) xs = None" by (simp add: find_None_iff)
  then show "find (\<lambda>r. r c = v0) (xs @ r # ys) = Some r" by (simp add: find_append assms(2))
  show "v \<noteq> v0 \<Longrightarrow> find (\<lambda>r. r c = v) (xs @ r # ys) = find (\<lambda>r. r c = v) (xs @ r0 # ys)"
    using assms(2,3) by (auto simp: find_append split: option.splits)
qed

definition identity_type :: "string \<Rightarrow> coltype option" where
  "identity_type n = map_option c_type (find (\<lambda>c. c_name c = n) identity_columns)"

lemma identity_type_column:
  "identity_type n = Some ty \<longleftrightarrow> (\<exists>c \<in> set identity_columns. c_name c = n \<and> c_type c = ty)"
  by (auto simp: identity_type_def find_column [OF identity_columns_distinct])
    (metis (mono_tags, lifting) find_Some_iff nth_mem)

lemma identity_types:
  "identity_type ''key'' = Some TText" "identity_type ''kind'' = Some TText" "identity_type ''user_id'' = Some TText"
  "identity_type ''provider'' = Some TText" "identity_type ''verified'' = Some TBool"
  "identity_type ''expires_at'' = Some TTime" "identity_type ''created_at'' = Some TTime"
  "identity_type ''updated_at'' = Some TTime"
  by (simp_all add: identity_type_def identity_columns_def col_defs)

definition typed_assigns :: "assigns \<Rightarrow> bool" where
  "typed_assigns as \<longleftrightarrow> distinct (map fst as)
     \<and> list_all (\<lambda>(n, v). case identity_type n of None \<Rightarrow> False | Some ty \<Rightarrow> coerce ty v \<noteq> None) as"

lemma typed_assigns_mem:
  "typed_assigns as \<Longrightarrow> (n, v) \<in> set as \<Longrightarrow> \<exists>c \<in> set identity_columns. c_name c = n \<and> coerce (c_type c) v \<noteq> None"
  by (fastforce simp: typed_assigns_def list_all_iff identity_type_column split: option.splits)

definition upserted :: "assigns \<Rightarrow> row \<Rightarrow> bool" where
  "upserted as r \<longleftrightarrow> (\<forall>n v. map_of as n = Some v \<longrightarrow>
     r n = (case identity_type n of None \<Rightarrow> JUndef | Some ty \<Rightarrow> the (coerce ty v)))"

definition untouched :: "assigns \<Rightarrow> row \<Rightarrow> row \<Rightarrow> bool" where
  "untouched as r0 r \<longleftrightarrow> (\<forall>n. map_of as n = None \<and> identity_type n \<noteq> None \<longrightarrow> r n = r0 n)"

lemma assign_typed:
  assumes "typed_assigns as"
  shows "\<exists>r. assign identity_columns r0 as = Inr r \<and> upserted as r \<and> untouched as r0 r"
proof -
  have 1: "list_all (\<lambda>(n, v). n \<in> set (map c_name identity_columns)) as"
    using typed_assigns_mem [OF assms] by (fastforce simp: list_all_iff)
  have 2: "list_all (\<lambda>c. case map_of as (c_name c) of None \<Rightarrow> True | Some v \<Rightarrow> coerce (c_type c) v \<noteq> None) identity_columns"
    unfolding list_all_iff
  proof
    fix c assume c: "c \<in> set identity_columns"
    {
      fix v assume "map_of as (c_name c) = Some v"
      from typed_assigns_mem [OF assms map_of_SomeD [OF this]] obtain c'
        where c': "c' \<in> set identity_columns" "c_name c' = c_name c" "coerce (c_type c') v \<noteq> None" by blast
      from find_column [OF identity_columns_distinct c] find_column [OF identity_columns_distinct c'(1)] c'(2)
      have "c' = c" by simp
      with c'(3) have "coerce (c_type c) v \<noteq> None" by simp
    }
    then show "case map_of as (c_name c) of None \<Rightarrow> True | Some v \<Rightarrow> coerce (c_type c) v \<noteq> None"
      by (simp split: option.splits)
  qed
  from assms have "distinct (map fst as)" by (simp add: typed_assigns_def)
  with 1 2 obtain r where r: "assign identity_columns r0 as = Inr r" by (simp add: assign_def)
  note val = assign_apply(1) [OF r identity_columns_distinct]
  have "upserted as r" unfolding upserted_def
  proof (intro allI impI)
    fix n v assume m: "map_of as n = Some v"
    from typed_assigns_mem [OF assms map_of_SomeD [OF m]] obtain c where c: "c \<in> set identity_columns" "c_name c = n" by blast
    then have "identity_type n = Some (c_type c)" using identity_type_column [of n "c_type c"] by blast
    with val [OF c(1)] m show "r n = (case identity_type n of None \<Rightarrow> JUndef | Some ty \<Rightarrow> the (coerce ty v))"
      by (simp add: c(2))
  qed
  moreover have "untouched as r0 r" unfolding untouched_def
  proof (intro allI impI)
    fix n assume n: "map_of as n = None \<and> identity_type n \<noteq> None"
    then obtain c where "c \<in> set identity_columns" "c_name c = n" using identity_type_column [of n] by blast
    with val [of c] n show "r n = r0 n" by simp
  qed
  ultimately show ?thesis using r by blast
qed

lemma upsertedD: "upserted as r \<Longrightarrow> map_of as n = Some v \<Longrightarrow>
    r n = (case identity_type n of None \<Rightarrow> JUndef | Some ty \<Rightarrow> the (coerce ty v))"
  and untouchedD: "untouched as r0 r \<Longrightarrow> map_of as n = None \<Longrightarrow> identity_type n \<noteq> None \<Longrightarrow> r n = r0 n"
  by (simp_all add: upserted_def untouched_def)

text \<open>
  An upsert under a key: the row under the key is the given one, whether it existed or not; the
  other rows and the users stay.
\<close>

definition upsertable :: "string \<Rightarrow> string \<Rightarrow> (string \<times> js) list \<Rightarrow> string list \<Rightarrow> bool" where
  "upsertable k uid s us \<longleftrightarrow>
     identity_inserts (identity_doc (key_filter k) s us) = (''key'', JStr k) # identity_sets s us
     \<and> typed_assigns ((''key'', JStr k) # identity_sets s us @ [(''updated_at'', JNull)])
     \<and> map_of (identity_sets s us) ''user_id'' = Some (JStr uid)
     \<and> (\<exists>kd. map_of (identity_sets s us) ''kind'' = Some (JStr kd))
     \<and> ''created_at'' \<notin> fst ` set (identity_sets s us)
     \<and> truthy (val_of (identity_doc (key_filter k) s us) ''key'')
     \<and> truthy (coalesce (val_of (identity_doc (key_filter k) s us) ''kind'') (JStr ''oauth''))
     \<and> truthy (val_of (identity_doc (key_filter k) s us) ''userId'')"

lemma not_nulls_identity:
  "not_nulls identity_columns r \<longleftrightarrow> r ''key'' \<noteq> JNull \<and> r ''kind'' \<noteq> JNull \<and> r ''user_id'' \<noteq> JNull
     \<and> r ''created_at'' \<noteq> JNull \<and> r ''updated_at'' \<noteq> JNull"
  by (simp add: not_nulls_def identity_columns_def col_defs)

lemma typed_assigns_parts:
  assumes "typed_assigns ((''key'', JStr k) # as @ [(''updated_at'', JNull)])"
  shows "typed_assigns ((''key'', JStr k) # as)" and "typed_assigns (as @ [(''updated_at'', JDate now)])"
    and "''key'' \<notin> fst ` set as" and "''updated_at'' \<notin> fst ` set as"
  using assms by (auto simp: typed_assigns_def identity_types)

lemma upsert_insert:
  assumes ok: "db_ok d" and fl: "faults d = []" and u: "JStr uid \<in> (\<lambda>u. u ''id'') ` set (users d)"
    and none: "identity_row d k = None" and ups: "upsertable k uid s us"
  shows "\<exists>r. insert_identity (h_now h) ((''key'', JStr k) # identity_sets s us) d = (Inr (), d\<lparr>identities := identities d @ [r]\<rparr>)
    \<and> upserted (identity_sets s us) r \<and> r ''key'' = JStr k \<and> r ''user_id'' = JStr uid"
proof -
  let ?as = "identity_sets s us"
  from ups obtain kd where kd: "map_of ?as ''kind'' = Some (JStr kd)" by (auto simp: upsertable_def)
  from ups have t: "typed_assigns ((''key'', JStr k) # ?as @ [(''updated_at'', JNull)])"
    and uid: "map_of ?as ''user_id'' = Some (JStr uid)" and cr: "''created_at'' \<notin> fst ` set ?as"
    by (auto simp: upsertable_def)
  note parts = typed_assigns_parts [OF t]
  obtain r where r: "assign identity_columns (default_row identity_columns (h_now h)) ((''key'', JStr k) # ?as) = Inr r"
    and val: "upserted ((''key'', JStr k) # ?as) r" and keep: "untouched ((''key'', JStr k) # ?as) (default_row identity_columns (h_now h)) r"
    using assign_typed [OF parts(1)] by blast
  have vals: "r ''key'' = JStr k" "r ''kind'' = JStr kd" "r ''user_id'' = JStr uid"
    using upsertedD [OF val, of "''key''" "JStr k"] upsertedD [OF val, of "''kind''" "JStr kd"] upsertedD [OF val, of "''user_id''" "JStr uid"] kd uid
    by (simp_all add: identity_types)
  have dates: "r ''created_at'' = JDate (h_now h)" "r ''updated_at'' = JDate (h_now h)"
    using untouchedD [OF keep, of "''created_at''"] untouchedD [OF keep, of "''updated_at''"] cr parts(4)
    by (simp_all add: map_of_eq_None_iff identity_types default_row_def identity_columns_def col_defs cells_def)
  have "clash [''key''] r r' \<Longrightarrow> r' \<notin> set (identities d)" for r'
    using none vals(1) by (auto simp: identity_row_def find_None_iff clash_def)
  then have "identity_constraints (users d) (identities d) r = None"
    using vals dates u by (auto simp: identity_constraints_None not_nulls_identity free_of_def)
  moreover have "upserted ?as r"
    unfolding upserted_def
  proof (intro allI impI)
    fix n v assume m: "map_of ?as n = Some v"
    then have "n \<noteq> ''key''" using parts(3) by (metis map_of_eq_None_iff option.distinct(1))
    with m show "r n = (case identity_type n of None \<Rightarrow> JUndef | Some ty \<Rightarrow> the (coerce ty v))" by (intro upsertedD [OF val]) simp
  qed
  ultimately show ?thesis using vals by (auto simp: insert_identity_def query_ok fl r)
qed

lemma upsert_update:
  assumes ok: "db_ok d" and fl: "faults d = []" and u: "JStr uid \<in> (\<lambda>u. u ''id'') ` set (users d)"
    and some: "identity_row d k = Some r0" and ups: "upsertable k uid s us"
  shows "\<exists>r d'. update_identity (h_now h) (JStr k) (identity_sets s us) d = (Inr 1, d')
    \<and> upserted (identity_sets s us) r \<and> r ''user_id'' = JStr uid
    \<and> identity_row d' k = Some r \<and> (\<forall>k'. k' \<noteq> k \<longrightarrow> identity_row d' k' = identity_row d k')
    \<and> users d' = users d \<and> faults d' = []"
proof -
  let ?as = "identity_sets s us"
  from ups obtain kd where kd: "map_of ?as ''kind'' = Some (JStr kd)" by (auto simp: upsertable_def)
  from ups have t: "typed_assigns ((''key'', JStr k) # ?as @ [(''updated_at'', JNull)])"
    and uid: "map_of ?as ''user_id'' = Some (JStr uid)" and cr: "''created_at'' \<notin> fst ` set ?as"
    by (auto simp: upsertable_def)
  note parts = typed_assigns_parts [OF t]
  from ok have un: "unclashed [[''key'']] (identities d)" by (simp add: db_ok_def)
  from only_row [OF un, of "''key''", OF _ identity_key_notnull [OF ok] some [unfolded identity_row_def]]
  obtain xs ys where rs: "identities d = xs @ r0 # ys"
    and flt: "filter (\<lambda>r'. r' ''key'' \<noteq> r0 ''key'') (identities d) = xs @ ys"
    and mp: "\<And>r. map (\<lambda>r'. if r' ''key'' = r0 ''key'' then r else r') (identities d) = xs @ r # ys"
    by auto
  from identity_row_Some [OF some] have k0: "r0 ''key'' = JStr k" by simp
  obtain r where r: "assign identity_columns r0 (?as @ [(''updated_at'', JDate (h_now h))]) = Inr r"
    and val: "upserted (?as @ [(''updated_at'', JDate (h_now h))]) r" and keep: "untouched (?as @ [(''updated_at'', JDate (h_now h))]) r0 r"
    using assign_typed [OF parts(2)] by blast
  have none: "map_of ?as n = None" if "n \<notin> fst ` set ?as" for n using that by (simp add: map_of_eq_None_iff)
  have key: "r ''key'' = JStr k" using untouchedD [OF keep, of "''key''"] none [OF parts(3)] k0 by (simp add: identity_types map_add_def)
  have vals: "r ''kind'' = JStr kd" "r ''user_id'' = JStr uid" "r ''updated_at'' = JDate (h_now h)"
    using upsertedD [OF val, of "''kind''" "JStr kd"] upsertedD [OF val, of "''user_id''" "JStr uid"] upsertedD [OF val, of "''updated_at''" "JDate (h_now h)"]
      kd uid none [OF parts(4)] by (simp_all add: identity_types map_add_def)
  have "r ''created_at'' = r0 ''created_at''" using untouchedD [OF keep, of "''created_at''"] none [OF cr] by (simp add: identity_types map_add_def)
  moreover have "r0 ''created_at'' \<noteq> JNull" using ok by (simp add: db_ok_def rs not_nulls_identity)
  moreover have others: "\<forall>r' \<in> set (xs @ ys). r' ''key'' \<noteq> JStr k"
    using arg_cong [OF flt, of set] k0 by auto
  ultimately have "identity_constraints (users d) (xs @ ys) r = None"
    using key vals u by (auto simp: identity_constraints_None not_nulls_identity free_of_def clash_def)
  with r have "update_identity (h_now h) (JStr k) ?as d = (Inr 1, d\<lparr>identities := xs @ r # ys\<rparr>)"
    using some by (simp add: update_identity_def query_ok fl eq3_T identity_row_def flt mp)
  moreover have "upserted ?as r" unfolding upserted_def by (auto intro: upsertedD [OF val] simp: map_add_def)
  moreover note find_replaced [of xs ys "''key''" "JStr k" r r0, OF others key k0]
  ultimately show ?thesis using vals(2) fl by (fastforce simp: identity_row_def rs)
qed

lemma upsert_effect:
  assumes ok: "db_ok d" and fl: "faults d = []" and u: "JStr uid \<in> (\<lambda>u. u ''id'') ` set (users d)"
    and ups: "upsertable k uid s us"
  shows "\<exists>r d'. upsert_key h k s us d = (Inr (), d')
    \<and> upserted (identity_sets s us) r \<and> r ''user_id'' = JStr uid
    \<and> identity_row d' k = Some r \<and> (\<forall>k'. k' \<noteq> k \<longrightarrow> identity_row d' k' = identity_row d k')
    \<and> users d' = users d \<and> faults d' = []"
proof (cases "identity_row d k")
  case None
  from upsert_insert [OF ok fl u None ups, of h] obtain r
    where i: "insert_identity (h_now h) ((''key'', JStr k) # identity_sets s us) d = (Inr (), d\<lparr>identities := identities d @ [r]\<rparr>)"
      and r: "upserted (identity_sets s us) r" "r ''key'' = JStr k" "r ''user_id'' = JStr uid" by blast
  have "upsert_key h k s us d = (Inr (), d\<lparr>identities := identities d @ [r]\<rparr>)"
    using None ups i by (simp add: upsert_key_def identity_updateOne_def key_where bindE_def select_key fl
        first_row_filter identity_row_def upsertable_def Let_def thenE_def ret_apply)
  moreover have "identity_row (d\<lparr>identities := identities d @ [r]\<rparr>) k = Some r"
    using None r(2) by (simp add: identity_row_def find_append)
  moreover have "identity_row (d\<lparr>identities := identities d @ [r]\<rparr>) k' = identity_row d k'" if "k' \<noteq> k" for k'
    using that r(2) by (simp add: identity_row_def find_append split: option.splits)
  ultimately show ?thesis using r fl by auto
next
  case (Some r0)
  from upsert_update [OF ok fl u Some ups, of h] obtain r d'
    where i: "update_identity (h_now h) (JStr k) (identity_sets s us) d = (Inr 1, d')"
      and r: "upserted (identity_sets s us) r" "r ''user_id'' = JStr uid" "identity_row d' k = Some r"
        "\<forall>k'. k' \<noteq> k \<longrightarrow> identity_row d' k' = identity_row d k'" "users d' = users d" "faults d' = []" by blast
  have "upsert_key h k s us d = (Inr (), d')"
    using Some i identity_row_Some [OF Some] by (simp add: upsert_key_def identity_updateOne_def key_where bindE_def
        select_key fl first_row_filter identity_row_def ret_apply)
  with r show ?thesis by blast
qed

section \<open>Synchronising a user\<close>

lemma keeps_identity_updateOne: "keeps db_ok (identity_updateOne h f s us upsert)"
  unfolding identity_updateOne_def
  by (auto simp: Let_def split: sum.splits option.splits intro!: keeps_bindE keeps_thenE keeps_statements)

lemma keeps_upsert_key: "keeps db_ok (upsert_key h k s us)"
  unfolding upsert_key_def by (intro keeps_bindE keeps_identity_updateOne keeps_ret)

lemma keeps_identity_deleteMany: "keeps db_ok (identity_deleteMany h f)"
  unfolding identity_deleteMany_def
  by (auto split: sum.splits intro!: keeps_query keeps_statements simp: raise_def)

definition ready :: "db \<Rightarrow> string \<Rightarrow> bool" where
  "ready d uid \<longleftrightarrow> db_ok d \<and> faults d = [] \<and> JStr uid \<in> (\<lambda>u. u ''id'') ` set (users d)"

definition owner :: "db \<Rightarrow> string \<Rightarrow> js option" where
  "owner d k = map_option (\<lambda>r. r ''user_id'') (identity_row d k)"

text \<open>The keys that a run of upserts for a user has claimed; the other rows are as before.\<close>

definition claimed :: "string \<Rightarrow> string set \<Rightarrow> db \<Rightarrow> db \<Rightarrow> bool" where
  "claimed uid ks d d' \<longleftrightarrow> (\<forall>k. if k \<in> ks then owner d' k = Some (JStr uid) else identity_row d' k = identity_row d k)
     \<and> users d' = users d \<and> ready d' uid"

lemma claimed_trans: "claimed uid A d d' \<Longrightarrow> claimed uid B d' d'' \<Longrightarrow> claimed uid (A \<union> B) d d''"
  unfolding claimed_def by (auto simp: owner_def split: if_splits)

lemma claimed_row: "claimed uid B d d' \<Longrightarrow> k \<notin> B \<Longrightarrow> identity_row d' k = identity_row d k"
  by (simp add: claimed_def)

lemma claimed_ready: "claimed uid B d d' \<Longrightarrow> ready d' uid"
  by (simp add: claimed_def)

lemma upsert_claims:
  assumes rd: "ready d uid" and ups: "upsertable k uid s us"
  shows "\<exists>r d'. upsert_key h k s us d = (Inr (), d') \<and> claimed uid {k} d d'
    \<and> identity_row d' k = Some r \<and> upserted (identity_sets s us) r"
proof -
  from rd have ok: "db_ok d" and fl: "faults d = []" and u: "JStr uid \<in> (\<lambda>u. u ''id'') ` set (users d)"
    by (simp_all add: ready_def)
  from upsert_effect [OF ok fl u ups, of h] obtain r d'
    where e: "upsert_key h k s us d = (Inr (), d')" and r: "upserted (identity_sets s us) r" "r ''user_id'' = JStr uid"
      "identity_row d' k = Some r" "\<forall>k'. k' \<noteq> k \<longrightarrow> identity_row d' k' = identity_row d k'" "users d' = users d" "faults d' = []"
    by blast
  have "db_ok d'" using keepsD [OF keeps_upsert_key ok e] .
  with r u have "claimed uid {k} d d'" by (simp add: claimed_def owner_def ready_def)
  with e r show ?thesis by blast
qed

lemma only_if_claims:
  assumes rd: "ready d uid" and ups: "b \<Longrightarrow> upsertable k uid s us"
  shows "\<exists>d'. only_if b (upsert_key h k s us) d = (Inr (), d') \<and> claimed uid (if b then {k} else {}) d d'"
proof (cases b)
  case True
  from upsert_claims [OF rd ups [OF True], of h] True show ?thesis by (auto simp: only_if_def)
next
  case False
  with rd show ?thesis by (simp add: only_if_def ret_apply claimed_def)
qed

lemma after_date: "after v now \<Longrightarrow> \<exists>t. v = JDate t"
  by (cases v) (simp_all add: after_def)

lemma upsertable_primary:
  "uid \<noteq> [] \<Longrightarrow> k \<noteq> [] \<Longrightarrow> upsertable k uid
     [(''kind'', JStr ''primary_email''), (''userId'', JStr uid), (''verified'', JBool b)] [''expiresAt'', ''provider'']"
  and upsertable_dated:
  "uid \<noteq> [] \<Longrightarrow> k \<noteq> [] \<Longrightarrow> kd \<noteq> [] \<Longrightarrow> upsertable k uid
     [(''kind'', JStr kd), (''userId'', JStr uid), (''expiresAt'', JDate t)] [''verified'', ''provider'']"
  and upsertable_oauth:
  "uid \<noteq> [] \<Longrightarrow> k \<noteq> [] \<Longrightarrow> coerce TText p \<noteq> None \<Longrightarrow> upsertable k uid
     [(''kind'', JStr ''oauth''), (''userId'', JStr uid), (''provider'', p)] [''verified'', ''expiresAt'']"
  by (simp_all add: upsertable_def identity_inserts_def identity_doc_def identity_sets_def identity_column_def
      IDENTITY_COLUMNS_def filter_value_def key_filter_def typed_assigns_def identity_types val_of_def coalesce_def)

lemma key_nonempty: "emailKey h kind e \<noteq> []" "oauthKey p q \<noteq> []"
  by (cases kind) (simp_all add: emailKey_def oauthKey_def)

lemma key_kinds: "kind \<noteq> PrimaryEmail \<Longrightarrow> emailKey h kind e \<noteq> emailKey h PrimaryEmail e'"
  "oauthKey p q \<noteq> emailKey h PrimaryEmail e'"
  by (cases kind) (simp_all add: emailKey_def oauthKey_def)

lemma expectedKeys_set: "set (expectedKeysForUser h u) =
    {emailKey h PrimaryEmail (textf u ''email'')}
    \<union> ((if has_previous h u then {emailKey h PreviousEmail (textf u ''previousEmail'')} else {})
    \<union> ((if has_pending h u then {emailKey h PendingMigration (textf u ''newEmailPending'')} else {})
    \<union> (if has_oauth u then {oauthKey (textf u ''provider'') (textf u ''providerId'')} else {})))"
  unfolding expectedKeysForUser_def
  by (auto simp: set_add_set [where g = "\<lambda>x. x", simplified] set_add_def)


lemma prune_where:
  "identity_where [(''userId'', FScalar (JStr uid)), (''key'', FOps [(''$nin'', FArr (map JStr ks))])] [] =
     Inr ([SEq ''user_id'' 1, SNotAny ''key'' 2], [JStr uid, JArr (map JStr ks)])"
  by (simp add: identity_field_def identity_op_def cmp_op_def push_def identity_column_def IDENTITY_COLUMNS_def)

lemma prune_selects:
  "r ''key'' = JStr k \<Longrightarrow> selects re [SEq ''user_id'' (Suc 0), SNotAny ''key'' 2] [JStr uid, JArr (map JStr ks)] r
     \<longleftrightarrow> r ''user_id'' = JStr uid \<and> k \<notin> set ks"
  by (auto simp: selects_def param_def eq3_def any3_def tri_def list_ex_iff)

lemma find_filter: "find P (filter Q xs) = find (\<lambda>x. Q x \<and> P x) xs"
  by (induction xs) auto


text \<open>A key has at most one row, so removing rows removes it or leaves it.\<close>

lemma identity_row_filter:
  assumes ok: "db_ok d"
  shows "find (\<lambda>r. r ''key'' = JStr k) (filter Q (identities d)) =
    (case identity_row d k of None \<Rightarrow> None | Some r \<Rightarrow> if Q r then Some r else None)"
proof (cases "identity_row d k")
  case None
  then have "find (\<lambda>r. r ''key'' = JStr k) (filter Q (identities d)) = None"
    by (auto simp: identity_row_def find_None_iff)
  with None show ?thesis by simp
next
  case (Some r)
  from ok have un: "unclashed [[''key'']] (identities d)" by (simp add: db_ok_def)
  from only_row [OF un, of "''key''", OF _ identity_key_notnull [OF ok] Some [unfolded identity_row_def]]
  obtain xs ys where rs: "identities d = xs @ r # ys"
    and flt: "filter (\<lambda>r'. r' ''key'' \<noteq> r ''key'') (identities d) = xs @ ys"
    and "\<And>r1. map (\<lambda>r'. if r' ''key'' = r ''key'' then r1 else r') (identities d) = xs @ r1 # ys" by auto
  from identity_row_Some [OF Some] have k: "r ''key'' = JStr k" by simp
  have "\<forall>r' \<in> set (xs @ ys). r' ''key'' \<noteq> JStr k" using arg_cong [OF flt, of set] k by auto
  then have "find (\<lambda>r. r ''key'' = JStr k) (filter Q xs) = None" "find (\<lambda>r. r ''key'' = JStr k) (filter Q ys) = None"
    by (auto simp: find_None_iff)
  with k show ?thesis by (simp add: Some rs find_append)
qed

lemma prune_effect:
  assumes rd: "ready d uid"
  shows "\<exists>n d'. identity_deleteMany h [(''userId'', FScalar (JStr uid)), (''key'', FOps [(''$nin'', FArr (map JStr ks))])] d
      = (Inr n, d')
    \<and> (\<forall>k. identity_row d' k = (if owner d k = Some (JStr uid) \<and> k \<notin> set ks then None else identity_row d k))
    \<and> users d' = users d \<and> ready d' uid"
proof -
  from rd have ok: "db_ok d" and fl: "faults d = []" by (simp_all add: ready_def)
  let ?P = "selects (h_regex h) [SEq ''user_id'' (Suc 0), SNotAny ''key'' 2] [JStr uid, JArr (map JStr ks)]"
  let ?d' = "d\<lparr>identities := filter (\<lambda>r. \<not> ?P r) (identities d)\<rparr>"
  have e: "identity_deleteMany h [(''userId'', FScalar (JStr uid)), (''key'', FOps [(''$nin'', FArr (map JStr ks))])] d
      = (Inr (length (filter ?P (identities d))), ?d')"
    unfolding identity_deleteMany_def prune_where by (simp add: delete_identities_def query_ok fl)
  have "db_ok ?d'" using keepsD [OF keeps_identity_deleteMany ok e] .
  with rd have "ready ?d' uid" by (simp add: ready_def)
  moreover have "identity_row ?d' k = (if owner d k = Some (JStr uid) \<and> k \<notin> set ks then None else identity_row d k)" for k
  proof -
    have "identity_row ?d' k = (case identity_row d k of None \<Rightarrow> None | Some r \<Rightarrow> if \<not> ?P r then Some r else None)"
      using identity_row_filter [OF ok, of k "\<lambda>r. \<not> ?P r"] by (simp add: identity_row_def)
    then show ?thesis using prune_selects [of _ k] identity_row_Some [of d k]
      by (cases "identity_row d k") (simp_all add: owner_def)
  qed
  ultimately show ?thesis using e by auto
qed

text \<open>
  After a synchronisation the keys that lead to the user are exactly the expected ones, the rows
  of the other users stay, and the primary e-mail has an entry without expiry.
\<close>

definition synced :: "'r host \<Rightarrow> user \<Rightarrow> string \<Rightarrow> db \<Rightarrow> db \<Rightarrow> bool" where
  "synced h u uid d d' \<longleftrightarrow> users d' = users d \<and> ready d' uid
     \<and> (\<forall>k. owner d' k = Some (JStr uid) \<longleftrightarrow> k \<in> set (expectedKeysForUser h u))
     \<and> (\<forall>k. k \<notin> set (expectedKeysForUser h u) \<and> owner d k \<noteq> Some (JStr uid) \<longrightarrow> identity_row d' k = identity_row d k)
     \<and> (\<exists>r. identity_row d' (emailKey h PrimaryEmail (textf u ''email'')) = Some r \<and> r ''expires_at'' = JNull)"

lemma sync_effect:
  assumes rd: "ready d uid" and i: "getf u ''_id'' = JStr uid" "uid \<noteq> []"
    and p: "coerce TText (getf u ''provider'') \<noteq> None"
  shows "\<exists>d'. syncIdentityIndexesFromUser h u d = (Inr (), d') \<and> synced h u uid d d'"
proof -
  let ?kp = "emailKey h PrimaryEmail (textf u ''email'')"
  let ?kq = "emailKey h PreviousEmail (textf u ''previousEmail'')"
  let ?kn = "emailKey h PendingMigration (textf u ''newEmailPending'')"
  let ?ko = "oauthKey (textf u ''provider'') (textf u ''providerId'')"
  obtain r d1 where 1: "upsert_key h ?kp [(''kind'', JStr ''primary_email''), (''userId'', JStr uid),
             (''verified'', JBool (getf u ''isEmailVerified'' = JBool True))] [''expiresAt'', ''provider''] d = (Inr (), d1)"
    and c1: "claimed uid {?kp} d d1" and r: "identity_row d1 ?kp = Some r"
    and ur: "upserted (identity_sets [(''kind'', JStr ''primary_email''), (''userId'', JStr uid),
             (''verified'', JBool (getf u ''isEmailVerified'' = JBool True))] [''expiresAt'', ''provider'']) r"
    using upsert_claims [OF rd upsertable_primary [OF i(2) key_nonempty(1)]] by blast
  have ex: "r ''expires_at'' = JNull"
    using upsertedD [OF ur, of "''expires_at''" JNull]
    by (simp add: identity_sets_def identity_column_def IDENTITY_COLUMNS_def identity_types)
  have "has_previous h u \<Longrightarrow> upsertable ?kq uid [(''kind'', JStr ''previous_email''), (''userId'', JStr uid),
      (''expiresAt'', getf u ''migrationExpiry'')] [''verified'', ''provider'']"
    using upsertable_dated [OF i(2) key_nonempty(1)] after_date by (fastforce simp: has_previous_def)
  from only_if_claims [OF claimed_ready [OF c1] this] obtain d2
    where 2: "only_if (has_previous h u) (upsert_key h ?kq [(''kind'', JStr ''previous_email''), (''userId'', JStr uid),
      (''expiresAt'', getf u ''migrationExpiry'')] [''verified'', ''provider'']) d1 = (Inr (), d2)"
      and c2: "claimed uid (if has_previous h u then {?kq} else {}) d1 d2" by blast
  have "has_pending h u \<Longrightarrow> upsertable ?kn uid [(''kind'', JStr ''pending_migration''), (''userId'', JStr uid),
      (''expiresAt'', getf u ''migrationTokenExpires'')] [''verified'', ''provider'']"
    using upsertable_dated [OF i(2) key_nonempty(1)] after_date by (fastforce simp: has_pending_def)
  from only_if_claims [OF claimed_ready [OF c2] this] obtain d3
    where 3: "only_if (has_pending h u) (upsert_key h ?kn [(''kind'', JStr ''pending_migration''), (''userId'', JStr uid),
      (''expiresAt'', getf u ''migrationTokenExpires'')] [''verified'', ''provider'']) d2 = (Inr (), d3)"
      and c3: "claimed uid (if has_pending h u then {?kn} else {}) d2 d3" by blast
  from only_if_claims [OF claimed_ready [OF c3] upsertable_oauth [OF i(2) key_nonempty(2) p], of "has_oauth u"] obtain d4
    where 4: "only_if (has_oauth u) (upsert_key h ?ko [(''kind'', JStr ''oauth''), (''userId'', JStr uid),
      (''provider'', getf u ''provider'')] [''verified'', ''expiresAt'']) d3 = (Inr (), d4)"
      and c4: "claimed uid (if has_oauth u then {?ko} else {}) d3 d4" by blast
  from prune_effect [OF claimed_ready [OF c4], of h "expectedKeysForUser h u"] obtain n d5
    where 5: "identity_deleteMany h [(''userId'', FScalar (JStr uid)),
        (''key'', FOps [(''$nin'', FArr (map JStr (expectedKeysForUser h u)))])] d4 = (Inr n, d5)"
      and c5: "\<forall>k. identity_row d5 k =
        (if owner d4 k = Some (JStr uid) \<and> k \<notin> set (expectedKeysForUser h u) then None else identity_row d4 k)"
      "users d5 = users d4" "ready d5 uid" by blast
  have "syncIdentityIndexesFromUser h u d = (Inr (), d5)"
    unfolding syncIdentityIndexesFromUser_def i(1) Let_def
    by (simp only: thenE_def bindE_def 1 2 3 4 5 prod.case sum.case ret_apply)
  moreover note c = claimed_trans [OF c1 claimed_trans [OF c2 claimed_trans [OF c3 c4]], folded expectedKeys_set]
  have "identity_row d4 ?kp = Some r"
    using claimed_row [OF claimed_trans [OF c2 claimed_trans [OF c3 c4]], of ?kp] r
    by (simp add: key_kinds [symmetric])
  then have "\<exists>r. identity_row d5 ?kp = Some r \<and> r ''expires_at'' = JNull"
    using c5(1) ex by (simp add: expectedKeys_set)
  then have "synced h u uid d d5"
    using c c5 unfolding synced_def claimed_def by (auto simp: owner_def split: if_splits)
  ultimately show ?thesis by blast
qed


section \<open>The backfill returns and reaches every user\<close>

lemma getf_id: "getf (loaded (star r)) ''_id'' = r ''id''"
proof -
  have 1: "''id'' \<in> set ALL_FIELDS" "field_col ''id'' = ''id''" by code_simp+
  have "getf (loaded (star r)) ''_id'' = getf (loaded (star r)) ''id''" by (simp add: getf_val)
  with 1 show ?thesis by (simp add: getf_star field_value_col)
qed

lemma getf_provider: "getf (loaded (star r)) ''provider'' = r ''provider''"
proof -
  have "''provider'' \<in> set ALL_FIELDS" "field_col ''provider'' = ''provider''" by code_simp+
  then show ?thesis by (simp add: getf_star field_value_col)
qed

lemma text_coerces: "has_type TText v \<Longrightarrow> coerce TText v \<noteq> None"
  by (cases v) simp_all

lemma sync_row:
  assumes "db_ok d" and "faults d = []" and "r \<in> set (users d)" and "r ''id'' = JStr uid" and "uid \<noteq> []"
  shows "\<exists>d'. syncIdentityIndexesFromUser h (loaded (star r)) d = (Inr (), d') \<and> synced h (loaded (star r)) uid d d'"
proof (rule sync_effect)
  from assms(3,4) have "JStr uid \<in> (\<lambda>u. u ''id'') ` set (users d)" by (metis imageI)
  with assms(1,2) show "ready d uid" by (simp add: ready_def)
  show "coerce TText (getf (loaded (star r)) ''provider'') \<noteq> None"
    unfolding getf_provider by (rule text_coerces [OF row_typed [OF db_ok_users [OF assms(1,3)] users_types(15)]])
qed (simp_all add: getf_id assms)

definition primary_key :: "'r host \<Rightarrow> row \<Rightarrow> string" where
  "primary_key h r = emailKey h PrimaryEmail (textf (loaded (star r)) ''email'')"

text \<open>The primary e-mail of the user leads to the user, without expiry.\<close>

definition reachable :: "'r host \<Rightarrow> db \<Rightarrow> row \<Rightarrow> bool" where
  "reachable h d r \<longleftrightarrow>
     (\<exists>e. identity_row d (primary_key h r) = Some e \<and> e ''user_id'' = r ''id'' \<and> e ''expires_at'' = JNull)"

lemma reachable_found:
  "reachable h d r \<Longrightarrow> faults d = [] \<Longrightarrow>
     findUserIdByPrimaryEmail h (textf (loaded (star r)) ''email'') d = (Inr (Some (r ''id'')), d)"
  by (auto simp: reachable_def findUserIdByPrimaryEmail_def bindE_def identity_findOne_key primary_key_def ret_apply
      isActive_def rowToDoc_def)

definition named :: "db \<Rightarrow> bool" where
  "named d \<longleftrightarrow> (\<forall>r \<in> set (users d). r ''id'' \<noteq> JStr [])"

lemma named_id:
  assumes "db_ok d" "named d" "r \<in> set (users d)"
  shows "\<exists>uid. r ''id'' = JStr uid \<and> uid \<noteq> []"
proof -
  note t = row_typed [OF db_ok_users [OF assms(1,3)] users_types(1)]
  from t users_row_id [OF db_ok_users [OF assms(1,3)]] obtain uid where "r ''id'' = JStr uid" by (cases "r ''id''") simp_all
  with assms(2,3) show ?thesis by (auto simp: named_def)
qed

lemma unclashed_inj: "unclashed ks rs \<Longrightarrow> [c] \<in> set ks \<Longrightarrow> r \<in> set rs \<Longrightarrow> r' \<in> set rs \<Longrightarrow> r c = r' c \<Longrightarrow> r c \<noteq> JNull \<Longrightarrow> r = r'"
  by (induction rs) (fastforce simp: unclashed_insert [of _ "[]", simplified] free_of_def clash_def list_all_iff)+

lemma ids_inj: "db_ok d \<Longrightarrow> r \<in> set (users d) \<Longrightarrow> r' \<in> set (users d) \<Longrightarrow> r ''id'' = r' ''id'' \<Longrightarrow> r = r'"
  using unclashed_inj [of users_keys "users d" "''id''" r r'] db_ok_user_ids [of d] by (auto simp: db_ok_def users_keys_def)


text \<open>Distinct users have distinct primary keys: their normalised addresses have distinct digests.\<close>

definition keys_apart :: "'r host \<Rightarrow> db \<Rightarrow> bool" where
  "keys_apart h d \<longleftrightarrow> (\<forall>r \<in> set (users d). \<forall>r' \<in> set (users d). primary_key h r = primary_key h r' \<longrightarrow> r ''id'' = r' ''id'')"

lemma sync_row_reaches:
  assumes ok: "db_ok d" "faults d = []" "named d" "keys_apart h d" and r: "r \<in> set (users d)"
  shows "\<exists>d'. syncIdentityIndexesFromUser h (loaded (star r)) d = (Inr (), d') \<and> users d' = users d \<and> db_ok d' \<and> faults d' = []
    \<and> reachable h d' r \<and> (\<forall>r' \<in> set (users d). reachable h d r' \<longrightarrow> reachable h d' r')"
proof -
  from named_id [OF ok(1,3) r] obtain uid where uid: "r ''id'' = JStr uid" "uid \<noteq> []" by blast
  from sync_row [OF ok(1,2) r uid] obtain d' where e: "syncIdentityIndexesFromUser h (loaded (star r)) d = (Inr (), d')"
    and s: "synced h (loaded (star r)) uid d d'" by blast
  let ?ks = "set (expectedKeysForUser h (loaded (star r)))"
  from s have own: "\<forall>k. owner d' k = Some (JStr uid) \<longleftrightarrow> k \<in> ?ks"
    and rest: "\<forall>k. k \<notin> ?ks \<and> owner d k \<noteq> Some (JStr uid) \<longrightarrow> identity_row d' k = identity_row d k"
    and rd: "ready d' uid" "users d' = users d" by (simp_all add: synced_def)
  from s obtain i where i: "identity_row d' (primary_key h r) = Some i" "i ''expires_at'' = JNull"
    by (auto simp: synced_def primary_key_def)
  have "owner d' (primary_key h r) = Some (JStr uid)" using own by (simp add: expectedKeys_set primary_key_def)
  with i uid have me: "reachable h d' r" by (simp add: reachable_def owner_def)
  moreover have "reachable h d' r'" if r': "r' \<in> set (users d)" "reachable h d r'" for r'
  proof (cases "r' = r")
    case False
    with ids_inj [OF ok(1) r'(1) r] have ne: "r' ''id'' \<noteq> r ''id''" by blast
    with ok(4) r r'(1) have "primary_key h r' \<noteq> primary_key h r" by (auto simp: keys_apart_def)
    then have "primary_key h r' \<notin> ?ks" by (simp add: expectedKeys_set primary_key_def key_kinds [symmetric])
    moreover from ne uid r'(2) have "owner d (primary_key h r') \<noteq> Some (JStr uid)"
      by (auto simp: reachable_def owner_def)
    ultimately show ?thesis using rest r'(2) by (simp add: reachable_def)
  qed (use me in simp)
  ultimately show ?thesis using e rd by (auto simp: ready_def)
qed

lemma sync_rows_reach:
  assumes "db_ok d" "faults d = []" "named d" "keys_apart h d" and "set rs \<subseteq> set (users d)"
  shows "\<exists>d'. sync_rows h rs d = (Inr (), d') \<and> users d' = users d \<and> db_ok d' \<and> faults d' = []
    \<and> (\<forall>r \<in> set rs. reachable h d' r) \<and> (\<forall>r \<in> set (users d). reachable h d r \<longrightarrow> reachable h d' r)"
  using assms
proof (induction rs arbitrary: d)
  case Nil
  then show ?case by (simp add: ret_apply)
next
  case (Cons r rs)
  from Cons.prems(5) have "r \<in> set (users d)" by simp
  from sync_row_reaches [OF Cons.prems(1-4) this] obtain d1
    where 1: "syncIdentityIndexesFromUser h (loaded (star r)) d = (Inr (), d1)" "users d1 = users d" "db_ok d1" "faults d1 = []"
      "reachable h d1 r" "\<forall>r' \<in> set (users d). reachable h d r' \<longrightarrow> reachable h d1 r'" by blast
  have "\<exists>d'. sync_rows h rs d1 = (Inr (), d') \<and> users d' = users d1 \<and> db_ok d' \<and> faults d' = []
    \<and> (\<forall>r \<in> set rs. reachable h d' r) \<and> (\<forall>r \<in> set (users d1). reachable h d1 r \<longrightarrow> reachable h d' r)"
    by (rule Cons.IH) (use 1 Cons.prems in \<open>auto simp: named_def keys_apart_def\<close>)
  then obtain d2 where 2: "sync_rows h rs d1 = (Inr (), d2)" "users d2 = users d1" "db_ok d2" "faults d2 = []"
    "\<forall>r \<in> set rs. reachable h d2 r" "\<forall>r \<in> set (users d1). reachable h d1 r \<longrightarrow> reachable h d2 r" by blast
  have "sync_rows h (r # rs) d = (Inr (), d2)" using 1(1) 2(1) by (simp add: thenE_def bindE_def)
  moreover have "reachable h d2 r" using 1(2,5) 2(6) \<open>r \<in> set (users d)\<close> by simp
  ultimately show ?case using 1 2 by (intro exI [of _ d2]) simp
qed

text \<open>Reading the users in the order of their ids, a page at a time.\<close>

definition beyond :: "string option \<Rightarrow> row \<Rightarrow> bool" where
  "beyond lastId r = (case lastId of None \<Rightarrow> True | Some l \<Rightarrow> l < id_text r)"

lemma cursor_page_ok:
  "faults d = [] \<Longrightarrow> cursor_page l d = (Inr (take PAGE (filter (beyond l) (sort_key id_text (users d)))), d)"
  by (simp add: cursor_page_def query_ok beyond_def [abs_def] filter_sort)

lemma after_last:
  assumes "sorted_wrt (\<lambda>a b. f a < (f b :: 'k :: linorder)) xs" and "0 < n" and "xs \<noteq> []"
  shows "filter (\<lambda>x. f (last (take n xs)) < f x) xs = drop n xs"
proof -
  have s: "sorted_wrt (\<lambda>a b. f a < f b) (take n xs @ drop n xs)" using assms(1) by simp
  from assms(2,3) have ne: "take n xs \<noteq> []" by simp
  have "sorted_wrt (\<lambda>a b. f a < f b) (butlast (take n xs) @ [last (take n xs)])"
    using s unfolding append_butlast_last_id [OF ne] by (simp add: sorted_wrt_append)
  then have "\<forall>x \<in> set (butlast (take n xs) @ [last (take n xs)]). \<not> f (last (take n xs)) < f x"
    by (auto simp: sorted_wrt_append)
  then have "\<forall>x \<in> set (take n xs). \<not> f (last (take n xs)) < f x"
    unfolding append_butlast_last_id [OF ne] .
  moreover have "\<forall>x \<in> set (drop n xs). f (last (take n xs)) < f x"
    using s last_in_set [OF ne] unfolding sorted_wrt_append by blast
  ultimately have "filter (\<lambda>x. f (last (take n xs)) < f x) (take n xs @ drop n xs) = drop n xs"
    unfolding filter_append by (simp add: filter_empty_conv filter_id_conv)
  then show ?thesis by simp
qed


lemma sorted_wrt_distinct: "sorted_wrt (\<lambda>x y. f x \<noteq> f y) xs \<Longrightarrow> distinct (map f xs)"
  by (induction xs) auto

lemma ids_ascend:
  assumes "db_ok d" and "named d"
  shows "sorted_wrt (\<lambda>a b. id_text a < id_text b) (sort_key id_text (users d))"
proof -
  have "id_text a \<noteq> id_text b" if "a \<in> set (users d)" "b \<in> set (users d)" "free_of users_keys a b" for a b
    using named_id [OF assms that(1)] named_id [OF assms that(2)] that(3)
    by (auto simp: id_text_def free_of_def users_keys_def clash_def)
  with assms(1) have "sorted_wrt (\<lambda>a b. id_text a \<noteq> id_text b) (users d)"
    unfolding db_ok_def unclashed_def by (auto intro: sorted_wrt_mono_rel [of "users d" "free_of users_keys"])
  then have "distinct (map id_text (users d))" by (rule sorted_wrt_distinct)
  then have "distinct (map id_text (sort_key id_text (users d)))" by (simp add: distinct_map)
  moreover have "sorted (map id_text (sort_key id_text (users d)))" by simp
  ultimately have "sorted_wrt (<) (map id_text (sort_key id_text (users d)))" by (simp add: strict_sorted_iff)
  then show ?thesis by (simp add: sorted_wrt_map)
qed

lemma beyond_trans: "beyond l x \<Longrightarrow> beyond (Some (id_text x)) r \<Longrightarrow> beyond l r"
  by (cases l) (auto simp: beyond_def)

lemma filter_beyond:
  "beyond l x \<Longrightarrow> filter (\<lambda>r. id_text x < id_text r) (filter (beyond l) xs) = filter (beyond (Some (id_text x))) xs"
  using beyond_trans [of l x] by (auto simp: beyond_def intro!: filter_cong)

lemma next_page:
  assumes "sorted_wrt (\<lambda>a b. id_text a < id_text b) xs" and ne: "filter (beyond l) xs \<noteq> []"
  shows "filter (beyond (Some (id_text (last (take PAGE (filter (beyond l) xs)))))) xs = drop PAGE (filter (beyond l) xs)"
proof -
  let ?R = "filter (beyond l) xs"
  have p: "0 < PAGE" by (simp add: PAGE_def)
  with ne have "take PAGE ?R \<noteq> []" by simp
  from in_set_takeD [OF last_in_set [OF this]] have "beyond l (last (take PAGE ?R))" by simp
  from filter_beyond [OF this, of xs] after_last [OF sorted_wrt_filter [OF assms(1)] p ne]
  show ?thesis by simp
qed

abbreviation unread :: "string option \<Rightarrow> db \<Rightarrow> row list" where
  "unread l d \<equiv> filter (beyond l) (sort_key id_text (users d))"

lemma backfill_loop_returns:
  assumes "db_ok d" "faults d = []" "named d" "keys_apart h d" and "length (unread l d) \<le> PAGE * fuel"
  shows "\<exists>d'. backfill_loop (Suc fuel) h l n d = (Inr (Some (n + length (unread l d))), d')
    \<and> users d' = users d \<and> db_ok d' \<and> faults d' = [] \<and> (\<forall>r \<in> set (unread l d). reachable h d' r)
    \<and> (\<forall>r \<in> set (users d). reachable h d r \<longrightarrow> reachable h d' r)"
  using assms
proof (induction fuel arbitrary: l n d)
  case 0
  then show ?case by (simp add: bindE_def cursor_page_ok ret_apply)
next
  case (Suc fuel)
  show ?case
  proof (cases "unread l d = []")
    case True
    with Suc.prems(1,2) show ?thesis by (simp add: bindE_def cursor_page_ok ret_apply)
  next
    case False
    let ?rows = "take PAGE (unread l d)"
    have ne: "?rows \<noteq> []" using False by (simp add: PAGE_def)
    have sub: "set ?rows \<subseteq> set (users d)" using in_set_takeD by fastforce
    from sync_rows_reach [OF Suc.prems(1-4) sub] obtain d1
      where 1: "sync_rows h ?rows d = (Inr (), d1)" "users d1 = users d" "db_ok d1" "faults d1 = []"
        "\<forall>r \<in> set ?rows. reachable h d1 r" "\<forall>r \<in> set (users d). reachable h d r \<longrightarrow> reachable h d1 r" by blast
    let ?l = "Some (id_text (last ?rows))"
    have rest: "unread ?l d1 = drop PAGE (unread l d)"
      using next_page [OF ids_ascend [OF Suc.prems(1,3)] False] by (simp add: 1(2))
    have len: "n + length ?rows + length (unread ?l d1) = n + length (unread l d)"
      and le: "length (unread ?l d1) \<le> PAGE * fuel" unfolding rest using Suc.prems(5) by simp_all
    have "named d1" "keys_apart h d1" using Suc.prems(3,4) by (simp_all add: named_def keys_apart_def 1(2))
    from Suc.IH [OF 1(3,4) this le, of "n + length ?rows", unfolded len] obtain d2
      where 2: "backfill_loop (Suc fuel) h ?l (n + length ?rows) d1 = (Inr (Some (n + length (unread l d))), d2)"
      "users d2 = users d1" "db_ok d2" "faults d2 = []" "\<forall>r \<in> set (unread ?l d1). reachable h d2 r"
      "\<forall>r \<in> set (users d1). reachable h d1 r \<longrightarrow> reachable h d2 r" by blast
    have "backfill_loop (Suc (Suc fuel)) h l n d = (Inr (Some (n + length (unread l d))), d2)"
      unfolding backfill_loop.simps(2) [of "Suc fuel"] bindE_def thenE_def cursor_page_ok [OF Suc.prems(2)]
      by (simp only: prod.case sum.case ne if_False 1(1) 2(1))
    moreover have un: "set (unread l d) = set ?rows \<union> set (unread ?l d1)"
      unfolding rest set_append [symmetric] append_take_drop_id ..
    have "\<forall>r \<in> set ?rows. reachable h d2 r" using 1(5) 2(6) sub unfolding 1(2) by blast
    with 2(5) have "\<forall>r \<in> set (unread l d). reachable h d2 r" unfolding un by blast
    moreover have "\<forall>r \<in> set (users d). reachable h d r \<longrightarrow> reachable h d2 r" using 1(6) 2(6) unfolding 1(2) by blast
    moreover have "users d2 = users d" using 1(2) 2(2) by simp
    ultimately show ?thesis using 2(3,4) by (intro exI [of _ d2] conjI)
  qed
qed


section \<open>Properties\<close>

text \<open>
  (C35) Synchronising a user makes the index exact for them: afterwards the keys that lead to the
  user are precisely the expected ones (primary e-mail, the previous e-mail and the pending
  address while they are in their windows, the OAuth identity), stale keys are gone, no key
  outside that set that led to somebody else has changed, and the primary e-mail resolves to the
  user. The tables' constraints hold before and after.
\<close>

theorem sync_exact:
  assumes "db_ok d" and "faults d = []" and "user_row d uid \<noteq> None"
    and "getf u ''_id'' = JStr uid" and "uid \<noteq> []" and "has_type TText (getf u ''provider'')"
  shows "\<exists>d'. syncIdentityIndexesFromUser h u d = (Inr (), d') \<and> db_ok d' \<and> users d' = users d
    \<and> (\<forall>k. owner d' k = Some (JStr uid) \<longleftrightarrow> k \<in> set (expectedKeysForUser h u))
    \<and> (\<forall>k. k \<notin> set (expectedKeysForUser h u) \<and> owner d k \<noteq> Some (JStr uid) \<longrightarrow> identity_row d' k = identity_row d k)
    \<and> findUserIdByPrimaryEmail h (textf u ''email'') d' = (Inr (Some (JStr uid)), d')"
proof -
  from assms(3) obtain r where "user_row d uid = Some r" by auto
  from user_row_Some [OF this] have "JStr uid \<in> (\<lambda>u. u ''id'') ` set (users d)" by (metis imageI)
  with assms(1,2) have "ready d uid" by (simp add: ready_def)
  from sync_effect [OF this assms(4,5) text_coerces [OF assms(6)], of h] obtain d'
    where e: "syncIdentityIndexesFromUser h u d = (Inr (), d')" and s: "synced h u uid d d'" by blast
  from s obtain i where i: "identity_row d' (emailKey h PrimaryEmail (textf u ''email'')) = Some i" "i ''expires_at'' = JNull"
    and f: "faults d' = []" by (auto simp: synced_def ready_def)
  have "owner d' (emailKey h PrimaryEmail (textf u ''email'')) = Some (JStr uid)"
    using s by (simp add: synced_def expectedKeys_set)
  with i f have "findUserIdByPrimaryEmail h (textf u ''email'') d' = (Inr (Some (JStr uid)), d')"
    by (simp add: findUserIdByPrimaryEmail_def bindE_def identity_findOne_key ret_apply isActive_def rowToDoc_def owner_def)
  with e s show ?thesis by (auto simp: synced_def ready_def)
qed

text \<open>
  (C36) The backfill returns: a bound of one page of 500 more than the table needs is enough for the
  loop over the pages to end, it reports the number of users, and it reaches all of them: after it
  the primary e-mail of every user resolves to that user, provided the digests of the normalised
  addresses are distinct.
\<close>

theorem backfill_returns:
  assumes "db_ok d" and "faults d = []" and "named d" and "keys_apart h d" and "length (users d) \<le> PAGE * fuel"
  shows "\<exists>d'. backfillIdentityIndexes (Suc fuel) h d = (Inr (Some (length (users d))), d') \<and> db_ok d'
    \<and> (\<forall>r \<in> set (users d). findUserIdByPrimaryEmail h (textf (loaded (star r)) ''email'') d' = (Inr (Some (r ''id'')), d'))"
proof -
  have all: "length (unread None d) = length (users d)" "set (unread None d) = set (users d)"
    by (simp_all add: beyond_def [abs_def])
  from backfill_loop_returns [OF assms(1-4), of None fuel 0] assms(5) reachable_found
  show ?thesis unfolding backfillIdentityIndexes_def all by fastforce
qed

definition demo_user :: "string \<Rightarrow> string \<Rightarrow> row" where
  "demo_user i e = (default_row users_columns 0)(''id'' := JStr i, ''email'' := JStr e, ''display_name'' := JStr ''N'')"

definition demo_db :: db where
  "demo_db = \<lparr>users = [demo_user ''u1'' ''a@b.c'', demo_user ''u2'' ''D@e.f''], identities = [], faults = []\<rparr>"

lemma demo_db_ok: "db_ok demo_db" "faults demo_db = []"
  by code_simp+

theorem backfill_returns_witness:
  "\<exists>d'. backfillIdentityIndexes 2 demo_host demo_db = (Inr (Some 2), d')"
proof -
  have "named demo_db" "keys_apart demo_host demo_db" "length (users demo_db) \<le> PAGE * 1" "length (users demo_db) = 2"
    by code_simp+
  with backfill_returns [OF demo_db_ok, of demo_host 1] show ?thesis by (auto simp: numeral_2_eq_2)
qed

theorem sync_exact_witness:
  "\<exists>d'. syncIdentityIndexesFromUser demo_host (loaded (star (demo_user ''u2'' ''D@e.f''))) demo_db = (Inr (), d')
     \<and> owner d' (emailKey demo_host PrimaryEmail ''d@E.f'') = Some (JStr ''u2'')"
proof -
  let ?u = "loaded (star (demo_user ''u2'' ''D@e.f''))"
  have "user_row demo_db ''u2'' \<noteq> None" "getf ?u ''_id'' = JStr ''u2''" "has_type TText (getf ?u ''provider'')"
    "emailKey demo_host PrimaryEmail ''d@E.f'' \<in> set (expectedKeysForUser demo_host ?u)"
    by code_simp+
  with sync_exact [OF demo_db_ok, of "''u2''" ?u demo_host] show ?thesis by auto
qed

end
