(* ===== verification/Http.thy ===== *)
theory Http
  imports Identity_Index
begin

text \<open>
  Requests and responses as the handlers see them, the cookie helpers of
  \<open>utils/cookie.util.ts\<close> and the double-submit check of \<open>middleware/csrf.middleware.ts\<close>.
\<close>

section \<open>Requests and responses\<close>

text \<open>
  The parts of an Express request that are read: the JSON body, the parsed cookies, the headers and
  the query as objects, and the user a middleware attached.
\<close>

record request =
  rq_body :: js
  rq_cookies :: js
  rq_headers :: js
  rq_query :: js
  rq_user :: "user option"

datatype cookie =
    SetCookie string string bool int bool string string
  | ClearCookie string bool string string

text \<open>
  What a handler ends with: a status with a JSON body (before serialisation, which drops
  undefined fields), a redirect, or the call of the next handler with the request as the
  middleware left it. Cookies are set on the response as the handler runs, and stay on it when
  the handler fails later: they are part of the state of the exchange.
\<close>

datatype outcome =
    Respond int js
  | Redirect string
  | Next request

record 'r exchange = "'r world" +
  res_cookies :: "cookie list"

definition json :: "(string \<times> js) list \<Rightarrow> ('w, outcome) act" where
  "json kvs = ret (Respond 200 (JObj kvs))"

definition status_json :: "int \<Rightarrow> (string \<times> js) list \<Rightarrow> ('w, outcome) act" where
  "status_json n kvs = ret (Respond n (JObj kvs))"

text \<open>The body of a refusal: \<open>success: false\<close> and a message.\<close>

definition failed :: "string \<Rightarrow> (string \<times> js) list" where
  "failed msg = [(''success'', JBool False), (''message'', JStr msg)]"

definition succeeded :: "string \<Rightarrow> (string \<times> js) list" where
  "succeeded msg = [(''success'', JBool True), (''message'', JStr msg)]"

text \<open>\<open>v.toLowerCase()\<close>, which only strings have.\<close>

definition lower_of :: "js \<Rightarrow> ('w, string) act" where
  "lower_of v = (case v of JStr s \<Rightarrow> ret (toLowerCase s) | _ \<Rightarrow> raise type_error)"

text \<open>A handler's \<open>try\<close> with a \<open>catch\<close> that answers 500.\<close>

definition or_500 :: "string \<Rightarrow> ('w, outcome) act \<Rightarrow> ('w, outcome) act" where
  "or_500 msg m = catchE m (\<lambda>_. status_json 500 (failed msg))"

text \<open>Early returns: the rest of a handler runs only when a step did not answer.\<close>

definition bindR :: "('w, outcome + 'a) act \<Rightarrow> ('a \<Rightarrow> ('w, outcome) act) \<Rightarrow> ('w, outcome) act" where
  "bindR m f = bindE m (\<lambda>r. case r of Inl out \<Rightarrow> ret out | Inr a \<Rightarrow> f a)"

definition answer :: "int \<Rightarrow> (string \<times> js) list \<Rightarrow> ('w, outcome + 'a) act" where
  "answer n kvs = ret (Inl (Respond n (JObj kvs)))"

text \<open>The schemas of the routes admit strings only; any other value is refused before the handler.\<close>

definition str_of :: "js \<Rightarrow> ('w, string) act" where
  "str_of v = (case v of JStr s \<Rightarrow> ret s | _ \<Rightarrow> raise type_error)"

section \<open>Life times\<close>

text \<open>\<open>/^(\\d+)([smhd])$/\<close>: the number and the unit.\<close>

definition parse_lifetime :: "string \<Rightarrow> (int \<times> char) option" where
  "parse_lifetime s = (case rev s of
      [] \<Rightarrow> None
    | c # ds \<Rightarrow> (if ds \<noteq> [] \<and> list_all is_digit ds \<and> c \<in> set ''smhd''
                   then Some (digits_val (rev ds), c) else None))"

definition unit_secs :: "char \<Rightarrow> int" where
  "unit_secs c = (if c = CHR ''s'' then 1 else if c = CHR ''m'' then 60 else if c = CHR ''h'' then 3600 else 86400)"

definition parseExpiry :: "string \<Rightarrow> int" where
  "parseExpiry expiry = (case parse_lifetime expiry of None \<Rightarrow> 900 | Some (v, c) \<Rightarrow> v * unit_secs c)"

definition parseExpiryMs :: "string \<Rightarrow> int" where
  "parseExpiryMs expiry = (case parse_lifetime expiry of
      None \<Rightarrow> 7 * 24 * 60 * 60 * 1000
    | Some (v, c) \<Rightarrow> v * unit_secs c * 1000)"

section \<open>Cookies\<close>

definition REFRESH_COOKIE :: string where "REFRESH_COOKIE = ''uam_refresh''"
definition CSRF_COOKIE :: string where "CSRF_COOKIE = ''uam_csrf''"

text \<open>JSON token fields: the refresh token is left out in browser mode.\<close>

definition publicTokenFields :: "'r host \<Rightarrow> js \<Rightarrow> js \<Rightarrow> (string \<times> js) list" where
  "publicTokenFields h accessToken refreshToken =
     (if omitRefreshInBody (h_config h) then [(''accessToken'', accessToken)]
      else [(''accessToken'', accessToken), (''refreshToken'', refreshToken)])"

definition res_cookie :: "'r host \<Rightarrow> string \<Rightarrow> string \<Rightarrow> bool \<Rightarrow> int \<Rightarrow> ('r exchange, unit) act" where
  "res_cookie h name v httpOnly maxAge = modify (\<lambda>w. w\<lparr>res_cookies := res_cookies w @
     [SetCookie name v httpOnly maxAge (cookie_secure (h_config h)) (cookie_sameSite (h_config h)) (cookie_path (h_config h))]\<rparr>)"

definition res_clearCookie :: "'r host \<Rightarrow> string \<Rightarrow> ('r exchange, unit) act" where
  "res_clearCookie h name = modify (\<lambda>w. w\<lparr>res_cookies := res_cookies w @
     [ClearCookie name (cookie_secure (h_config h)) (cookie_sameSite (h_config h)) (cookie_path (h_config h))]\<rparr>)"

text \<open>\<open>csrf\<close> is the fresh random token.\<close>

definition setAuthCookies :: "'r host \<Rightarrow> string \<Rightarrow> string \<Rightarrow> ('r exchange, unit) act" where
  "setAuthCookies h csrf refreshToken =
     (let maxAge = parseExpiryMs (refreshExpiresIn (jwt (h_config h)))
      in thenE (res_cookie h REFRESH_COOKIE refreshToken True maxAge)
           (res_cookie h CSRF_COOKIE csrf False maxAge))"

definition clearAuthCookies :: "'r host \<Rightarrow> ('r exchange, unit) act" where
  "clearAuthCookies h = thenE (res_clearCookie h REFRESH_COOKIE) (res_clearCookie h CSRF_COOKIE)"

text \<open>The cookie parser delivers strings; the body is what the client sent.\<close>

definition getRefreshFromRequest :: "'r host \<Rightarrow> request \<Rightarrow> string option" where
  "getRefreshFromRequest h rq = (case js_get (rq_cookies rq) REFRESH_COOKIE of
      JStr (c # s) \<Rightarrow> Some (c # s)
    | _ \<Rightarrow>
        if omitRefreshInBody (h_config h) then None
        else (case js_get (rq_body rq) ''refreshToken'' of JStr (c # s) \<Rightarrow> Some (c # s) | _ \<Rightarrow> None))"

definition refreshUsesCookie :: "request \<Rightarrow> bool" where
  "refreshUsesCookie rq = truthy (js_get (rq_cookies rq) REFRESH_COOKIE)"

section \<open>Cross-site request forgery\<close>

definition CSRF_MAX_AGE_MS :: int where "CSRF_MAX_AGE_MS = 7 * 24 * 60 * 60 * 1000"

definition issueCsrfCookie :: "'r host \<Rightarrow> string \<Rightarrow> request \<Rightarrow> ('r exchange, js) act" where
  "issueCsrfCookie h csrf rq =
     (if truthy (js_get (rq_cookies rq) CSRF_COOKIE) then ret (js_get (rq_cookies rq) CSRF_COOKIE)
      else thenE (res_cookie h CSRF_COOKIE csrf False CSRF_MAX_AGE_MS) (ret (JStr csrf)))"

definition getCsrfToken :: "'r host \<Rightarrow> request \<Rightarrow> ('r exchange, outcome) act" where
  "getCsrfToken h rq =
     bindE (issueCsrfCookie h (h_fresh h 0) rq) (\<lambda>csrf. json [(''success'', JBool True), (''csrfToken'', csrf)])"

definition requireCsrf :: "'r host \<Rightarrow> request \<Rightarrow> ('r exchange, outcome) act" where
  "requireCsrf h rq =
     (if \<not> omitRefreshInBody (h_config h) then ret (Next rq)
      else let csrfCookie = js_get (rq_cookies rq) CSRF_COOKIE;
               headerVal = (case js_get (rq_headers rq) ''x-csrf-token'' of JStr s \<Rightarrow> JStr s | _ \<Rightarrow> JStr [])
           in if \<not> truthy csrfCookie \<or> \<not> truthy headerVal \<or> csrfCookie \<noteq> headerVal
              then status_json 403 (failed ''CSRF validation failed'')
              else ret (Next rq))"

text \<open>In browser mode a state-changing request passes only with the cookie's own value in the header.\<close>

lemma requireCsrf_double_submit:
  "omitRefreshInBody (h_config h) \<Longrightarrow> requireCsrf h rq w = (Inr (Next rq'), w') \<Longrightarrow>
     \<exists>s. s \<noteq> [] \<and> js_get (rq_cookies rq) CSRF_COOKIE = JStr s \<and> js_get (rq_headers rq) ''x-csrf-token'' = JStr s"
  by (auto simp: requireCsrf_def status_json_def ret_apply Let_def split: if_splits js.splits)

text \<open>Life times of well-formed settings are positive multiples of their unit.\<close>

lemma parseExpiry_ms: "parse_lifetime e \<noteq> None \<Longrightarrow> parseExpiryMs e = parseExpiry e * 1000"
  by (auto simp: parseExpiryMs_def parseExpiry_def)

end
