(* ===== verification/Sessions.thy ===== *)
theory Sessions
  imports Http
begin

text \<open>
  Tokens, their revocation and the session list of a user: \<open>services/token.service.ts\<close>,
  \<open>services/revoke.service.ts\<close>, \<open>services/session.service.ts\<close>,
  \<open>utils/refresh-token.util.ts\<close>, \<open>utils/admin-sign.util.ts\<close> and
  \<open>middleware/auth.middleware.ts\<close>. Signing and checking a JWT, SHA-256, HMAC and the control
  plane's answers are fields of the host.
\<close>

section \<open>Tokens\<close>

definition num_or :: "js \<Rightarrow> int \<Rightarrow> int" where
  "num_or v d = (case v of JNum n \<Rightarrow> n | _ \<Rightarrow> d)"

text \<open>\<open>user.tokenVersion ?? 0\<close>; the column is an integer.\<close>

definition version_of :: "user \<Rightarrow> int" where
  "version_of u = num_or (getf u ''tokenVersion'') 0"

text \<open>\<open>jti\<close> is the value of \<open>crypto.randomUUID()\<close>.\<close>

definition access_payload :: "'r host \<Rightarrow> string \<Rightarrow> user \<Rightarrow> (string \<times> js) list" where
  "access_payload h jti u =
     [(''userId'', JStr (js_String (getf u ''_id''))),
      (''sub'', JStr (js_String (getf u ''_id''))),
      (''email'', getf u ''email''),
      (''type'', JStr ''access''),
      (''home_region'', JStr (defaultHomeRegion (h_config h))),
      (''jti'', JStr jti),
      (''tv'', JNum (version_of u))]"

definition generateAccessToken :: "'r host \<Rightarrow> string \<Rightarrow> user \<Rightarrow> string" where
  "generateAccessToken h jti u =
     (let c = jwt (h_config h)
      in jwt_sign (h_jwt h) (h_now h) (access_payload h jti u) (accessSecret c) (parseExpiry (accessExpiresIn c))
           (issuer c) (audience c))"

definition refresh_payload :: "string \<Rightarrow> user \<Rightarrow> (string \<times> js) list" where
  "refresh_payload jti u =
     [(''userId'', JStr (js_String (getf u ''_id''))),
      (''email'', getf u ''email''),
      (''type'', JStr ''refresh''),
      (''jti'', JStr jti)]"

definition generateRefreshToken :: "'r host \<Rightarrow> string \<Rightarrow> user \<Rightarrow> string" where
  "generateRefreshToken h jti u =
     (let c = jwt (h_config h)
      in jwt_sign (h_jwt h) (h_now h) (refresh_payload jti u) (refreshSecret c) (parseExpiry (refreshExpiresIn c))
           (issuer c) (audience c))"

definition typed_payload :: "string \<Rightarrow> js option \<Rightarrow> js option" where
  "typed_payload ty d = (case d of None \<Rightarrow> None | Some p \<Rightarrow> (if js_get p ''type'' = JStr ty then Some p else None))"

definition verifyAccessToken :: "'r host \<Rightarrow> string \<Rightarrow> js option" where
  "verifyAccessToken h token =
     (let c = jwt (h_config h)
      in typed_payload ''access'' (jwt_verify (h_jwt h) (h_now h) token (accessSecret c) (issuer c) (audience c)))"

definition verifyRefreshToken :: "'r host \<Rightarrow> string \<Rightarrow> js option" where
  "verifyRefreshToken h token =
     (let c = jwt (h_config h)
      in typed_payload ''refresh'' (jwt_verify (h_jwt h) (h_now h) token (refreshSecret c) (issuer c) (audience c)))"

definition generateTokenPair :: "'r host \<Rightarrow> string \<Rightarrow> string \<Rightarrow> user \<Rightarrow> string \<times> string" where
  "generateTokenPair h jti jti' u = (generateAccessToken h jti u, generateRefreshToken h jti' u)"

section \<open>Refresh tokens at rest\<close>

definition hashRefreshToken :: "'r host \<Rightarrow> string \<Rightarrow> string" where
  "hashRefreshToken h token = h_sha256 h token"

definition findStoredRefreshToken :: "'r host \<Rightarrow> js \<Rightarrow> string \<Rightarrow> string option" where
  "findStoredRefreshToken h storedTokens presented =
     (let hashed = hashRefreshToken h presented
      in if elems storedTokens \<noteq> [] \<and> JStr hashed \<in> set (elems storedTokens) then Some hashed else None)"

section \<open>Signed requests to the control plane\<close>

definition signingMaterial :: "string \<Rightarrow> string \<Rightarrow> string \<Rightarrow> string" where
  "signingMaterial timestamp nonce body = timestamp @ [CHR 0x0A] @ nonce @ [CHR 0x0A] @ body"

definition adminSignHeaders :: "'r host \<Rightarrow> string \<Rightarrow> string \<Rightarrow> (string \<times> string) list" where
  "adminSignHeaders h nonce body =
     (let timestamp = show_int (h_now h div 1000);
          key = adminApiKey (h_config h);
          signature = (if key = [] \<or> key = ''CHANGE_ME_ADMIN_API_KEY'' then ''sha256=''
                       else ''sha256='' @ hmac (h_crypto h) key (signingMaterial timestamp nonce body))
      in [(''Content-Type'', ''application/json''),
          (''X-Admin-Timestamp'', timestamp),
          (''X-Admin-Nonce'', nonce),
          (''X-Admin-Signature'', signature)])"

text \<open>The middle segment of a JWT, without a check of its signature.\<close>

definition decodePayload :: "'r host \<Rightarrow> string \<Rightarrow> js option" where
  "decodePayload h token = (case split_char (CHR ''.'') token of
      [a, b, c] \<Rightarrow> b64url_json (h_jwt h) b
    | _ \<Rightarrow> None)"

definition extractAccessJti :: "'r host \<Rightarrow> string \<Rightarrow> js" where
  "extractAccessJti h accessToken = (case decodePayload h accessToken of None \<Rightarrow> JUndef | Some p \<Rightarrow> js_get p ''jti'')"

text \<open>\<open>exp\<close> of a checked token is a number of seconds.\<close>

definition remainingTtlSecs :: "'r host \<Rightarrow> js \<Rightarrow> int" where
  "remainingTtlSecs h e =
     (if num_or e 0 = 0 then 3600
      else let remaining = num_or e 0 - h_now h div 1000
           in if remaining \<le> 0 then 60 else min (max remaining 60) 86400)"

definition send_post :: "'r host \<Rightarrow> http_post \<Rightarrow> (('r, 'z) world_scheme, http_result) act" where
  "send_post h p = thenE (modify (\<lambda>w. w\<lparr>posts := posts w @ [p]\<rparr>)) (ret (h_post h p))"

definition revoke_url :: "'r host \<Rightarrow> string" where
  "revoke_url h = strip_slash (controlPlane_url (h_config h)) @ ''/revoke''"

text \<open>\<open>rawToken.replace(/^Bearer\\s+/i, '').trim()\<close>.\<close>

definition strip_bearer :: "string \<Rightarrow> string" where
  "strip_bearer raw =
     (let rest = drop 6 raw
      in trim (if toLowerCase (take 6 raw) = ''bearer'' \<and> rest \<noteq> [] \<and> is_space (hd rest) then dropWhile is_space rest else raw))"

text \<open>Both revocations are best-effort: a rejected or failed request gives \<open>false\<close>.\<close>

definition revokeAccessToken :: "'r host \<Rightarrow> string \<Rightarrow> string \<Rightarrow> (('r, 'z) world_scheme, bool) act" where
  "revokeAccessToken h nonce rawToken =
     (let token = strip_bearer rawToken
      in if token = [] then ret False
         else let payload = (case decodePayload h token of None \<Rightarrow> JUndef | Some p \<Rightarrow> p);
                  jti = js_get payload ''jti'';
                  body = JSON_stringify (JObj ([(''ttl_secs'', JNum (remainingTtlSecs h (js_get payload ''exp'')))]
                    @ (if truthy jti then [(''jti'', jti)] else []) @ [(''token'', JStr token)]))
              in bindE (send_post h \<lparr>hp_url = revoke_url h, hp_headers = adminSignHeaders h nonce body, hp_body = body\<rparr>)
                   (\<lambda>res. ret (res = HttpOk)))"

definition revokeByJti :: "'r host \<Rightarrow> string \<Rightarrow> js \<Rightarrow> int \<Rightarrow> (('r, 'z) world_scheme, bool) act" where
  "revokeByJti h nonce jti ttlSecs =
     (if \<not> truthy jti then ret False
      else let body = JSON_stringify (JObj [(''jti'', jti), (''ttl_secs'', JNum ttlSecs)])
           in bindE (send_post h \<lparr>hp_url = revoke_url h, hp_headers = adminSignHeaders h nonce body, hp_body = body\<rparr>)
                (\<lambda>res. ret (res = HttpOk)))"

section \<open>Sessions\<close>

definition tv_key :: "js \<Rightarrow> string" where
  "tv_key userId = ''gateway:user:tv:'' @ js_String userId"

definition MAX_REFRESH :: int where "MAX_REFRESH = 5"
definition MAX_JTIS :: int where "MAX_JTIS = 20"
definition ACCESS_REVOKE_TTL_SECS :: int where "ACCESS_REVOKE_TTL_SECS = 900"

text \<open>The version is written and read back: the result says whether the gateway will see it.\<close>

definition publishTokenVersion :: "'r host \<Rightarrow> js \<Rightarrow> int \<Rightarrow> (('r, 'z) world_scheme, bool) act" where
  "publishTokenVersion h userId version w =
     (if \<not> isRedisAvailable w then (Inr False, w)
      else let w1 = cacheSet (h_redis h) (h_now h) (h_rnd h) (tv_key userId) (Raw (show_int version)) None w
           in case cacheGet (h_redis h) (h_now h) (h_rnd h) (tv_key userId) w1 of
                (readBack, w2) \<Rightarrow> (Inr (readBack = Some (Raw (show_int version))), w2))"

text \<open>The requests are started in the order of the list; \<open>nonce n\<close> is the nonce of the n-th.\<close>

fun revoke_all :: "'r host \<Rightarrow> (nat \<Rightarrow> string) \<Rightarrow> nat \<Rightarrow> js list \<Rightarrow> (('r, 'z) world_scheme, unit) act" where
  "revoke_all h nonce n [] = ret ()"
| "revoke_all h nonce n (j # js) =
     bindE (revokeByJti h (nonce n) j ACCESS_REVOKE_TTL_SECS) (\<lambda>_. revoke_all h nonce (Suc n) js)"

definition revokeAllTrackedAccessJtis :: "'r host \<Rightarrow> (nat \<Rightarrow> string) \<Rightarrow> js \<Rightarrow> (('r, 'z) world_scheme, unit) act" where
  "revokeAllTrackedAccessJtis h nonce jtis = revoke_all h nonce 0 (elems jtis)"

definition clear_sessions :: "int \<Rightarrow> user \<Rightarrow> user" where
  "clear_sessions version u =
     setf (setf (setf u ''refreshTokens'' (JArr [])) ''activeAccessJtis'' (JArr [])) ''tokenVersion'' (JNum version)"

definition invalidateAllSessions :: "'r host \<Rightarrow> (nat \<Rightarrow> string) \<Rightarrow> js \<Rightarrow> (('r, 'z) world_scheme, unit) act" where
  "invalidateAllSessions h nonce userId =
     bindE (on_db (findById h userId (Some ''+refreshTokens +activeAccessJtis''))) (\<lambda>found. case found of
        None \<Rightarrow> ret ()
      | Some u \<Rightarrow>
          thenE (revokeAllTrackedAccessJtis h nonce (getf u ''activeAccessJtis''))
            (let newVersion = version_of u + 1
             in bindE (on_db (save h [] (clear_sessions newVersion u))) (\<lambda>_.
                  bindE (publishTokenVersion h userId newVersion) (\<lambda>_. ret ()))))"

definition session_pushes :: "'r host \<Rightarrow> string \<Rightarrow> string \<Rightarrow> (string \<times> (js list \<times> int option)) list" where
  "session_pushes h accessToken refreshToken =
     (''refreshTokens'', ([JStr (hashRefreshToken h refreshToken)], Some (- MAX_REFRESH)))
     # (let jti = extractAccessJti h accessToken
        in if truthy jti then [(''activeAccessJtis'', ([jti], Some (- MAX_JTIS)))] else [])"

text \<open>The callers always pass the token version.\<close>

definition rotateSessionTokens ::
    "'r host \<Rightarrow> js \<Rightarrow> string \<Rightarrow> string \<Rightarrow> string \<Rightarrow> int \<Rightarrow> (('r, 'z) world_scheme, bool) act" where
  "rotateSessionTokens h userId oldRefreshToken accessToken refreshToken tokenVersion =
     bindE (on_db (findById h userId (Some ''+refreshTokens''))) (\<lambda>found.
       case findStoredRefreshToken h (case found of None \<Rightarrow> JUndef | Some u \<Rightarrow> getf u ''refreshTokens'') oldRefreshToken of
         None \<Rightarrow> ret False
       | Some storedKey \<Rightarrow>
           bindE (on_db (findByIdAndUpdate h userId
               (no_update\<lparr>up_pull := [(''refreshTokens'', JStr storedKey)],
                          up_push := session_pushes h accessToken refreshToken\<rparr>)))
             (\<lambda>result. case result of
                None \<Rightarrow> ret False
              | Some _ \<Rightarrow> bindE (publishTokenVersion h userId tokenVersion) (\<lambda>_. ret True)))"

definition persistSessionTokens ::
    "'r host \<Rightarrow> js \<Rightarrow> string \<Rightarrow> string \<Rightarrow> int \<Rightarrow> (('r, 'z) world_scheme, unit) act" where
  "persistSessionTokens h userId accessToken refreshToken tokenVersion =
     bindE (on_db (findByIdAndUpdate h userId (no_update\<lparr>up_push := session_pushes h accessToken refreshToken\<rparr>))) (\<lambda>_.
       bindE (publishTokenVersion h userId tokenVersion) (\<lambda>_. ret ()))"

definition removeRefreshToken :: "'r host \<Rightarrow> js \<Rightarrow> string \<Rightarrow> (('r, 'z) world_scheme, unit) act" where
  "removeRefreshToken h userId refreshToken =
     bindE (on_db (findById h userId (Some ''+refreshTokens''))) (\<lambda>found. case found of
        None \<Rightarrow> ret ()
      | Some u \<Rightarrow>
          (case findStoredRefreshToken h (getf u ''refreshTokens'') refreshToken of
             None \<Rightarrow> ret ()
           | Some storedKey \<Rightarrow>
               bindE (on_db (save h [] (setf u ''refreshTokens''
                   (JArr (filter (\<lambda>t. t \<noteq> JStr storedKey) (elems (getf u ''refreshTokens''))))))) (\<lambda>_. ret ())))"

section \<open>The authentication middleware\<close>

definition tokenVersionStale :: "js \<Rightarrow> js \<Rightarrow> bool" where
  "tokenVersionStale payloadTv userTv \<longleftrightarrow> coalesce payloadTv (JNum 0) \<noteq> coalesce userTv (JNum 0)"

definition bearer_token :: "request \<Rightarrow> string option" where
  "bearer_token rq = (case js_get (rq_headers rq) ''authorization'' of
      JStr s \<Rightarrow> (if prefix ''Bearer '' s then Some (split_char (CHR '' '') s ! 1) else None)
    | _ \<Rightarrow> None)"

definition authenticate :: "'r host \<Rightarrow> request \<Rightarrow> ('r exchange, outcome) act" where
  "authenticate h rq = or_500 ''Authentication error''
     (case bearer_token rq of
        None \<Rightarrow> status_json 401 (failed ''Access token is required'')
      | Some token \<Rightarrow>
          (case verifyAccessToken h token of
             None \<Rightarrow> status_json 401 (failed ''Invalid or expired access token'')
           | Some payload \<Rightarrow>
               bindE (on_db (findById h (js_get payload ''userId'') None)) (\<lambda>found. case found of
                  None \<Rightarrow> status_json 401 (failed ''User not found'')
                | Some u \<Rightarrow>
                    if tokenVersionStale (js_get payload ''tv'') (getf u ''tokenVersion'')
                    then status_json 401 (failed ''Session expired - please sign in again'')
                    else ret (Next (rq\<lparr>rq_user := Some u\<rparr>)))))"

definition optionalAuth :: "'r host \<Rightarrow> request \<Rightarrow> ('r exchange, outcome) act" where
  "optionalAuth h rq = catchE
     (case bearer_token rq of
        None \<Rightarrow> ret (Next rq)
      | Some token \<Rightarrow>
          (case verifyAccessToken h token of
             None \<Rightarrow> ret (Next rq)
           | Some payload \<Rightarrow>
               bindE (on_db (findById h (js_get payload ''userId'') None)) (\<lambda>found. case found of
                  None \<Rightarrow> ret (Next rq)
                | Some u \<Rightarrow>
                    if tokenVersionStale (js_get payload ''tv'') (getf u ''tokenVersion'') then ret (Next rq)
                    else ret (Next (rq\<lparr>rq_user := Some u\<rparr>)))))
     (\<lambda>_. ret (Next rq))"

definition requireVerifiedEmail :: "request \<Rightarrow> ('r exchange, outcome) act" where
  "requireVerifiedEmail rq =
     (case rq_user rq of
        Some u \<Rightarrow> if truthy (getf u ''isEmailVerified'') then ret (Next rq)
                  else status_json 403 (failed ''Email verification required'' @ [(''code'', JStr ''EMAIL_NOT_VERIFIED'')])
      | None \<Rightarrow> status_json 403 (failed ''Email verification required'' @ [(''code'', JStr ''EMAIL_NOT_VERIFIED'')]))"

end
