(* ===== verification/Mailer.thy ===== *)
theory Mailer
  imports Http
begin

text \<open>
  \<open>services/email.service.ts\<close>: bounded retries and the two account mails. A mail is its address,
  subject and link; the text around the link is not modelled.
\<close>

text \<open>
  \<open>retryWithBackoff\<close>: at most \<open>maxRetries\<close> attempts, the last error is thrown. The delays between
  the attempts (1, 2, 4, ... seconds) have no effect on the state.
\<close>

fun retry :: "(nat \<Rightarrow> ('w, 'a) act) \<Rightarrow> nat \<Rightarrow> nat \<Rightarrow> ('w, 'a) act" where
  "retry fn k 0 = raise (Error ''undefined'')"
| "retry fn k (Suc n) = catchE (fn k) (\<lambda>e. if n = 0 then raise e else retry fn (Suc k) n)"

definition retryWithBackoff :: "(nat \<Rightarrow> ('w, 'a) act) \<Rightarrow> nat \<Rightarrow> ('w, 'a) act" where
  "retryWithBackoff fn maxRetries = retry fn 1 maxRetries"

definition smtpConfigured :: "'r host \<Rightarrow> bool" where
  "smtpConfigured h \<longleftrightarrow> smtp_user (smtp (h_config h)) \<noteq> [] \<and> smtp_pass (smtp (h_config h)) \<noteq> []"

definition send_attempt :: "'r host \<Rightarrow> mail \<Rightarrow> nat \<Rightarrow> (('r, 'z) world_scheme, unit) act" where
  "send_attempt h m k =
     (if h_mailer h m k then modify (\<lambda>w. w\<lparr>outbox := outbox w @ [m]\<rparr>) else raise (Error ''SMTP''))"

definition sendEmail :: "'r host \<Rightarrow> mail \<Rightarrow> (('r, 'z) world_scheme, unit) act" where
  "sendEmail h m = (if \<not> smtpConfigured h then ret () else retryWithBackoff (send_attempt h m) 3)"

definition link_code :: "'r host \<Rightarrow> string \<Rightarrow> EmailLinkKind \<Rightarrow> string \<Rightarrow> js \<Rightarrow> (('r, 'z) world_scheme, string) act" where
  "link_code h code kind secret meta =
     createEmailLinkCode (h_config h) (h_redis h) (h_now h) (h_rnd h) code kind secret meta"

definition sendVerificationEmail :: "'r host \<Rightarrow> string \<Rightarrow> string \<Rightarrow> string \<Rightarrow> (('r, 'z) world_scheme, unit) act" where
  "sendVerificationEmail h code email token =
     bindE (link_code h code VerifyEmail token JUndef) (\<lambda>linkCode.
       sendEmail h \<lparr>m_to = email, m_subject = ''Verify Your Email Address'',
         m_link = clientUrl (h_config h) @ ''/verify-email?code='' @ linkCode\<rparr>)"

definition sendPasswordResetEmail :: "'r host \<Rightarrow> string \<Rightarrow> string \<Rightarrow> string \<Rightarrow> (('r, 'z) world_scheme, unit) act" where
  "sendPasswordResetEmail h code email token =
     bindE (link_code h code ResetPassword token JUndef) (\<lambda>linkCode.
       sendEmail h \<lparr>m_to = email, m_subject = ''Reset Your Password'',
         m_link = clientUrl (h_config h) @ ''/reset-password?code='' @ linkCode\<rparr>)"

text \<open>What a mail does to the rest of the state: nothing.\<close>

lemma keeps_retry: "(\<And>k. keeps P (fn k)) \<Longrightarrow> keeps P (retry fn k n)"
  by (induction fn k n rule: retry.induct) (auto intro!: keeps_catchE)

lemma keeps_sendEmail: "(\<And>w m. P w \<Longrightarrow> P (w\<lparr>outbox := m\<rparr>)) \<Longrightarrow> keeps P (sendEmail h m)"
  unfolding sendEmail_def retryWithBackoff_def send_attempt_def
  by (auto intro!: keeps_retry keeps_modify)

text \<open>A mail is handed over at most once, after at most three attempts.\<close>

lemma retry_first:
  assumes "\<And>k w. fn k w = (if good k then (Inr (), f w) else (Inl e, w))"
  shows "retry fn k (Suc n) w = (if \<exists>i \<le> n. good (k + i) then (Inr (), f w) else (Inl e, w))"
proof (induction n arbitrary: k)
  case 0
  then show ?case by (simp add: catchE_def assms raise_apply)
next
  case (Suc n)
  have "(\<exists>i \<le> Suc n. good (k + i)) \<longleftrightarrow> good k \<or> (\<exists>i \<le> n. good (Suc k + i))"
    by (metis add_0_right add_Suc add_Suc_right le0 le_Suc_eq not0_implies_Suc Suc_le_mono)
  with Suc [of "Suc k"] show ?case by (simp add: catchE_def assms)
qed

lemma sendEmail_outbox:
  "sendEmail h m w =
     (if \<not> smtpConfigured h then (Inr (), w)
      else if \<exists>i \<le> 2. h_mailer h m (1 + i) then (Inr (), w\<lparr>outbox := outbox w @ [m]\<rparr>) else (Inl (Error ''SMTP''), w))"
proof -
  have "send_attempt h m k w = (if h_mailer h m k then (Inr (), w\<lparr>outbox := outbox w @ [m]\<rparr>) else (Inl (Error ''SMTP''), w))" for k w
    by (simp add: send_attempt_def act_simps)
  from retry_first [of "send_attempt h m" "h_mailer h m", OF this, of 1 2 w]
  show ?thesis by (simp add: sendEmail_def retryWithBackoff_def ret_apply numeral_3_eq_3 numeral_2_eq_2 del: retry.simps)
qed

end
