(* ===== verification/Store_Effects.thy ===== *)
theory Store_Effects
  imports Identity_Index
begin

text \<open>
  What the operations of the user model do to the tables when they succeed, whatever the faults
  before and after: the facts the handlers' proofs rest on.
\<close>

section \<open>Successful statements\<close>

text \<open>A run that succeeds would have succeeded, with the same result, on a database without faults.\<close>

definition calm :: "db \<Rightarrow> db" where
  "calm d = d\<lparr>faults := []\<rparr>"

definition calmed :: "(db, 'a) act \<Rightarrow> bool" where
  "calmed m \<longleftrightarrow> (\<forall>d x d'. m d = (Inr x, d') \<longrightarrow> m (calm d) = (Inr x, calm d'))"

lemma calmedD: "calmed m \<Longrightarrow> m d = (Inr x, d') \<Longrightarrow> m (calm d) = (Inr x, calm d')"
  by (simp add: calmed_def)

lemma calm_simps [simp]: "users (calm d) = users d" "identities (calm d) = identities d" "faults (calm d) = []"
  "db_ok (calm d) = db_ok d" "user_row (calm d) uid = user_row d uid" "identity_row (calm d) k = identity_row d k"
  by (simp_all add: calm_def db_ok_def user_row_def identity_row_def)

lemma calmed_ret [intro]: "calmed (ret a)" and calmed_raise [intro]: "calmed (raise e)"
  by (simp_all add: calmed_def ret_apply raise_apply)

lemma calmed_bindE [intro]: "calmed m \<Longrightarrow> (\<And>a. calmed (f a)) \<Longrightarrow> calmed (bindE m f)"
  unfolding calmed_def bindE_eq_Inr by blast

lemma calmed_thenE [intro]: "calmed m \<Longrightarrow> calmed n \<Longrightarrow> calmed (thenE m n)"
  unfolding thenE_def by (rule calmed_bindE)

lemma calmed_rethrow [intro]: "calmed m \<Longrightarrow> calmed (rethrow_duplicate m)"
  by (auto simp: calmed_def rethrow_duplicate_def catchE_def raise_apply split: prod.splits sum.splits)

lemma calmed_query:
  assumes "\<And>d fs. m (d\<lparr>faults := fs\<rparr>) = (fst (m d), (snd (m d))\<lparr>faults := fs\<rparr>)"
  shows "calmed (query m)"
  unfolding calmed_def
proof (intro allI impI)
  fix d x d' assume "query m d = (Inr x, d')"
  then obtain fs where "m (d\<lparr>faults := fs\<rparr>) = (Inr x, d')"
    by (auto simp: query_def split: list.splits if_splits) (metis db.surjective db.update_convs(3))
  then show "query m (calm d) = (Inr x, calm d')"
    using assms [of fs d] assms [of "[]" d] by (cases "m d") (auto simp: query_def calm_def)
qed

lemma calmed_statements:
  "calmed (select_users re cs ps)" "calmed (insert_user now as)" "calmed (update_user now uid as)"
  "calmed (delete_users P)" "calmed (select_identities re cs ps)" "calmed (insert_identity now ias)"
  "calmed (update_identity now key ias)" "calmed (delete_identities P)" "calmed nop" "calmed (query (raise e))"
  unfolding select_users_def insert_user_def update_user_def delete_users_def select_identities_def
    insert_identity_def update_identity_def delete_identities_def nop_def
  by (rule calmed_query; simp add: ret_apply raise_apply Let_def split: sum.splits option.splits)+

lemma calmed_findOne: "calmed (findOne h f p)" and calmed_findOne_lean: "calmed (findOne_lean h f p)"
  unfolding findOne_def findOne_lean_def execute_select_def
  by (auto intro!: calmed_bindE calmed_statements split: sum.splits prod.splits)

lemma calmed_findById: "calmed (findById h uid p)"
  by (simp add: findById_def calmed_findOne)

lemma calmed_save: "calmed (save h uuid u)"
  unfolding save_def save_insert_def save_update_def Let_def
  by (auto intro!: calmed_bindE calmed_rethrow calmed_statements split: sum.splits)

lemma calmed_update_body: "calmed (update_body h f up)"
  unfolding update_body_def
  by (auto intro!: calmed_bindE calmed_thenE calmed_statements split: sum.splits prod.splits list.splits)

lemma calmed_applyUpdate: "calmed (applyUpdate h f up)"
proof -
  have "calmed (transaction (update_body h f up))"
    using calmed_update_body [of h f up]
    by (auto simp: calmed_def transaction_def split: prod.splits sum.splits) 
  then have "calmed (catchE (transaction (update_body h f up)) (\<lambda>e. thenE nop (raise (translateDuplicateKey e))))"
    by (auto simp: calmed_def catchE_def thenE_def bindE_def raise_apply split: prod.splits sum.splits)
  then show ?thesis unfolding applyUpdate_def by (intro calmed_thenE calmed_statements)
qed

section \<open>Effects\<close>

definition same_tables :: "db \<Rightarrow> db \<Rightarrow> bool" where
  "same_tables d d' \<longleftrightarrow> users d' = users d \<and> identities d' = identities d"

lemma same_tables_ok: "same_tables d d' \<Longrightarrow> db_ok d' = db_ok d"
  by (simp add: same_tables_def db_ok_def)

lemma same_tables_rows: "same_tables d d' \<Longrightarrow> user_row d' uid = user_row d uid"
  by (simp add: same_tables_def user_row_def)

lemma calm_same: "calm d' = calm d \<Longrightarrow> same_tables d d'"
  using calm_simps(1,2) [of d] calm_simps(1,2) [of d'] by (simp add: same_tables_def)

lemma findById_effect:
  assumes "findById h uid p d = (Inr x, d')" and "known p"
  shows "x = map_option (\<lambda>r. loaded (project (columns_of p) r)) (user_row d (js_String uid)) \<and> same_tables d d'"
proof -
  have "findById h (JStr (js_String uid)) p = findById h uid p"
    by (simp add: findById_def by_id_def)
  with calmedD [OF calmed_findById assms(1)] findById_row [OF assms(2), of "calm d" h "js_String uid"]
  have "x = map_option (\<lambda>r. loaded (project (columns_of p) r)) (user_row d (js_String uid))" and "calm d' = calm d"
    by auto
  then show ?thesis by (simp add: calm_same)
qed


lemma findById_Some:
  assumes "findById h uid p d = (Inr (Some u), d')" and "known p"
  shows "\<exists>r. user_row d (js_String uid) = Some r \<and> u = loaded (project (columns_of p) r) \<and> same_tables d d'"
  using findById_effect [OF assms] by (cases "user_row d (js_String uid)") auto

lemma findOne_effect:
  assumes "findOne h f p d = (Inr x, d')" and "known p"
  shows "same_tables d d' \<and> (\<forall>u. x = Some u \<longrightarrow> (\<exists>r \<in> set (users d). u = loaded (project (columns_of p) r)
    \<and> (\<exists>cs ps. buildWhere f [] = Inr (cs, ps) \<and> selects (h_regex h) cs ps r)))"
proof -
  from calmedD [OF calmed_findOne assms(1)] obtain cs ps where w: "buildWhere f [] = Inr (cs, ps)" and sw: "list_all sql_wf cs"
    and x: "x = map_option loaded (first_row (map (project (columns_of p)) (take 1 (filter (selects (h_regex h) cs ps) (users d)))))"
    and c: "calm d' = calm d"
    by (auto simp: findOne_def execute_select_def known_columns [OF assms(2)] bindE_def select_users_def query_ok ret_def raise_def
        split: sum.splits prod.splits if_splits simp del: buildWhere.simps)
  have "\<exists>r \<in> set (users d). u = loaded (project (columns_of p) r) \<and> selects (h_regex h) cs ps r" if "x = Some u" for u
    using that x by (cases "filter (selects (h_regex h) cs ps) (users d)") (auto simp: first_row_def dest: filter_eq_ConsD)
  moreover have "same_tables d d'" by (rule calm_same [OF c])
  ultimately show ?thesis using w by simp
qed

text \<open>A row is the only one with its id.\<close>

lemma user_row_mem:
  assumes "db_ok d" and "r \<in> set (users d)"
  shows "\<exists>uid. r ''id'' = JStr uid \<and> user_row d uid = Some r"
proof -
  from assms have "has_type TText (r ''id'')" "r ''id'' \<noteq> JNull"
    by (simp_all add: row_typed [OF _ users_types(1)] db_ok_users db_ok_user_ids)
  then obtain uid where uid: "r ''id'' = JStr uid" by (cases "r ''id''") auto
  from assms(2) obtain xs ys where rs: "users d = xs @ r # ys" by (metis split_list)
  have "r' ''id'' \<noteq> JStr uid" if "r' \<in> set xs" for r'
  proof -
    have "unclashed users_keys (xs @ r # ys)" using assms(1) by (simp add: db_ok_def rs [symmetric])
    with that have "free_of users_keys r r'" by (simp add: unclashed_insert)
    then have "\<not> clash [''id''] r r'" by (simp add: free_of_def users_keys_def)
    with uid show ?thesis by (auto simp: clash_def)
  qed
  then have "find (\<lambda>r. r ''id'' = JStr uid) xs = None" by (simp add: find_None_iff)
  with uid show ?thesis by (simp add: user_row_def rs find_append)
qed

text \<open>The documents the handlers write change only known fields.\<close>

definition tracked :: "user \<Rightarrow> bool" where
  "tracked u \<longleftrightarrow> set (u_modified u) \<subseteq> set ALL_FIELDS \<and> \<not> u_isNew u"

lemma tracked_loaded [simp]: "tracked (loaded r)"
  by (simp add: tracked_def loaded_def new_User_def)

lemma modified_loaded [simp]: "u_modified (loaded r) = []"
  by (simp add: loaded_def new_User_def)

lemma tracked_setf [simp]: "f \<in> set ALL_FIELDS \<Longrightarrow> tracked u \<Longrightarrow> tracked (setf u f v)"
  by (auto simp: tracked_def setf_def set_add_def)

lemma getf_setf: "f \<noteq> ''_id'' \<Longrightarrow> getf (setf u f v) g = (if (if g = ''_id'' then ''id'' else g) = f then v else getf u g)"
  by (simp add: getf_def setf_def update_conv')

lemma JSONB_known: "set JSONB_LIST \<subseteq> set ALL_FIELDS" "''id'' \<in> set ALL_FIELDS" "''updatedAt'' \<in> set ALL_FIELDS"
  "field_col ''id'' = ''id''" "field_col ''updatedAt'' = ''updated_at''"
  by code_simp+

lemma set_fold_add: "set (fold set_add ys xs) = set xs \<union> set ys"
  using set_add_set [of "\<lambda>x. x" ys xs] by simp

lemma write_fields_known: "tracked u \<Longrightarrow> set (write_fields u) \<subseteq> set ALL_FIELDS - {''id'', ''createdAt'', ''updatedAt''}"
  using JSONB_known(1) by (auto simp: write_fields_def set_fold_add tracked_def clock_fields_def)

text \<open>Saving a document that is in the table.\<close>

definition storable :: "'r host \<Rightarrow> string \<Rightarrow> js \<Rightarrow> bool" where
  "storable h f v \<longleftrightarrow> (\<forall>ty. users_type (field_col f) = Some ty \<longrightarrow> coerce ty (write_param h f v) \<noteq> None)"

lemma assign_coerces:
  assumes "assign users_columns r0 as = Inr r" and "users_type n = Some ty" and "map_of as n = Some v"
  shows "coerce ty v \<noteq> None"
proof -
  from users_type_column [OF assms(2)] obtain c where c: "c \<in> set users_columns" "c_name c = n" "c_type c = ty" by blast
  from assms(1) have "list_all (\<lambda>c. case map_of as (c_name c) of None \<Rightarrow> True | Some v \<Rightarrow> coerce (c_type c) v \<noteq> None) users_columns"
    by (auto simp: assign_def split: if_splits)
  with c assms(3) show ?thesis by (force simp: list_all_iff)
qed

lemma written_storable:
  assumes as: "assign users_columns r0 (as @ as') = Inr r"
    and w: "write_assigns h val fs = Inr as" and f: "f \<in> set fs"
  shows "storable h f (val f)"
proof -
  from as have "distinct (map fst (as @ as'))" by (auto simp: assign_def split: if_splits)
  moreover have "(field_col f, write_param h f (val f)) \<in> set (as @ as')"
    using f by (auto simp: write_assigns_eq [OF w])
  ultimately have "map_of (as @ as') (field_col f) = Some (write_param h f (val f))"
    by (rule map_of_is_SomeI)
  with assign_coerces [OF as] show ?thesis by (simp add: storable_def)
qed

definition row_written :: "'r host \<Rightarrow> user \<Rightarrow> row \<Rightarrow> row \<Rightarrow> bool" where
  "row_written h u r0 r \<longleftrightarrow> (\<forall>f \<in> set ALL_FIELDS. f \<noteq> ''updatedAt'' \<longrightarrow>
     (if f \<in> set (write_fields u) then storable h f (getf u f) \<and> field_value r f = stored h f (getf u f)
      else field_value r f = field_value r0 f))"

definition only_user :: "string \<Rightarrow> db \<Rightarrow> db \<Rightarrow> bool" where
  "only_user uid d d' \<longleftrightarrow> identities d' = identities d \<and> (\<forall>v. v \<noteq> uid \<longrightarrow> user_row d' v = user_row d v)"

lemma save_effect:
  assumes ok: "db_ok d" and s: "save h uuid u d = (Inr u', d')" and t: "tracked u" and i: "getf u ''id'' = JStr uid"
    and r0: "user_row d uid = Some r0"
  shows "\<exists>r. u' = saved r u \<and> user_row d' uid = Some r \<and> row_written h u r0 r \<and> only_user uid d d' \<and> db_ok d'"
proof -
  from calmedD [OF calmed_save s] t obtain as row where w: "write_assigns h (getf u) (write_fields u) = Inr as"
    and up: "update_user (h_now h) (JStr uid) as (calm d) = (Inr row, calm d')"
    and u': "u' = (case row of Some r \<Rightarrow> saved r u | None \<Rightarrow> u\<lparr>u_modified := []\<rparr>)"
    by (auto simp: save_def tracked_def save_update_def i rethrow_duplicate_def bindE_eq_Inr catchE_def ret_def raise_def
        split: sum.splits prod.splits)
  from up r0 obtain r where row: "row = Some r"
    by (auto simp: update_user_def query_ok find_user_id split: sum.splits option.splits if_splits)
  have cols: "fst ` set as = field_col ` set (write_fields u)" by (simp add: write_assigns_eq [OF w] image_image)
  have inj: "field_col f \<in> field_col ` set (write_fields u) \<longleftrightarrow> f \<in> set (write_fields u)" if "f \<in> set ALL_FIELDS" for f
    using that write_fields_known [OF t] field_col_inj by blast
  have "''id'' \<notin> fst ` set as"
    using inj [of "''id''"] write_fields_known [OF t] JSONB_known(2,4) unfolding cols by auto
  from update_user_effect [OF _ up [unfolded row] this] ok r0
  have as: "assign users_columns r0 (as @ [(''updated_at'', JDate (h_now h))]) = Inr r"
    and r: "user_row d' uid = Some r" "\<forall>v. v \<noteq> uid \<longrightarrow> user_row d' v = user_row d v" "identities d' = identities d" "db_ok d'"
    by auto
  have "if f \<in> set (write_fields u) then storable h f (getf u f) \<and> field_value r f = stored h f (getf u f)
      else field_value r f = field_value r0 f" if f: "f \<in> set ALL_FIELDS" "f \<noteq> ''updatedAt''" for f
  proof (cases "f \<in> set (write_fields u)")
    case True
    with written_field [OF as w f(1)] written_storable [OF as w] show ?thesis by simp
  next
    case False
    have "field_col f \<noteq> ''updated_at''" using field_col_inj [OF f(1) JSONB_known(3)] f(2) JSONB_known(5) by auto
    with unwritten_field [OF as w f(1)] inj [OF f(1)] False show ?thesis by simp
  qed
  with u' row r show ?thesis by (simp add: row_written_def only_user_def)
qed

text \<open>The read-modify-write update of a row.\<close>

definition updated_field :: "update_doc \<Rightarrow> row \<Rightarrow> string \<Rightarrow> js" where
  "updated_field up r0 f = (case users_type (field_col f) of None \<Rightarrow> JUndef
     | Some ty \<Rightarrow> the (coerce ty (update_param f (val_of (updated_values up (rowToValues (star r0))) f))))"

lemma update_assigns_eq:
  "update_assigns vs fs = Inr as \<Longrightarrow> as = map (\<lambda>f. (field_col f, update_param f (val_of vs f))) (filter (\<lambda>f. f \<noteq> ''id'') fs)"
  by (induction fs arbitrary: as) (auto simp: field_col_def split: sum.splits if_splits)

lemma updated_row:
  assumes ok: "db_ok d" and r0: "user_row d uid = Some r0" and k: "set (changed_fields up) \<subseteq> set ALL_FIELDS - {''id'', ''updatedAt''}"
    and w: "update_assigns (updated_values up (rowToValues (star r0))) (changed_fields up) = Inr as"
    and u: "update_user (h_now h) (JStr uid) as (calm d) = (Inr row, d1)"
  shows "\<exists>r. row = Some r \<and> user_row d1 uid = Some r \<and> only_user uid d d1 \<and> db_ok d1 \<and> faults d1 = []
    \<and> (\<forall>f \<in> set ALL_FIELDS. f \<noteq> ''updatedAt'' \<longrightarrow>
         field_value r f = (if f \<in> set (changed_fields up) then updated_field up r0 f else field_value r0 f))"
proof -
  let ?vs = "updated_values up (rowToValues (star r0))"
  from u r0 obtain r where row: "row = Some r"
    by (auto simp: update_user_def query_ok find_user_id split: sum.splits option.splits if_splits)
  have fs: "filter (\<lambda>f. f \<noteq> ''id'') (changed_fields up) = changed_fields up" using k by (auto simp: filter_id_conv)
  note as_eq = update_assigns_eq [OF w, unfolded fs]
  have cols: "fst ` set as = field_col ` set (changed_fields up)" by (simp add: as_eq image_image)
  have inj: "field_col f \<in> field_col ` set (changed_fields up) \<longleftrightarrow> f \<in> set (changed_fields up)" if "f \<in> set ALL_FIELDS" for f
    using that k field_col_inj by blast
  have "''id'' \<notin> fst ` set as" using inj [of "''id''"] k JSONB_known(2,4) unfolding cols by auto
  from update_user_effect [OF _ u [unfolded row] this] ok r0
  have as: "assign users_columns r0 (as @ [(''updated_at'', JDate (h_now h))]) = Inr r"
    and r: "user_row d1 uid = Some r" "\<forall>v. v \<noteq> uid \<longrightarrow> user_row d1 v = user_row d v" "identities d1 = identities d"
      "db_ok d1" "faults d1 = []" by auto
  have "field_value r f = (if f \<in> set (changed_fields up) then updated_field up r0 f else field_value r0 f)"
    if f: "f \<in> set ALL_FIELDS" "f \<noteq> ''updatedAt''" for f
  proof -
    from field_type [OF f(1)] obtain ty where ty: "users_type (field_col f) = Some ty" by blast
    have ne: "field_col f \<noteq> ''updated_at''" using field_col_inj [OF f(1) JSONB_known(3)] f(2) JSONB_known(5) by auto
    from as have dist: "distinct (map fst (as @ [(''updated_at'', JDate (h_now h))]))" by (auto simp: assign_def split: if_splits)
    show ?thesis
    proof (cases "f \<in> set (changed_fields up)")
      case True
      then have "(field_col f, update_param f (val_of ?vs f)) \<in> set (as @ [(''updated_at'', JDate (h_now h))])"
        by (auto simp: as_eq)
      from map_of_is_SomeI [OF dist this] assign_value [OF as ty] True show ?thesis
        by (simp add: field_value_col [OF f(1)] updated_field_def ty)
    next
      case False
      with inj [OF f(1)] ne have "map_of (as @ [(''updated_at'', JDate (h_now h))]) (field_col f) = None"
        by (auto simp: map_of_eq_None_iff cols [symmetric])
      with assign_value [OF as ty] False show ?thesis by (simp only: field_value_col [OF f(1)]) simp
    qed
  qed
  with row r show ?thesis by (simp add: only_user_def)
qed

lemma applyUpdate_body: "applyUpdate h f up d = (Inr x, d') \<Longrightarrow> update_body h f up (calm d) = (Inr x, calm d')"
  by (drule calmedD [OF calmed_applyUpdate])
    (auto simp: applyUpdate_def thenE_def bindE_def catchE_def transaction_def raise_apply nop_ok split: prod.splits sum.splits)

lemma update_effect:
  assumes ok: "db_ok d" and s: "findByIdAndUpdate h (JStr uid) up d = (Inr x, d')" and r0: "user_row d uid = Some r0"
    and k: "set (changed_fields up) \<subseteq> set ALL_FIELDS - {''id'', ''updatedAt''}"
  shows "\<exists>r. x = Some (loaded (star r)) \<and> user_row d' uid = Some r \<and> only_user uid d d' \<and> db_ok d'
    \<and> (\<forall>f \<in> set ALL_FIELDS. f \<noteq> ''updatedAt'' \<longrightarrow>
         field_value r f = (if f \<in> set (changed_fields up) then updated_field up r0 f else field_value r0 f))"
proof -
  have sel: "select_users (h_regex h) [SEq ''id'' (Suc 0)] [JStr uid] (calm d) = (Inr (filter (\<lambda>r. r ''id'' = JStr uid) (users d)), calm d)"
    by (simp add: select_users_def query_ok selects_id)
  obtain rs where rs: "filter (\<lambda>r. r ''id'' = JStr uid) (users d) = r0 # rs"
    using r0 take_filter_find [of "\<lambda>r. r ''id'' = JStr uid" "users d"]
    by (cases "filter (\<lambda>r. r ''id'' = JStr uid) (users d)") (auto simp: user_row_def first_row_def)
  from user_row_Some [OF r0] have id0: "r0 ''id'' = JStr uid" by simp
  from applyUpdate_body [OF s [unfolded findByIdAndUpdate_def]]
  obtain as row d1 where w: "update_assigns (updated_values up (rowToValues (star r0))) (changed_fields up) = Inr as"
    and u: "update_user (h_now h) (JStr uid) as (calm d) = (Inr row, d1)"
    and x: "x = map_option (\<lambda>r. loaded (star r)) row" and d1: "nop d1 = (Inr (), calm d')"
    by (auto simp: update_body_def thenE_def bindE_def nop_ok by_id_where sel rs id0 ret_def raise_def
        simp del: buildWhere.simps split: sum.splits prod.splits)
  from updated_row [OF ok r0 k w u] x d1 show ?thesis by (auto simp: nop_ok only_user_def)
qed

text \<open>An update under any filter that can only select one account.\<close>

lemma update_one_effect:
  assumes ok: "db_ok d" and s: "findOneAndUpdate h f up d = (Inr (Some x), d')"
    and k: "set (changed_fields up) \<subseteq> set ALL_FIELDS - {''id'', ''updatedAt''}"
    and one: "\<And>cs ps r. buildWhere f [] = Inr (cs, ps) \<Longrightarrow> selects (h_regex h) cs ps r \<Longrightarrow> r ''id'' = JStr uid"
  shows "\<exists>r0 r. user_row d uid = Some r0 \<and> x = loaded (star r) \<and> user_row d' uid = Some r \<and> only_user uid d d' \<and> db_ok d'
    \<and> (\<forall>f \<in> set ALL_FIELDS. f \<noteq> ''updatedAt'' \<longrightarrow>
         field_value r f = (if f \<in> set (changed_fields up) then updated_field up r0 f else field_value r0 f))"
proof -
  from applyUpdate_body [OF s [unfolded findOneAndUpdate_def]] obtain cs ps r0 rs as row d1 where
      wh: "buildWhere f [] = Inr (cs, ps)" and rows: "filter (selects (h_regex h) cs ps) (users d) = r0 # rs"
    and w: "update_assigns (updated_values up (rowToValues (star r0))) (changed_fields up) = Inr as"
    and u: "update_user (h_now h) (r0 ''id'') as (calm d) = (Inr row, d1)"
    and x: "Some x = map_option (\<lambda>r. loaded (star r)) row" and d1: "nop d1 = (Inr (), calm d')"
    by (auto simp: update_body_def thenE_def bindE_def nop_ok select_users_def query_ok ret_def raise_def
        simp del: buildWhere.simps split: sum.splits prod.splits if_splits list.splits)
  from filter_eq_ConsD [OF rows] have mem: "r0 \<in> set (users d)" and sel: "selects (h_regex h) cs ps r0" by auto
  have id0: "r0 ''id'' = JStr uid" by (rule one [OF wh sel])
  from user_row_mem [OF ok mem] id0 have r0: "user_row d uid = Some r0" by auto
  from updated_row [OF ok r0 k w u [unfolded id0]] x d1 r0 show ?thesis by (auto simp: nop_ok only_user_def)
qed

section \<open>Lookups and synchronisation\<close>

lemma keeps_same_select: "keeps (same_tables d0) (select_identities re cs ps)" "keeps (same_tables d0) (select_users re cs ps)"
  by (auto simp: keeps_def select_identities_def select_users_def query_def same_tables_def split: list.splits if_splits)

lemma keeps_same_findOne: "keeps (same_tables d0) (identity_findOne h f)"
  unfolding identity_findOne_def by (auto split: sum.splits intro!: keeps_bindE keeps_same_select)

lemma keeps_same_resolve: "keeps (same_tables d0) (resolve_kinds h email ks)"
  by (induction h email ks rule: resolve_kinds.induct) (auto intro!: keeps_bindE keeps_same_findOne split: option.splits)

lemma lookup_same:
  "resolveEmailIdentity h email d = (x, d') \<Longrightarrow> same_tables d d'"
  "findUserIdByPrimaryEmail h email d = (y, d') \<Longrightarrow> same_tables d d'"
  "findPendingMigrationHolder h email d = (z, d') \<Longrightarrow> same_tables d d'"
  "findUserIdByOAuth h p pid d = (o', d') \<Longrightarrow> same_tables d d'"
proof -
  have r: "same_tables d d" by (simp add: same_tables_def)
  have k: "keeps (same_tables d) (resolveEmailIdentity h email)" "keeps (same_tables d) (findUserIdByPrimaryEmail h email)"
    "keeps (same_tables d) (findPendingMigrationHolder h email)" "keeps (same_tables d) (findUserIdByOAuth h p pid)"
    unfolding resolveEmailIdentity_def findUserIdByPrimaryEmail_def findPendingMigrationHolder_def findUserIdByOAuth_def
    by (intro keeps_same_resolve keeps_bindE keeps_same_findOne keeps_ret)+
  show "resolveEmailIdentity h email d = (x, d') \<Longrightarrow> same_tables d d'"
    "findUserIdByPrimaryEmail h email d = (y, d') \<Longrightarrow> same_tables d d'"
    "findPendingMigrationHolder h email d = (z, d') \<Longrightarrow> same_tables d d'"
    "findUserIdByOAuth h p pid d = (o', d') \<Longrightarrow> same_tables d d'"
    using k [THEN keepsD, OF r] by blast+
qed

lemma keeps_users_identities:
  "keeps (\<lambda>d. users d = us) (select_identities re cs ps)" "keeps (\<lambda>d. users d = us) (insert_identity now as)"
  "keeps (\<lambda>d. users d = us) (update_identity now key as)" "keeps (\<lambda>d. users d = us) (delete_identities P)"
  "keeps (\<lambda>d. users d = us) (query (raise e))"
  by (auto simp: keeps_def select_identities_def insert_identity_def update_identity_def delete_identities_def query_def
      raise_apply split: list.splits sum.splits option.splits)

lemma keeps_users_upsert: "keeps (\<lambda>d. users d = us) (upsert_key h k s uns)"
  unfolding upsert_key_def identity_updateOne_def Let_def
  by (auto intro!: keeps_bindE keeps_thenE keeps_users_identities split: sum.splits option.splits)

lemma keeps_users_deleteMany: "keeps (\<lambda>d. users d = us) (identity_deleteMany h f)"
  unfolding identity_deleteMany_def by (auto intro!: keeps_users_identities split: sum.splits)

lemma sync_users: "syncIdentityIndexesFromUser h u d = (x, d') \<Longrightarrow> users d' = users d"
proof -
  have "keeps (\<lambda>d'. users d' = users d) (syncIdentityIndexesFromUser h u)"
    unfolding syncIdentityIndexesFromUser_def only_if_def Let_def
    by (auto intro!: keeps_bindE keeps_thenE keeps_users_upsert keeps_users_deleteMany)
  from keepsD [OF this] show "syncIdentityIndexesFromUser h u d = (x, d') \<Longrightarrow> users d' = users d" by blast
qed

lemma sync_row_same: "syncIdentityIndexesFromUser h u d = (x, d') \<Longrightarrow> user_row d' uid = user_row d uid"
  by (simp add: user_row_def sync_users)

text \<open>A document loaded with a projection shows the row on the fields of the projection.\<close>

lemma getf_projected:
  "known p \<Longrightarrow> f \<in> set (resolveFields p) \<Longrightarrow> getf (loaded (project (columns_of p) r)) f = field_value r f"
  using getf_found [of p f r] by (auto simp: known_def)

lemma getf_id_field: "getf u ''_id'' = getf u ''id''"
  by (simp add: getf_def)

lemma id_projected: "known p \<Longrightarrow> ''id'' \<in> set (resolveFields p) \<Longrightarrow> getf (loaded (project (columns_of p) r)) ''id'' = r ''id''"
  using getf_projected [of p "''id''" r] JSONB_known(2,4) by (simp add: field_value_col)

end
