(* ===== verification/Handler_Logic.thy ===== *)
theory Handler_Logic
  imports Sessions Mailer Store_Effects
begin

text \<open>
  Reasoning about handlers: rules that take a handler apart when it answers, and rules that carry
  a property of the database through it.
\<close>

section \<open>Taking answers apart\<close>

named_theorems handler_simps "what an answer of a handler says about its steps"

lemma or_500_answer [handler_simps]:
  "n \<noteq> 500 \<Longrightarrow> or_500 msg m w = (Inr (Respond n b), w') \<longleftrightarrow> m w = (Inr (Respond n b), w')"
  by (auto simp: or_500_def catchE_def status_json_def ret_apply split: prod.splits sum.splits)

lemma or_500_next [handler_simps]: "or_500 msg m w = (Inr (Next rq), w') \<longleftrightarrow> m w = (Inr (Next rq), w')"
  by (auto simp: or_500_def catchE_def status_json_def ret_apply split: prod.splits sum.splits)

lemma bindR_answer [handler_simps]:
  "bindR m f w = (Inr out, w') \<longleftrightarrow>
     m w = (Inr (Inl out), w') \<or> (\<exists>a w1. m w = (Inr (Inr a), w1) \<and> f a w1 = (Inr out, w'))"
  by (cases "m w") (auto simp: bindR_def bindE_def ret_apply split: sum.splits)

lemma answer_Inr [handler_simps]: "answer n kvs w = (Inr x, w') \<longleftrightarrow> x = Inl (Respond n (JObj kvs)) \<and> w' = w"
  by (auto simp: answer_def ret_apply)

lemma status_json_Inr [handler_simps]: "status_json n kvs w = (Inr x, w') \<longleftrightarrow> x = Respond n (JObj kvs) \<and> w' = w"
  and json_Inr [handler_simps]: "json kvs w = (Inr x, w') \<longleftrightarrow> x = Respond 200 (JObj kvs) \<and> w' = w"
  and ret_Inr [handler_simps]: "ret a w = (Inr y, w') \<longleftrightarrow> y = a \<and> w' = w"
  and raise_Inr [handler_simps]: "raise e w \<noteq> (Inr z, w')"
  by (auto simp: status_json_def json_def ret_apply raise_apply)

lemma thenE_eq_Inr [handler_simps]: "thenE m n w = (Inr b, w2) \<longleftrightarrow> (\<exists>w1. m w = (Inr (), w1) \<and> n w1 = (Inr b, w2))"
  by (simp add: thenE_def bindE_eq_Inr)

lemma on_db_eq_Inr [handler_simps]: "on_db m w = (Inr a, w') \<longleftrightarrow> (\<exists>d. m (database w) = (Inr a, d) \<and> w' = w\<lparr>database := d\<rparr>)"
  by (auto simp: on_db_def split: prod.splits)

lemma field_of_Inr [handler_simps]: "field_of v f w = (Inr x, w') \<longleftrightarrow> \<not> nullish v \<and> x = js_get v f \<and> w' = w"
  and lower_of_Inr [handler_simps]: "lower_of v w = (Inr y, w') \<longleftrightarrow> (\<exists>s. v = JStr s \<and> y = toLowerCase s) \<and> w' = w"
  and str_of_Inr [handler_simps]: "str_of v w = (Inr z, w') \<longleftrightarrow> v = JStr z \<and> w' = w"
  by (auto simp: field_of_def lower_of_def str_of_def ret_apply raise_apply split: js.splits)

lemma total_act_Inr [handler_simps]: "total_act f w = (Inr a, w') \<longleftrightarrow> f w = (a, w')"
  by (auto simp: total_act_def split: prod.splits)

declare bindE_eq_Inr [handler_simps]

section \<open>The database through a handler\<close>

text \<open>A predicate of the database that a computation in the exchange keeps.\<close>

abbreviation keeps_db :: "(db \<Rightarrow> bool) \<Rightarrow> (('r, 'z) world_scheme, 'a) act \<Rightarrow> bool" where
  "keeps_db P m \<equiv> keeps (\<lambda>w. P (database w)) m"

named_theorems keeps_rules "introduction rules for kept predicates"

declare keeps_ret [keeps_rules] keeps_raise [keeps_rules] keeps_gets [keeps_rules]
  keeps_bindE [keeps_rules] keeps_thenE [keeps_rules] keeps_catchE [keeps_rules]

lemma keeps_if [keeps_rules]: "(b \<Longrightarrow> keeps P m) \<Longrightarrow> (\<not> b \<Longrightarrow> keeps P n) \<Longrightarrow> keeps P (if b then m else n)"
  and keeps_case_option [keeps_rules]: "keeps P m \<Longrightarrow> (\<And>a. keeps P (f a)) \<Longrightarrow> keeps P (case x of None \<Rightarrow> m | Some a \<Rightarrow> f a)"
  and keeps_case_sum [keeps_rules]: "(\<And>a. keeps P (g a)) \<Longrightarrow> (\<And>a. keeps P (k a)) \<Longrightarrow> keeps P (case s of Inl a \<Rightarrow> g a | Inr b \<Rightarrow> k b)"
  and keeps_case_prod [keeps_rules]: "(\<And>a b. keeps P (q a b)) \<Longrightarrow> keeps P (case p of (a, b) \<Rightarrow> q a b)"
  and keeps_case_list [keeps_rules]: "keeps P m \<Longrightarrow> (\<And>a as. keeps P (l a as)) \<Longrightarrow> keeps P (case xs of [] \<Rightarrow> m | a # as \<Rightarrow> l a as)"
  and keeps_Let [keeps_rules]: "(\<And>a. keeps P (f a)) \<Longrightarrow> keeps P (Let v f)"
  by (cases b; cases x; cases s; cases p; cases xs; simp add: Let_def)+

lemma keeps_case_js [keeps_rules]:
  "keeps P a \<Longrightarrow> keeps P b \<Longrightarrow> (\<And>x. keeps P (c x)) \<Longrightarrow> (\<And>x. keeps P (d x)) \<Longrightarrow> (\<And>x. keeps P (e x)) \<Longrightarrow>
     (\<And>x. keeps P (f x)) \<Longrightarrow> (\<And>x. keeps P (g x)) \<Longrightarrow> (\<And>x. keeps P (i x)) \<Longrightarrow> keeps P (case_js a b c d e f g i v)"
  by (cases v) simp_all

lemma keeps_case_exn [keeps_rules]:
  "(\<And>x. keeps P (a x)) \<Longrightarrow> (\<And>x y. keeps P (b x y)) \<Longrightarrow> (\<And>x. keeps P (c x)) \<Longrightarrow> keeps P d \<Longrightarrow> (\<And>x. keeps P (e x))
    \<Longrightarrow> keeps P (case_exn a b c d e v)"
  by (cases v) simp_all

lemma keeps_or_500 [keeps_rules]: "keeps P m \<Longrightarrow> keeps P (or_500 msg m)"
  and keeps_status_json [keeps_rules]: "keeps P (status_json n kvs)"
  and keeps_json [keeps_rules]: "keeps P (json kvs)"
  and keeps_answer [keeps_rules]: "keeps P (answer n kvs)"
  and keeps_field_of [keeps_rules]: "keeps P (field_of v f)"
  and keeps_lower_of [keeps_rules]: "keeps P (lower_of v)"
  and keeps_str_of [keeps_rules]: "keeps P (str_of v)"
  unfolding or_500_def status_json_def json_def answer_def field_of_def lower_of_def str_of_def
  by (intro keeps_rules | assumption)+

lemma keeps_bindR [keeps_rules]: "keeps P m \<Longrightarrow> (\<And>a. keeps P (f a)) \<Longrightarrow> keeps P (bindR m f)"
  unfolding bindR_def by (intro keeps_rules)

lemma snd_total_act [simp]: "snd (total_act f w) = snd (f w)"
  by (simp add: total_act_def split: prod.splits)

lemma keeps_total_act: "(\<And>w. database (snd (f w)) = database w) \<Longrightarrow> keeps_db P (total_act f)"
  by (simp add: keeps_def snd_total_act)

lemma keeps_plain: "(\<And>w. database (snd (m w)) = database w) \<Longrightarrow> keeps_db P m"
  by (simp add: keeps_def)

declare keeps_on_db [keeps_rules]

text \<open>Redis, the one-time codes, mails, posts and cookies leave the tables alone.\<close>

lemma database_cache [simp]:
  "database (cacheSet ex now rnd k v n w) = database w" "database (cacheDel ex now rnd k w) = database w"
  "database (snd (cacheGet ex now rnd k w)) = database w"
  by (rule cacheSet_frame [of ex now rnd k v n w], simp) (rule cacheDel_frame [of ex now rnd k w], simp,
    rule cacheGet_frame [of ex now rnd k w], simp)

lemma database_fetch [simp]: "database (snd (fetch_and_delete ex now rnd k w)) = database w"
proof -
  obtain v w' where g: "cacheGet ex now rnd k w = (v, w')" by fastforce
  with database_cache(3) [of ex now rnd k w] show ?thesis
    by (simp add: fetch_and_delete_def split: option.splits)
qed

lemma keeps_publish [keeps_rules]: "keeps_db P (publishTokenVersion h uid v)"
  by (rule keeps_plain) (simp add: publishTokenVersion_def Let_def case_prod_unfold)

lemma keeps_send_post [keeps_rules]: "keeps_db P (send_post h p)"
  by (rule keeps_plain) (simp add: send_post_def thenE_def bindE_def act_simps)

lemma keeps_mail [keeps_rules]: "keeps_db P (sendEmail h m)"
  by (rule keeps_sendEmail) simp

lemma keeps_link_code [keeps_rules]: "keeps_db P (link_code h code kind secret meta)"
  by (rule keeps_plain) (simp add: link_code_def createEmailLinkCode_def Let_def pruneMemoryLinks_def)

lemma keeps_account_mails [keeps_rules]:
  "keeps_db P (sendVerificationEmail h code email token)" "keeps_db P (sendPasswordResetEmail h code email token)"
  unfolding sendVerificationEmail_def sendPasswordResetEmail_def by (intro keeps_rules)+

lemma keeps_cookies [keeps_rules]:
  "keeps_db P (setAuthCookies h csrf tok)" "keeps_db P (clearAuthCookies h)" "keeps_db P (issueCsrfCookie h csrf rq)"
  unfolding setAuthCookies_def clearAuthCookies_def issueCsrfCookie_def res_cookie_def res_clearCookie_def
  by (intro keeps_rules keeps_modify | simp)+

lemma keeps_revocations [keeps_rules]:
  "keeps_db P (revokeAccessToken h nonce t)" "keeps_db P (revokeByJti h nonce j n)"
  unfolding revokeAccessToken_def revokeByJti_def by (intro keeps_rules)+

lemma keeps_revoke_all [keeps_rules]: "keeps_db P (revokeAllTrackedAccessJtis h nonces js)"
proof -
  have "keeps_db P (revoke_all h nonces n xs)" for n xs
    by (induction xs arbitrary: n) (auto intro!: keeps_rules)
  then show ?thesis by (simp add: revokeAllTrackedAccessJtis_def)
qed

text \<open>The one-time codes as total steps of a handler.\<close>

lemma keeps_codes [keeps_rules]:
  "keeps_db P (total_act (consumeFormToken ex now rnd tok kind))"
  "keeps_db P (total_act (redeemEmailLinkCode ex now rnd tok c))"
  "keeps_db P (total_act (resolveVerificationPollToken ex now rnd tok))"
  "keeps_db P (total_act (peekOAuthStateRedirectUri ex now rnd st))"
  "keeps_db P (total_act (consumeOAuthState sha ex now rnd st cv))"
  "keeps_db P (total_act (consumeOAuthExchangeCode ex now rnd c st))"
  "keeps_db P (createVerificationPollToken cfg ex now rnd tok userId)"
  "keeps_db P (createOAuthState cfg ex now rnd st cc ru)"
  "keeps_db P (createOAuthExchangeCode cfg ex now rnd c t1 t2 st)"
  by (rule keeps_total_act keeps_plain; 
      simp add: consumeFormToken_def redeemEmailLinkCode_def resolveVerificationPollToken_def peekOAuthStateRedirectUri_def
        consumeOAuthState_def consumeOAuthExchangeCode_def createVerificationPollToken_def createOAuthState_def
        createOAuthExchangeCode_def pruneMemoryForms_def pruneMemoryPolls_def pruneMemoryStates_def pruneMemoryCodes_def
        take_entry_def case_prod_unfold Let_def split: option.splits)+

text \<open>The tables' constraints through the user model, the index and the sessions.\<close>

declare keeps_user_model [keeps_rules] keeps_statements [keeps_rules]


declare keeps_upsert_key [keeps_rules] keeps_identity_deleteMany [keeps_rules]

lemma keeps_identity_findOne [keeps_rules]: "keeps db_ok (identity_findOne h f)"
  unfolding identity_findOne_def by (intro keeps_rules)

lemma keeps_resolve_kinds [keeps_rules]: "keeps db_ok (resolve_kinds h email ks)"
  by (induction h email ks rule: resolve_kinds.induct) (auto intro!: keeps_rules)

lemma keeps_index [keeps_rules]:
  "keeps db_ok (resolveEmailIdentity h email)" "keeps db_ok (findUserIdByPrimaryEmail h email)"
  "keeps db_ok (findPendingMigrationHolder h email)" "keeps db_ok (findUserIdByOAuth h p pid)"
  "keeps db_ok (releaseUserIdentityIndexes h uid)" "keeps db_ok (releasePrimaryEmail h email)"
  "keeps db_ok (clearPendingMigration h email)" "keeps db_ok (clearPreviousEmail h email)"
  unfolding resolveEmailIdentity_def findUserIdByPrimaryEmail_def findPendingMigrationHolder_def findUserIdByOAuth_def
    releaseUserIdentityIndexes_def releasePrimaryEmail_def clearPendingMigration_def clearPreviousEmail_def identity_deleteOne_def
  by (intro keeps_rules)+

lemma keeps_sync [keeps_rules]: "keeps db_ok (syncIdentityIndexesFromUser h u)"
  unfolding syncIdentityIndexesFromUser_def only_if_def by (intro keeps_rules)

lemma keeps_updates [keeps_rules]: "keeps db_ok (findByIdAndUpdate h uid up)" "keeps db_ok (findOneAndUpdate h f up)"
  "keeps db_ok (create h uuid data)"
  unfolding findByIdAndUpdate_def findOneAndUpdate_def create_def by (intro keeps_rules)+

lemma keeps_sessions [keeps_rules]:
  "keeps_db db_ok (invalidateAllSessions h nonces uid)" "keeps_db db_ok (rotateSessionTokens h uid old a r v)"
  "keeps_db db_ok (persistSessionTokens h uid a r v)" "keeps_db db_ok (removeRefreshToken h uid r)"
  unfolding invalidateAllSessions_def rotateSessionTokens_def persistSessionTokens_def removeRefreshToken_def
  by (intro keeps_rules)+

lemma keeps_middleware [keeps_rules]:
  "keeps_db db_ok (authenticate h rq)" "keeps_db db_ok (optionalAuth h rq)" "keeps_db db_ok (requireVerifiedEmail rq)"
  "keeps_db db_ok (requireCsrf h rq)" "keeps_db db_ok (getCsrfToken h rq)"
  unfolding authenticate_def optionalAuth_def requireVerifiedEmail_def requireCsrf_def getCsrfToken_def
  by (intro keeps_rules)+

end
