(* ===== verification/Auth_Controller.thy ===== *)
theory Auth_Controller
  imports Handler_Logic Limit_Stores
begin

text \<open>
  The handlers of \<open>controllers/auth.controller.ts\<close> and \<open>controllers/profile.controller.ts\<close>. A
  handler runs in the exchange (the shared state and the cookies of the response) and ends with an
  outcome; each draws its random values by position from the host. Log lines are left out, and
  the dashes of the messages are plain hyphens.
\<close>

section \<open>Shared pieces\<close>

definition issueSessionCookies :: "'r host \<Rightarrow> string \<Rightarrow> string \<Rightarrow> ('r exchange, unit) act" where
  "issueSessionCookies h csrf refreshToken = setAuthCookies h csrf refreshToken"

text \<open>A user that an optional id leads to.\<close>

definition find_optional :: "'r host \<Rightarrow> js option \<Rightarrow> string option \<Rightarrow> ('r exchange, user option) act" where
  "find_optional h userId projection = (case userId of
      None \<Rightarrow> ret None
    | Some i \<Rightarrow> if truthy i then on_db (findById h i projection) else ret None)"

definition user_fields :: "user \<Rightarrow> js" where
  "user_fields u = JObj (map (\<lambda>f. (if f = ''_id'' then ''id'' else f, getf u f))
     [''_id'', ''email'', ''displayName'', ''avatar'', ''bio'', ''isEmailVerified''])"

definition profile_fields :: "user \<Rightarrow> js" where
  "profile_fields u = JObj (map (\<lambda>f. (if f = ''_id'' then ''id'' else f, getf u f))
     [''_id'', ''email'', ''displayName'', ''avatar'', ''bio'', ''isEmailVerified'', ''provider'', ''previousEmail'', ''createdAt''])"

text \<open>A session for a user: the token pair, its record, and the cookies.\<close>

definition open_session :: "'r host \<Rightarrow> user \<Rightarrow> ('r exchange, string \<times> string) act" where
  "open_session h u =
     (case generateTokenPair h (h_fresh h 3) (h_fresh h 4) u of
        (accessToken, refreshToken) \<Rightarrow>
          thenE (persistSessionTokens h (getf u ''_id'') accessToken refreshToken (version_of u))
            (thenE (issueSessionCookies h (h_fresh h 5) refreshToken) (ret (accessToken, refreshToken))))"

definition token_fields :: "'r host \<Rightarrow> string \<times> string \<Rightarrow> (string \<times> js) list" where
  "token_fields h tokens = publicTokenFields h (JStr (fst tokens)) (JStr (snd tokens))"

definition set_fields :: "(string \<times> js) list \<Rightarrow> user \<Rightarrow> user" where
  "set_fields kvs u = fold (\<lambda>(f, v) u. setf u f v) kvs u"

section \<open>Checks and polls\<close>

definition checkEmailAvailability :: "('r exchange, outcome) act" where
  "checkEmailAvailability =
     json [(''available'', JBool True), (''message'', JStr ''Continue if this is your email address'')]"

definition getVerificationStatus :: "('r exchange, outcome) act" where
  "getVerificationStatus = json [(''success'', JBool True), (''verified'', JBool False)]"

definition resolve_poll :: "'r host \<Rightarrow> js \<Rightarrow> ('r exchange, string option) act" where
  "resolve_poll h tok = (case tok of
      JStr s \<Rightarrow> total_act (resolveVerificationPollToken (h_redis h) (h_now h) (h_rnd h) s)
    | _ \<Rightarrow> raise type_error)"

definition postVerificationStatus :: "'r host \<Rightarrow> request \<Rightarrow> ('r exchange, outcome) act" where
  "postVerificationStatus h rq = or_500 ''Server error''
     (bindE (field_of (rq_body rq) ''pollToken'') (\<lambda>pollToken.
        if \<not> truthy pollToken then status_json 400 (failed ''pollToken is required'')
        else bindE (resolve_poll h pollToken) (\<lambda>userId. case or_undef userId of
           None \<Rightarrow> json [(''success'', JBool True), (''verified'', JBool False)]
         | Some i \<Rightarrow>
             bindE (on_db (findOne_lean h (by_id (JStr i)) (Some ''isEmailVerified''))) (\<lambda>found.
               json [(''success'', JBool True),
                     (''verified'', JBool (case found of None \<Rightarrow> False | Some v \<Rightarrow> val_of v ''isEmailVerified'' = JBool True))]))))"

section \<open>Registration\<close>

definition DAY :: ms where "DAY = 24 * 60 * 60 * 1000"

text \<open>The user to write: an unverified account under the address, or a new document.\<close>

definition register_subject :: "'r host \<Rightarrow> string \<Rightarrow> js \<Rightarrow> js \<Rightarrow> ('r exchange, outcome + user) act" where
  "register_subject h lowerEmail password displayName =
     bindE (on_db (findUserIdByPrimaryEmail h lowerEmail)) (\<lambda>existingUserId.
     bindE (find_optional h existingUserId None) (\<lambda>found. case found of
        Some u \<Rightarrow>
          if truthy (getf u ''isEmailVerified'') then answer 400 (failed ''Email already registered'')
          else ret (Inr (set_fields [(''password'', password), (''displayName'', displayName), (''provider'', JStr ''local'')] u))
      | None \<Rightarrow>
          ret (Inr (new_User [(''email'', JStr lowerEmail), (''password'', password), (''displayName'', displayName),
             (''provider'', JStr ''local'')] True))))"

definition verification_fields :: "'r host \<Rightarrow> string \<Rightarrow> user \<Rightarrow> user" where
  "verification_fields h verificationToken u =
     (let u1 = set_fields [(''emailVerificationToken'', JStr (h_sha256 h verificationToken)),
                 (''emailVerificationExpires'', JDate (h_now h + DAY)), (''isEmailVerified'', JBool False)] u
      in if autoVerifyEmail (h_config h)
         then set_fields [(''isEmailVerified'', JBool True), (''emailVerificationToken'', JUndef),
                (''emailVerificationExpires'', JUndef)] u1
         else u1)"

definition register_finish :: "'r host \<Rightarrow> string \<Rightarrow> string \<Rightarrow> user \<Rightarrow> ('r exchange, outcome) act" where
  "register_finish h lowerEmail verificationToken u =
     (if autoVerifyEmail (h_config h)
      then bindE (open_session h u) (\<lambda>tokens.
             status_json 201 (succeeded ''Registration successful'' @ token_fields h tokens @ [(''user'', user_fields u)]))
      else thenE (catchE (sendVerificationEmail h (h_fresh h 2) lowerEmail verificationToken) (\<lambda>_. ret ()))
             (bindE (createVerificationPollToken (h_config h) (h_redis h) (h_now h) (h_rnd h) (h_fresh h 6)
                (js_String (getf u ''_id''))) (\<lambda>pollToken.
                status_json 201 (succeeded ''Registration successful. Please check your email to verify your account.''
                  @ [(''verificationPollToken'', JStr pollToken), (''user'', user_fields u)]))))"

definition register :: "'r host \<Rightarrow> request \<Rightarrow> ('r exchange, outcome) act" where
  "register h rq = catchE
     (bindE (field_of (rq_body rq) ''email'') (\<lambda>email.
      bindE (lower_of email) (\<lambda>lowerEmail.
      bindE (on_db (findPendingMigrationHolder h lowerEmail)) (\<lambda>holder.
        if (case holder of None \<Rightarrow> False | Some i \<Rightarrow> truthy i)
        then status_json 400 (failed ''This email is pending migration from another account. Please complete the migration process first.''
               @ [(''code'', JStr ''PENDING_MIGRATION''), (''requiresMigration'', JBool True)])
        else bindR (register_subject h lowerEmail (js_get (rq_body rq) ''password'') (js_get (rq_body rq) ''displayName'')) (\<lambda>u0.
             let verificationToken = h_fresh h 1
             in bindE (on_db (save h (h_fresh h 0) (verification_fields h verificationToken u0))) (\<lambda>u.
                thenE (on_db (syncIdentityIndexesFromUser h u))
                  (register_finish h lowerEmail verificationToken u)))))))
     (\<lambda>e. case e of
        UniqueViolation f v \<Rightarrow> status_json 400 (failed ''Email already registered'')
      | _ \<Rightarrow> status_json 500 (failed ''Registration failed''))"

section \<open>Login\<close>

definition login_projection :: string where
  "login_projection = ''+password +refreshTokens +loginCount +lastLogin +bio +avatar +displayName +provider +providerId +previousEmail +migrationExpiry +newEmailPending +currentEmailVerified +newEmailVerified''"

definition fresh_projection :: string where
  "fresh_projection = ''+bio +avatar +displayName +provider +providerId +previousEmail +migrationExpiry +createdAt''"

text \<open>A login under the pending address of a fully verified migration finalises the migration.\<close>

definition finalized_user :: "'r host \<Rightarrow> user \<Rightarrow> user" where
  "finalized_user h u = set_fields
     [(''previousEmail'', getf u ''email''), (''email'', getf u ''newEmailPending''),
      (''migrationExpiry'', JDate (h_now h + 5 * DAY)), (''lastMigrationDate'', JDate (h_now h)),
      (''isEmailVerified'', JBool True), (''newEmailPending'', JUndef), (''currentEmailVerified'', JUndef),
      (''newEmailVerified'', JUndef), (''currentEmailToken'', JUndef), (''newEmailToken'', JUndef)] u"

definition login_pending :: "'r host \<Rightarrow> string \<Rightarrow> user \<Rightarrow> ('r exchange, outcome + user) act" where
  "login_pending h lowerEmail u =
     (if getf u ''newEmailPending'' \<noteq> JStr lowerEmail then ret (Inr u)
      else if truthy (getf u ''currentEmailVerified'') \<and> truthy (getf u ''newEmailVerified'') then
        (if \<not> truthy (getf u ''newEmailPending'') then answer 500 (failed ''Migration state invalid'')
         else bindE (on_db (save h [] (finalized_user h u))) (\<lambda>u'.
                thenE (on_db (syncIdentityIndexesFromUser h u')) (ret (Inr u'))))
      else answer 403 (failed ''Please verify both email addresses before logging in with the new email.''))"

definition before :: "js \<Rightarrow> ms \<Rightarrow> bool" where
  "before v now = (case v of JDate t \<Rightarrow> t < now | _ \<Rightarrow> False)"

definition after :: "js \<Rightarrow> ms \<Rightarrow> bool" where
  "after v now = (case v of JDate t \<Rightarrow> now < t | _ \<Rightarrow> False)"

definition auth_failed :: "(string \<times> js) list" where
  "auth_failed = failed ''Invalid email or password'' @ [(''code'', JStr ''AUTH_FAILED'')]"

text \<open>The account is local, the password matches and the address is verified.\<close>

definition login_checks :: "'r host \<Rightarrow> string \<Rightarrow> js \<Rightarrow> user \<Rightarrow> ('r exchange, outcome + user) act" where
  "login_checks h lowerEmail password u =
     (if getf u ''previousEmail'' = JStr lowerEmail \<and> before (getf u ''migrationExpiry'') (h_now h)
      then answer 403 (failed ''This email is no longer valid for this account. Please use your new email address.'')
      else if getf u ''provider'' \<noteq> JStr ''local'' then answer 401 auth_failed
      else bindE (case password of JStr p \<Rightarrow> on_db (comparePassword h [] p u) | _ \<Rightarrow> raise type_error) (\<lambda>(isMatch, u').
             if \<not> isMatch then answer 401 (failed ''Invalid email or password'')
             else if \<not> truthy (getf u' ''isEmailVerified'') then answer 401 auth_failed
             else ret (Inr u')))"

text \<open>\<open>new Date(t).setHours(0, 0, 0, 0)\<close>.\<close>

definition midnight :: "'r host \<Rightarrow> ms \<Rightarrow> ms" where
  "midnight h t = (t + h_tz h) div DAY * DAY - h_tz h"

definition login_count :: "'r host \<Rightarrow> user \<Rightarrow> ('r exchange, outcome + user) act" where
  "login_count h u =
     (let today = midnight h (h_now h);
          lastLoginDate = (case getf u ''lastLogin'' of JDate t \<Rightarrow> midnight h t | _ \<Rightarrow> 0);
          n = num_or (getf u ''loginCount'') 0
      in if lastLoginDate = today
         then (if int (maxDailyLogins login_config) \<le> n
               then answer 429 (failed ''Daily login limit exceeded. Please try again tomorrow.'')
               else ret (Inr (set_fields [(''loginCount'', JNum (n + 1)), (''lastLogin'', JDate (h_now h))] u)))
         else ret (Inr (set_fields [(''loginCount'', JNum 1), (''lastLogin'', JDate (h_now h))] u)))"

definition login_finish :: "'r host \<Rightarrow> user \<Rightarrow> ('r exchange, outcome) act" where
  "login_finish h u =
     bindE (open_session h u) (\<lambda>tokens.
     bindE (on_db (findById h (getf u ''_id'') (Some fresh_projection))) (\<lambda>found. case found of
        None \<Rightarrow> status_json 500 (failed ''Failed to load user data'')
      | Some freshUser \<Rightarrow>
          json (succeeded ''Login successful'' @ [(''user'', profile_fields freshUser)] @ token_fields h tokens)))"

definition login :: "'r host \<Rightarrow> request \<Rightarrow> ('r exchange, outcome) act" where
  "login h rq = or_500 ''Login failed''
     (bindE (field_of (rq_body rq) ''email'') (\<lambda>email.
      bindE (lower_of email) (\<lambda>lowerEmail.
      bindE (on_db (resolveEmailIdentity h lowerEmail)) (\<lambda>resolved.
      bindE (case resolved of None \<Rightarrow> ret None | Some i \<Rightarrow> on_db (findById h (ri_userId i) (Some login_projection))) (\<lambda>found.
        case found of
          None \<Rightarrow> status_json 401 (failed ''Invalid email or password'')
        | Some u0 \<Rightarrow>
            bindR (login_pending h lowerEmail u0) (\<lambda>u1.
            bindR (login_checks h lowerEmail (js_get (rq_body rq) ''password'') u1) (\<lambda>u2.
            bindR (login_count h u2) (login_finish h))))))))"


section \<open>Verification of the address\<close>

definition generic_resend :: "(string \<times> js) list" where
  "generic_resend = succeeded ''If the account exists and is unverified, a verification email has been sent''"

definition resendVerification :: "'r host \<Rightarrow> request \<Rightarrow> ('r exchange, outcome) act" where
  "resendVerification h rq = or_500 ''Server error''
     (bindE (field_of (rq_body rq) ''email'') (\<lambda>email.
      bindE (lower_of email) (\<lambda>lowerEmail.
      bindE (on_db (findUserIdByPrimaryEmail h lowerEmail)) (\<lambda>userId.
      bindE (find_optional h userId None) (\<lambda>found. case found of
         None \<Rightarrow> json generic_resend
       | Some u \<Rightarrow>
           if truthy (getf u ''isEmailVerified'') \<or> getf u ''provider'' \<noteq> JStr ''local'' then json generic_resend
           else bindE (on_db (save h [] (set_fields
                  [(''emailVerificationToken'', JStr (h_sha256 h (h_fresh h 1))),
                   (''emailVerificationExpires'', JDate (h_now h + DAY))] u))) (\<lambda>_.
                thenE (catchE (sendVerificationEmail h (h_fresh h 2) lowerEmail (h_fresh h 1)) (\<lambda>_. ret ()))
                  (json generic_resend)))))))"

text \<open>A form token is redeemed for the secret of the mail; its digest finds the account.\<close>

definition redeem_form :: "'r host \<Rightarrow> js \<Rightarrow> EmailLinkKind \<Rightarrow> ('r exchange, form_content option) act" where
  "redeem_form h formToken kind =
     bindE (str_of formToken) (\<lambda>s. total_act (consumeFormToken (h_redis h) (h_now h) (h_rnd h) s kind))"

definition verification_filter :: "'r host \<Rightarrow> js \<Rightarrow> filt" where
  "verification_filter h secret =
     [(''emailVerificationToken'', FScalar (JStr (h_sha256 h (js_String secret)))),
      (''emailVerificationExpires'', FOps [(''$gt'', FScalar (JDate (h_now h)))]),
      (''provider'', FScalar (JStr ''local''))]"

definition verifyEmail :: "'r host \<Rightarrow> request \<Rightarrow> ('r exchange, outcome) act" where
  "verifyEmail h rq = or_500 ''Email verification failed''
     (bindE (field_of (rq_body rq) ''formToken'') (\<lambda>formToken.
      bindE (redeem_form h formToken VerifyEmail) (\<lambda>redeemed. case redeemed of
         None \<Rightarrow> status_json 400 (failed ''Invalid or expired verification session'')
       | Some form \<Rightarrow>
           bindE (on_db (findOne h (verification_filter h (fc_secret form)) (Some ''+refreshTokens +password''))) (\<lambda>found. case found of
              None \<Rightarrow> status_json 400 (failed ''Invalid or expired verification token'')
            | Some u0 \<Rightarrow>
                bindE (on_db (save h [] (set_fields
                    [(''password'', js_get (rq_body rq) ''password''), (''isEmailVerified'', JBool True),
                     (''emailVerificationToken'', JUndef), (''emailVerificationExpires'', JUndef)] u0))) (\<lambda>u.
                thenE (on_db (syncIdentityIndexesFromUser h u))
                  (bindE (open_session h u) (\<lambda>tokens.
                     json (succeeded ''Email verified successfully'' @ [(''user'', user_fields u)] @ token_fields h tokens))))))))"

section \<open>Password reset\<close>

definition generic_reset :: "(string \<times> js) list" where
  "generic_reset = succeeded ''If the email exists, a reset link has been sent''"

definition requestPasswordReset :: "'r host \<Rightarrow> request \<Rightarrow> ('r exchange, outcome) act" where
  "requestPasswordReset h rq = or_500 ''Password reset request failed''
     (bindE (field_of (rq_body rq) ''email'') (\<lambda>email.
      bindE (lower_of email) (\<lambda>lowerEmail.
      bindE (on_db (findUserIdByPrimaryEmail h lowerEmail)) (\<lambda>userId.
      bindE (find_optional h userId None) (\<lambda>found. case found of
         None \<Rightarrow> json generic_reset
       | Some u \<Rightarrow>
           if getf u ''provider'' \<noteq> JStr ''local'' then json generic_reset
           else bindE (on_db (save h [] (set_fields
                  [(''passwordResetToken'', JStr (h_sha256 h (h_fresh h 1))),
                   (''passwordResetExpires'', JDate (h_now h + 60 * 60 * 1000))] u))) (\<lambda>_.
                thenE (catchE (sendPasswordResetEmail h (h_fresh h 2) lowerEmail (h_fresh h 1)) (\<lambda>_. ret ()))
                  (json generic_reset)))))))"

definition reset_filter :: "'r host \<Rightarrow> js \<Rightarrow> filt" where
  "reset_filter h secret =
     [(''passwordResetToken'', FScalar (JStr (h_sha256 h (js_String secret)))),
      (''passwordResetExpires'', FOps [(''$gt'', FScalar (JDate (h_now h)))])]"

definition nonces :: "'r host \<Rightarrow> nat \<Rightarrow> string" where
  "nonces h n = h_fresh h (10 + n)"

text \<open>The gateway must see the new version before anything else changes.\<close>

definition reset_account :: "'r host \<Rightarrow> js \<Rightarrow> user \<Rightarrow> ('r exchange, outcome) act" where
  "reset_account h password u =
     (let newVersion = version_of u + 1
      in bindE (publishTokenVersion h (getf u ''_id'') newVersion) (\<lambda>published.
           if \<not> published
           then status_json 503 (failed ''Password reset could not invalidate active sessions. Please try again.'')
           else thenE (revokeAllTrackedAccessJtis h (nonces h) (getf u ''activeAccessJtis''))
                  (bindE (on_db (save h [] (clear_sessions newVersion (set_fields
                      [(''password'', password), (''passwordResetToken'', JUndef), (''passwordResetExpires'', JUndef)] u))))
                    (\<lambda>_. json (succeeded ''Password reset successfully'')))))"

definition resetPassword :: "'r host \<Rightarrow> request \<Rightarrow> ('r exchange, outcome) act" where
  "resetPassword h rq = or_500 ''Password reset failed''
     (bindE (field_of (rq_body rq) ''formToken'') (\<lambda>formToken.
      bindE (redeem_form h formToken ResetPassword) (\<lambda>redeemed. case redeemed of
         None \<Rightarrow> status_json 400 (failed ''Invalid or expired reset session'')
       | Some form \<Rightarrow>
           bindE (on_db (findOne h (reset_filter h (fc_secret form)) (Some ''+refreshTokens +activeAccessJtis''))) (\<lambda>found.
             case found of
               None \<Rightarrow> status_json 400 (failed ''Invalid or expired reset token'')
             | Some u \<Rightarrow> reset_account h (js_get (rq_body rq) ''password'') u))))"

section \<open>Refresh and logout\<close>

definition session_invalidated :: "(string \<times> js) list" where
  "session_invalidated = failed ''Session invalidated - please sign in again''"

text \<open>A supplied access token is revoked only when it is valid.\<close>

definition revoke_supplied :: "'r host \<Rightarrow> js \<Rightarrow> ('r exchange, unit) act" where
  "revoke_supplied h supplied = (case supplied of
      JStr t \<Rightarrow> (if t \<noteq> [] \<and> verifyAccessToken h t \<noteq> None
                   then bindE (revokeAccessToken h (h_fresh h 9) t) (\<lambda>_. ret ()) else ret ())
    | _ \<Rightarrow> ret ())"

definition invalidate_and_refuse :: "'r host \<Rightarrow> js \<Rightarrow> ('r exchange, outcome) act" where
  "invalidate_and_refuse h userId =
     thenE (invalidateAllSessions h (nonces h) userId) (status_json 401 session_invalidated)"

definition refresh_with :: "'r host \<Rightarrow> string \<Rightarrow> js \<Rightarrow> user \<Rightarrow> ('r exchange, outcome) act" where
  "refresh_with h refreshToken prior u =
     (case findStoredRefreshToken h (getf u ''refreshTokens'') refreshToken of
        None \<Rightarrow> invalidate_and_refuse h (getf u ''_id'')
      | Some _ \<Rightarrow>
          (case generateTokenPair h (h_fresh h 3) (h_fresh h 4) u of (access, refresh) \<Rightarrow>
             thenE (revoke_supplied h prior)
               (bindE (rotateSessionTokens h (getf u ''_id'') refreshToken access refresh (version_of u)) (\<lambda>rotated.
                  if \<not> rotated then invalidate_and_refuse h (getf u ''_id'')
                  else thenE (issueSessionCookies h (h_fresh h 5) refresh)
                         (json ((''success'', JBool True) # token_fields h (access, refresh)))))))"

definition refreshAccessToken :: "'r host \<Rightarrow> request \<Rightarrow> ('r exchange, outcome) act" where
  "refreshAccessToken h rq = or_500 ''Token refresh failed''
     (bindE (field_of (rq_body rq) ''accessToken'') (\<lambda>prior.
        case getRefreshFromRequest h rq of
          None \<Rightarrow> status_json 401 (failed ''Refresh token is required'')
        | Some refreshToken \<Rightarrow>
            (case verifyRefreshToken h refreshToken of
               None \<Rightarrow> status_json 401 (failed ''Invalid refresh token'')
             | Some payload \<Rightarrow>
                 bindE (on_db (findById h (js_get payload ''userId'') (Some ''+refreshTokens''))) (\<lambda>found. case found of
                    None \<Rightarrow> status_json 401 (failed ''User not found'')
                  | Some u \<Rightarrow> refresh_with h refreshToken prior u))))"

definition logout :: "'r host \<Rightarrow> request \<Rightarrow> ('r exchange, outcome) act" where
  "logout h rq = or_500 ''Logout failed''
     (bindE (field_of (rq_body rq) ''accessToken'') (\<lambda>bodyAccessToken.
      thenE (case getRefreshFromRequest h rq of
               None \<Rightarrow> ret ()
             | Some refreshToken \<Rightarrow>
                 (case verifyRefreshToken h refreshToken of
                    None \<Rightarrow> ret ()
                  | Some payload \<Rightarrow> removeRefreshToken h (js_get payload ''userId'') refreshToken))
      (thenE (revoke_supplied h bodyAccessToken)
      (thenE (clearAuthCookies h)
        (json (succeeded ''Logged out successfully''))))))"

section \<open>The current user\<close>

definition getCurrentUser :: "'r host \<Rightarrow> request \<Rightarrow> ('r exchange, outcome) act" where
  "getCurrentUser h rq = or_500 ''Failed to get user''
     (case rq_user rq of
        None \<Rightarrow> status_json 401 (failed ''Not authenticated'')
      | Some u \<Rightarrow>
          bindE (on_db (findById h (getf u ''_id'') (Some fresh_projection))) (\<lambda>found. case found of
             None \<Rightarrow> status_json 404 (failed ''User not found'')
           | Some freshUser \<Rightarrow> json [(''success'', JBool True), (''user'', profile_fields freshUser)]))"

text \<open>\<open>updateBio\<close> of the profile: the first row with the id, the address, or the address as a
  previous one. An unauthenticated request throws on the missing user.\<close>

definition bio_filter :: "user \<Rightarrow> filt" where
  "bio_filter u = [(''$or'', FSubs [
     [(''_id'', FScalar (getf u ''_id''))],
     [(''email'', FScalar (getf u ''email''))],
     [(''previousEmail'', FScalar (getf u ''email''))]])]"

fun js_length :: "js \<Rightarrow> nat" where
  "js_length (JStr s) = length s"
| "js_length (JArr xs) = length xs"
| "js_length v = 0"

definition updateBio :: "'r host \<Rightarrow> request \<Rightarrow> ('r exchange, outcome) act" where
  "updateBio h rq = or_500 ''Failed to update bio''
     (bindE (field_of (rq_body rq) ''bio'') (\<lambda>bio.
        if truthy bio \<and> 500 < js_length bio
        then status_json 400 (failed ''Bio must be 500 characters or less'')
        else (case rq_user rq of
           None \<Rightarrow> raise type_error
         | Some u \<Rightarrow>
             bindE (on_db (findOne h (bio_filter u) None)) (\<lambda>found. case found of
                None \<Rightarrow> status_json 404 (failed ''User not found'')
              | Some d \<Rightarrow>
                  bindE (on_db (save h [] (setf d ''bio'' (if truthy bio then bio else JUndef)))) (\<lambda>d'.
                    json (succeeded ''Bio updated successfully'' @ [(''user'', user_fields d')]))))))"

section \<open>Links and OAuth\<close>

definition redeemEmailLink :: "'r host \<Rightarrow> request \<Rightarrow> ('r exchange, outcome) act" where
  "redeemEmailLink h rq = or_500 ''Failed to redeem link''
     (bindE (field_of (rq_body rq) ''code'') (\<lambda>code.
        if \<not> truthy code then status_json 400 (failed ''Link code is required'')
        else bindE (str_of code) (\<lambda>c.
             bindE (total_act (redeemEmailLinkCode (h_redis h) (h_now h) (h_rnd h) (h_fresh h 0) c)) (\<lambda>redeemed.
               case redeemed of
                 None \<Rightarrow> status_json 400 (failed ''Invalid or expired link'')
               | Some r \<Rightarrow> json [(''success'', JBool True), (''kind'', rl_kind r), (''formToken'', JStr (rl_formToken r)),
                             (''meta'', rl_meta r)]))))"

definition getOAuthProviders :: "'r host \<Rightarrow> ('r exchange, outcome) act" where
  "getOAuthProviders h = json [(''success'', JBool True), (''google'', JBool (googleEnabled (h_config h))),
     (''github'', JBool (githubEnabled (h_config h)))]"

definition prepareOAuth :: "'r host \<Rightarrow> request \<Rightarrow> ('r exchange, outcome) act" where
  "prepareOAuth h rq = or_500 ''Failed to prepare OAuth''
     (bindE (field_of (rq_body rq) ''codeChallenge'') (\<lambda>codeChallenge.
        if \<not> truthy codeChallenge then status_json 400 (failed ''codeChallenge is required'')
        else let redirectUri = js_get (rq_body rq) ''redirectUri'';
                 resolved = or_undef (resolveClientRedirectUri (h_parse_url h) (h_config h) redirectUri)
             in if redirectUri \<noteq> JUndef \<and> resolved = None
                then status_json 400 (failed ''redirectUri is not allowed'')
                else bindE (str_of codeChallenge) (\<lambda>c.
                     bindE (createOAuthState (h_config h) (h_redis h) (h_now h) (h_rnd h) (h_fresh h 0) c
                         (if redirectUri = JUndef then None else resolved)) (\<lambda>st.
                       json [(''success'', JBool True), (''state'', JStr st)]))))"

definition oauth_failed :: "'r host \<Rightarrow> ('r exchange, outcome) act" where
  "oauth_failed h = ret (Redirect (clientUrl (h_config h) @ ''/login?error=oauth_failed''))"

definition handleOAuthSuccess :: "'r host \<Rightarrow> request \<Rightarrow> ('r exchange, outcome) act" where
  "handleOAuthSuccess h rq = catchE
     (case (rq_user rq, js_get (rq_query rq) ''state'') of
        (Some u, JStr (c # s)) \<Rightarrow>
          (case generateTokenPair h (h_fresh h 3) (h_fresh h 4) u of (accessToken, refreshToken) \<Rightarrow>
             thenE (persistSessionTokens h (getf u ''_id'') accessToken refreshToken (version_of u))
               (bindE (createOAuthExchangeCode (h_config h) (h_redis h) (h_now h) (h_rnd h) (h_fresh h 0)
                   accessToken refreshToken (c # s)) (\<lambda>code.
                bindE (total_act (peekOAuthStateRedirectUri (h_redis h) (h_now h) (h_rnd h) (c # s))) (\<lambda>bound.
                  ret (Redirect (or_str bound (clientUrl (h_config h) @ ''/oauth-callback'')
                    @ ''?code='' @ code @ ''&state='' @ h_encode_uri h (c # s)))))))
      | _ \<Rightarrow> oauth_failed h)
     (\<lambda>_. oauth_failed h)"

definition exchangeOAuthCode :: "'r host \<Rightarrow> request \<Rightarrow> ('r exchange, outcome) act" where
  "exchangeOAuthCode h rq = or_500 ''OAuth exchange failed''
     (bindE (field_of (rq_body rq) ''code'') (\<lambda>code.
        let st = js_get (rq_body rq) ''state''; codeVerifier = js_get (rq_body rq) ''codeVerifier''
        in if \<not> truthy code \<or> \<not> truthy st \<or> \<not> truthy codeVerifier
           then status_json 400 (failed ''OAuth code, state, and codeVerifier are required'')
           else bindE (str_of code) (\<lambda>code. bindE (str_of st) (\<lambda>st. bindE (str_of codeVerifier) (\<lambda>codeVerifier.
                bindE (total_act (consumeOAuthState (h_sha256url h) (h_redis h) (h_now h) (h_rnd h) st codeVerifier)) (\<lambda>pkceValid.
                  if \<not> pkceValid then status_json 400 (failed ''Invalid OAuth state or PKCE verifier'')
                  else bindE (total_act (consumeOAuthExchangeCode (h_redis h) (h_now h) (h_rnd h) code st)) (\<lambda>tokens.
                       case tokens of
                         None \<Rightarrow> status_json 400 (failed ''Invalid or expired OAuth code'')
                       | Some t \<Rightarrow>
                           thenE (issueSessionCookies h (h_fresh h 5) (js_String (js_get t ''refreshToken'')))
                             (json ((''success'', JBool True)
                               # publicTokenFields h (js_get t ''accessToken'') (js_get t ''refreshToken''))))))))))"


section \<open>Every handler keeps the constraints of the tables\<close>

lemma keeps_open_session [keeps_rules]: "keeps_db db_ok (open_session h u)"
  unfolding open_session_def issueSessionCookies_def by (intro keeps_rules)

lemma keeps_find_optional [keeps_rules]: "keeps_db db_ok (find_optional h i p)"
  unfolding find_optional_def by (intro keeps_rules)

lemma keeps_auth_steps [keeps_rules]:
  "keeps_db db_ok (resolve_poll h tok)" "keeps_db db_ok (register_subject h e pw dn)"
  "keeps_db db_ok (register_finish h e t u)" "keeps_db db_ok (login_pending h e u)"
  "keeps_db db_ok (login_checks h e pw u)" "keeps_db db_ok (login_count h u)" "keeps_db db_ok (login_finish h u)"
  "keeps_db db_ok (redeem_form h tok kind)" "keeps_db db_ok (reset_account h pw u)"
  "keeps_db db_ok (revoke_supplied h s)" "keeps_db db_ok (invalidate_and_refuse h uid)" "keeps_db db_ok (oauth_failed h)"
  unfolding resolve_poll_def register_subject_def register_finish_def login_pending_def login_checks_def login_count_def
    login_finish_def redeem_form_def reset_account_def revoke_supplied_def invalidate_and_refuse_def oauth_failed_def
  by (intro keeps_rules)+

lemma keeps_refresh_with [keeps_rules]: "keeps_db db_ok (refresh_with h t p u)"
  unfolding refresh_with_def issueSessionCookies_def by (intro keeps_rules)

lemma keeps_auth_handlers [keeps_rules]:
  "keeps_db db_ok checkEmailAvailability" "keeps_db db_ok getVerificationStatus" "keeps_db db_ok (postVerificationStatus h rq)"
  "keeps_db db_ok (register h rq)" "keeps_db db_ok (login h rq)" "keeps_db db_ok (resendVerification h rq)"
  "keeps_db db_ok (verifyEmail h rq)" "keeps_db db_ok (requestPasswordReset h rq)" "keeps_db db_ok (resetPassword h rq)"
  "keeps_db db_ok (refreshAccessToken h rq)" "keeps_db db_ok (logout h rq)" "keeps_db db_ok (getCurrentUser h rq)"
  "keeps_db db_ok (updateBio h rq)" "keeps_db db_ok (redeemEmailLink h rq)" "keeps_db db_ok (getOAuthProviders h)"
  "keeps_db db_ok (prepareOAuth h rq)" "keeps_db db_ok (handleOAuthSuccess h rq)" "keeps_db db_ok (exchangeOAuthCode h rq)"
  unfolding checkEmailAvailability_def getVerificationStatus_def postVerificationStatus_def register_def login_def
    resendVerification_def verifyEmail_def requestPasswordReset_def resetPassword_def refreshAccessToken_def logout_def
    getCurrentUser_def updateBio_def redeemEmailLink_def getOAuthProviders_def prepareOAuth_def handleOAuthSuccess_def
    exchangeOAuthCode_def issueSessionCookies_def
  by (intro keeps_rules)+

end
