(* ===== verification/Migration.thy ===== *)
theory Migration
  imports Auth_Controller
begin

text \<open>
  \<open>controllers/migration.controller.ts\<close> and \<open>utils/migration-data-preserver.ts\<close>: moving an account to
  another address. An account asks for the move, both addresses are verified by mail, and the move is
  finalised: the account takes the new address, and an account that held it (at least the placeholder
  that the verification of the new address creates) is deleted. Log lines and the text of the mails are
  left out; a date inside the history, which the database returns as ISO text, is the instant it denotes.
\<close>

section \<open>Preserved data\<close>

text \<open>\<open>extendedData\<close> is never set.\<close>

record PreservedUserData =
  pd_bio :: js
  pd_displayName :: js
  pd_avatar :: js
  pd_loginCount :: js
  pd_lastLogin :: js
  pd_provider :: js
  pd_providerId :: js
  pd_createdAt :: js

text \<open>\<open>a || b\<close>.\<close>

definition or_else :: "js \<Rightarrow> js \<Rightarrow> js" where
  "or_else a b = (if truthy a then a else b)"

definition extractUserData :: "user \<Rightarrow> PreservedUserData" where
  "extractUserData u = \<lparr>
     pd_bio = or_else (getf u ''bio'') (JStr []),
     pd_displayName = getf u ''displayName'',
     pd_avatar = getf u ''avatar'',
     pd_loginCount = or_else (getf u ''loginCount'') (JNum 0),
     pd_lastLogin = getf u ''lastLogin'',
     pd_provider = getf u ''provider'',
     pd_providerId = getf u ''providerId'',
     pd_createdAt = getf u ''createdAt''\<rparr>"

text \<open>The callers always pass the new address, and it is not empty.\<close>

definition applyUserData :: "'r host \<Rightarrow> user \<Rightarrow> PreservedUserData \<Rightarrow> string \<Rightarrow> user" where
  "applyUserData h u pd newEmail = markModified ''bio'' (set_fields
     [(''bio'', or_else (pd_bio pd) (JStr [])),
      (''displayName'', pd_displayName pd),
      (''avatar'', or_else (pd_avatar pd) (if newEmail = [] then JUndef else JStr (getAvatarUrl h newEmail None 200))),
      (''loginCount'', pd_loginCount pd),
      (''lastLogin'', pd_lastLogin pd),
      (''provider'', pd_provider pd),
      (''providerId'', pd_providerId pd)] u)"

definition verifyPreservedData :: "user \<Rightarrow> PreservedUserData \<Rightarrow> bool" where
  "verifyPreservedData u pd \<longleftrightarrow>
     \<not> (truthy (pd_bio pd) \<and> getf u ''bio'' \<noteq> pd_bio pd)
     \<and> getf u ''displayName'' = pd_displayName pd \<and> getf u ''provider'' = pd_provider pd"

section \<open>The history of an account\<close>

text \<open>A change inside a value of the document, which the change tracking does not see.\<close>

definition mutate :: "string \<Rightarrow> js \<Rightarrow> user \<Rightarrow> user" where
  "mutate f v u = u\<lparr>u_values := AList.update f v (u_values u)\<rparr>"

fun js_put :: "(string \<times> js) list \<Rightarrow> js \<Rightarrow> js" where
  "js_put kvs (JObj fs) = JObj (fold (\<lambda>(k, v). AList.update k v) kvs fs)"
| "js_put kvs v = v"

definition ensure_history :: "user \<Rightarrow> user" where
  "ensure_history u = (if truthy (getf u ''migrationHistory'') then u else setf u ''migrationHistory'' (JArr []))"

definition history :: "user \<Rightarrow> js list" where
  "history u = elems (getf u ''migrationHistory'')"

text \<open>The first entry with a property is changed; \<open>None\<close> when there is none.\<close>

fun update_first :: "(js \<Rightarrow> bool) \<Rightarrow> (js \<Rightarrow> js) \<Rightarrow> js list \<Rightarrow> js list option" where
  "update_first P f [] = None"
| "update_first P f (m # ms) = (if P m then Some (f m # ms) else map_option (\<lambda>ms'. m # ms') (update_first P f ms))"

definition is_pending :: "js \<Rightarrow> js \<Rightarrow> bool" where
  "is_pending newEmail m \<longleftrightarrow> js_get m ''status'' = JStr ''pending'' \<and> js_get m ''toEmail'' = newEmail"

definition success_fields :: "'r host \<Rightarrow> (string \<times> js) list" where
  "success_fields h = [(''status'', JStr ''success''), (''completedAt'', JDate (h_now h)), (''currentEmailVerified'', JBool True),
     (''newEmailVerified'', JBool True), (''pendingFrom'', JUndef)]"

definition success_entry :: "'r host \<Rightarrow> js \<Rightarrow> string \<Rightarrow> js" where
  "success_entry h fromEmail newEmail = JObj
     [(''fromEmail'', fromEmail), (''toEmail'', JStr newEmail), (''status'', JStr ''success''), (''initiatedAt'', JDate (h_now h)),
      (''completedAt'', JDate (h_now h)), (''revertedAt'', JUndef), (''currentEmailVerified'', JBool True),
      (''newEmailVerified'', JBool True), (''pendingFrom'', JUndef)]"

text \<open>The pending entry of the move is marked as a success, or a new entry is added.\<close>

definition complete_history :: "'r host \<Rightarrow> js \<Rightarrow> string \<Rightarrow> user \<Rightarrow> user" where
  "complete_history h fromEmail newEmail u =
     (let u1 = ensure_history u
      in mutate ''migrationHistory'' (JArr (case update_first (is_pending (JStr newEmail)) (js_put (success_fields h)) (history u1) of
           Some ms \<Rightarrow> ms
         | None \<Rightarrow> history u1 @ [success_entry h fromEmail newEmail])) u1)"

text \<open>The last entry, when it is the pending one of this move, records a verification.\<close>

definition lower_js :: "js \<Rightarrow> js" where
  "lower_js v = (case v of JStr s \<Rightarrow> JStr (toLowerCase s) | _ \<Rightarrow> JUndef)"

definition record_verification :: "'r host \<Rightarrow> string \<Rightarrow> js \<Rightarrow> user \<Rightarrow> user \<Rightarrow> ('r exchange, unit) act" where
  "record_verification h flag pendingFrom u userWithHistory =
     (if truthy (getf userWithHistory ''migrationHistory'') \<and> history userWithHistory \<noteq> []
        \<and> is_pending (lower_js (getf u ''newEmailPending'')) (last (history userWithHistory))
      then bindE (on_db (save h [] (mutate ''migrationHistory'' (JArr (butlast (history userWithHistory)
             @ [js_put [(flag, JBool True), (''pendingFrom'', pendingFrom)] (last (history userWithHistory))])) userWithHistory)))
             (\<lambda>_. ret ())
      else ret ())"

section \<open>Finalising\<close>

definition buildMigrationVerifyUrl :: "'r host \<Rightarrow> string \<Rightarrow> EmailLinkKind \<Rightarrow> string \<Rightarrow> js \<Rightarrow> ('r exchange, string) act" where
  "buildMigrationVerifyUrl h code kind secretToken meta =
     bindE (link_code h code kind secretToken meta) (\<lambda>c. ret (clientUrl (h_config h) @ ''/migrate/verify?code='' @ c))"

text \<open>The move as one update under a check of the token version.\<close>

definition version_filter :: "user \<Rightarrow> filt" where
  "version_filter u = [(''_id'', FScalar (getf u ''_id'')), (''tokenVersion'', FScalar (getf u ''tokenVersion''))]"

definition move_update :: "'r host \<Rightarrow> user \<Rightarrow> string \<Rightarrow> update_doc" where
  "move_update h u newEmail = no_update\<lparr>
     up_set := [(''previousEmail'', getf u ''email''), (''email'', JStr newEmail), (''migrationExpiry'', JDate (h_now h + 5 * DAY)),
       (''lastMigrationDate'', JDate (h_now h)), (''isEmailVerified'', JBool True), (''newEmailPending'', JUndef),
       (''migrationToken'', JUndef), (''migrationTokenExpires'', JUndef), (''currentEmailVerified'', JUndef),
       (''newEmailVerified'', JUndef), (''currentEmailToken'', JUndef), (''newEmailToken'', JUndef)],
     up_inc := [(''tokenVersion'', 1)]\<rparr>"

definition stale_move :: "('r exchange, outcome) act" where
  "stale_move = status_json 409 (failed ''Concurrent modification detected - please retry'')"

definition move_done :: "'r host \<Rightarrow> user \<Rightarrow> ('r exchange, outcome) act" where
  "move_done h u =
     (case generateTokenPair h (h_fresh h 3) (h_fresh h 4) u of (accessToken, refreshToken) \<Rightarrow>
        thenE (persistSessionTokens h (getf u ''_id'') accessToken refreshToken (version_of u))
          (thenE (setAuthCookies h (h_fresh h 5) refreshToken)
            (status_json 200 (succeeded ''Migration completed successfully'' @ [(''user'', user_fields u)]
               @ token_fields h (accessToken, refreshToken)))))"

text \<open>The bio is read back, and a difference is saved again.\<close>

definition verify_bio :: "'r host \<Rightarrow> js \<Rightarrow> PreservedUserData \<Rightarrow> ('r exchange, unit) act" where
  "verify_bio h uid pd =
     bindE (on_db (findById h uid (Some ''+bio''))) (\<lambda>found. case found of
        None \<Rightarrow> ret ()
      | Some v \<Rightarrow>
          if getf v ''bio'' \<noteq> pd_bio pd
          then bindE (on_db (save h [] (markModified ''bio'' (setf v ''bio'' (or_else (pd_bio pd) (JStr [])))))) (\<lambda>_. ret ())
          else ret ())"

definition finalize_merge :: "'r host \<Rightarrow> user \<Rightarrow> string \<Rightarrow> user \<Rightarrow> ('r exchange, outcome) act" where
  "finalize_merge h currentUser newEmail existing =
     (let preservedData = extractUserData currentUser
      in thenE (on_db (releaseUserIdentityIndexes h (getf existing ''_id'')))
        (bindE (on_db (findByIdAndDelete h (getf existing ''_id''))) (\<lambda>_.
         bindE (on_db (findOneAndUpdate h (version_filter currentUser) (move_update h currentUser newEmail))) (\<lambda>updated.
           case updated of
             None \<Rightarrow> stale_move
           | Some u0 \<Rightarrow>
               let u1 = markModified ''avatar'' (markModified ''displayName'' (markModified ''bio''
                          (applyUserData h u0 preservedData newEmail)));
                   u2 = complete_history h (or_else (getf u1 ''previousEmail'') (getf u1 ''email'')) newEmail u1
               in bindE (on_db (save h [] u2)) (\<lambda>u3.
                  thenE (on_db (syncIdentityIndexesFromUser h u3))
                  (thenE (verify_bio h (getf u3 ''_id'') preservedData)
                    (move_done h u3)))))))"

definition finalize_same :: "'r host \<Rightarrow> user \<Rightarrow> string \<Rightarrow> ('r exchange, outcome) act" where
  "finalize_same h currentUser newEmail =
     bindE (on_db (findOneAndUpdate h (version_filter currentUser) (move_update h currentUser newEmail))) (\<lambda>updated.
       case updated of
         None \<Rightarrow> stale_move
       | Some u0 \<Rightarrow>
           bindE (on_db (save h [] (complete_history h (getf u0 ''email'') newEmail u0))) (\<lambda>u1.
             thenE (on_db (syncIdentityIndexesFromUser h u1)) (move_done h u1)))"

text \<open>Nobody holds the new address: the document is changed field by field and saved.\<close>

definition moved_user :: "'r host \<Rightarrow> string \<Rightarrow> user \<Rightarrow> user" where
  "moved_user h newEmail u =
     (let oldEmail = getf u ''email'';
          u1 = set_fields [(''previousEmail'', oldEmail), (''email'', JStr newEmail), (''migrationExpiry'', JDate (h_now h + 5 * DAY)),
                 (''lastMigrationDate'', JDate (h_now h)), (''isEmailVerified'', JBool True)] u;
          u2 = markModified ''avatar'' (markModified ''displayName'' (markModified ''bio''
                 (applyUserData h u1 (extractUserData u) newEmail)));
          u3 = complete_history h oldEmail newEmail u2
      in set_fields [(''migrationToken'', JUndef), (''migrationTokenExpires'', JUndef), (''newEmailPending'', JUndef),
           (''currentEmailVerified'', JUndef), (''newEmailVerified'', JUndef), (''currentEmailToken'', JUndef),
           (''newEmailToken'', JUndef)] u3)"

definition reload_projection :: string where
  "reload_projection = ''+bio +avatar +displayName +loginCount +lastLogin +provider +providerId +createdAt''"

definition final_fields :: "'r host \<Rightarrow> user \<Rightarrow> js" where
  "final_fields h u = JObj
     [(''id'', getf u ''_id''), (''email'', getf u ''email''), (''displayName'', getf u ''displayName''),
      (''avatar'', or_else (getf u ''avatar'') (JStr (getAvatarUrl h (js_String (getf u ''email'')) None 200))),
      (''bio'', or_else (getf u ''bio'') (JStr [])), (''isEmailVerified'', getf u ''isEmailVerified''),
      (''previousEmail'', getf u ''previousEmail''), (''provider'', getf u ''provider'')]"

definition finalize_fresh :: "'r host \<Rightarrow> js \<Rightarrow> string \<Rightarrow> ('r exchange, outcome) act" where
  "finalize_fresh h uid newEmail =
     bindE (on_db (findById h uid (Some reload_projection))) (\<lambda>found. case found of
        None \<Rightarrow> status_json 404 (failed ''User not found'')
      | Some u0 \<Rightarrow>
          bindE (on_db (save h [] (moved_user h newEmail u0))) (\<lambda>u.
          thenE (on_db (syncIdentityIndexesFromUser h u))
          (thenE (verify_bio h (getf u ''_id'') (extractUserData u0))
          (bindE (on_db (findById h (getf u ''_id'') (Some ''+bio +avatar +displayName''))) (\<lambda>_.
           case generateTokenPair h (h_fresh h 3) (h_fresh h 4) u of (accessToken, refreshToken) \<Rightarrow>
             thenE (persistSessionTokens h (getf u ''_id'') accessToken refreshToken (version_of u))
             (thenE (setAuthCookies h (h_fresh h 5) refreshToken)
             (bindE (on_db (findById h (getf u ''_id'') (Some fresh_projection))) (\<lambda>final. case final of
                None \<Rightarrow> status_json 500 (failed ''Failed to retrieve migrated user data'')
              | Some f \<Rightarrow> json (succeeded ''Account migrated successfully! You can login with both emails for 5 days.''
                  @ [(''user'', final_fields h f)] @ token_fields h (accessToken, refreshToken)))))))))) "

text \<open>A clash of addresses is recovered from by deleting the account that holds the address.\<close>

definition recover_duplicate :: "'r host \<Rightarrow> js \<Rightarrow> string option \<Rightarrow> ('r exchange, unit) act" where
  "recover_duplicate h uid duplicateEmail = (case or_undef duplicateEmail of
      None \<Rightarrow> ret ()
    | Some e \<Rightarrow>
        bindE (on_db (findUserIdByPrimaryEmail h e)) (\<lambda>duplicateUserId.
        bindE (find_optional h duplicateUserId None) (\<lambda>found. case found of
           None \<Rightarrow> ret ()
         | Some u \<Rightarrow>
             if js_String (getf u ''_id'') = js_String uid then ret ()
             else thenE (on_db (releaseUserIdentityIndexes h (getf u ''_id'')))
                    (bindE (on_db (findByIdAndDelete h (getf u ''_id''))) (\<lambda>_. ret ())))))"

definition finalize_failed :: "'r host \<Rightarrow> js \<Rightarrow> exn \<Rightarrow> ('r exchange, outcome) act" where
  "finalize_failed h uid e = (case e of
      UniqueViolation f v \<Rightarrow>
        if f = ''email''
        then thenE (catchE (recover_duplicate h uid v) (\<lambda>_. ret ()))
               (status_json 500 (failed ''Migration failed due to duplicate email. Please try again or contact support.''
                  @ [(''code'', JStr ''DUPLICATE_EMAIL_ERROR''), (''retryable'', JBool True)]))
        else status_json 500 (failed ''Migration failed'')
    | _ \<Rightarrow> status_json 500 (failed ''Migration failed''))"

definition finalizeMigrationInternal :: "'r host \<Rightarrow> user \<Rightarrow> ('r exchange, outcome) act" where
  "finalizeMigrationInternal h u = catchE
     (if \<not> truthy (getf u ''newEmailPending'') then status_json 400 (failed ''No pending migration'')
      else bindE (on_db (findById h (getf u ''_id'') (Some (reload_projection @ '' +tokenVersion'')))) (\<lambda>found. case found of
         None \<Rightarrow> status_json 404 (failed ''User not found'')
       | Some currentUser \<Rightarrow>
           if getf currentUser ''tokenVersion'' \<noteq> getf u ''tokenVersion'' then stale_move
           else (case lower_js (getf currentUser ''newEmailPending'') of
              JStr (c # s) \<Rightarrow>
                bindE (on_db (findUserIdByPrimaryEmail h (c # s))) (\<lambda>existingUserId.
                bindE (find_optional h existingUserId None) (\<lambda>existing. case existing of
                   Some x \<Rightarrow>
                     if js_String (getf x ''_id'') \<noteq> js_String (getf currentUser ''_id'')
                     then finalize_merge h currentUser (c # s) x
                     else finalize_same h currentUser (c # s)
                 | None \<Rightarrow> finalize_fresh h (getf u ''_id'') (c # s)))
            | _ \<Rightarrow> status_json 400 (failed ''No pending migration''))))
     (finalize_failed h (getf u ''_id''))"

section \<open>Asking for a move\<close>

definition MIGRATION_COOLDOWN_MS :: ms where "MIGRATION_COOLDOWN_MS = 10 * DAY"

definition ceil_div :: "int \<Rightarrow> int \<Rightarrow> int" where
  "ceil_div a b = - ((- a) div b)"

text \<open>No move is pending, the last one is past its grace period and its cooldown.\<close>

definition migration_allowed :: "'r host \<Rightarrow> user \<Rightarrow> ('r exchange, outcome + unit) act" where
  "migration_allowed h u =
     (if truthy (getf u ''newEmailPending'')
      then answer 400 (failed ''You already have a pending migration. Please complete or cancel it first.''
             @ [(''code'', JStr ''PENDING_MIGRATION_EXISTS'')])
      else if truthy (getf u ''previousEmail'') \<and> after (getf u ''migrationExpiry'') (h_now h)
      then answer 400 (failed ''You are currently in a migration grace period. Please wait until the grace period ends before migrating again.''
             @ [(''code'', JStr ''MIGRATION_IN_PROGRESS''), (''previousEmail'', getf u ''previousEmail''),
                (''migrationExpiry'', getf u ''migrationExpiry'')])
      else (case getf u ''lastMigrationDate'' of
         JDate t \<Rightarrow>
           (let elapsed = h_now h - t
            in if elapsed < MIGRATION_COOLDOWN_MS
               then answer 429 (failed (''Migration cooldown active. Try again in ''
                      @ show_int (ceil_div (MIGRATION_COOLDOWN_MS - elapsed) DAY) @ '' day(s).'')
                      @ [(''code'', JStr ''MIGRATION_COOLDOWN'')])
               else ret (Inr ()))
       | _ \<Rightarrow> ret (Inr ())))"

definition override_warning :: "string \<Rightarrow> string" where
  "override_warning newEmail =
     ''WARNING: An account with email '' @ [CHR 0x22] @ newEmail @ [CHR 0x22] @ '' already exists.'' @ [CHR 0x0A, CHR 0x0A]
     @ ''If you proceed:'' @ [CHR 0x0A]
     @ ''- The existing account will be PERMANENTLY DELETED'' @ [CHR 0x0A]
     @ ''- All data from the existing account will be LOST'' @ [CHR 0x0A]
     @ ''- Your current account data will be migrated to this email'' @ [CHR 0x0A, CHR 0x0A]
     @ ''This action cannot be undone. Please confirm to proceed.''"

text \<open>An account under the new address must be given up explicitly; the result says whether there is one.\<close>

definition target_free :: "'r host \<Rightarrow> user \<Rightarrow> string \<Rightarrow> js \<Rightarrow> ('r exchange, outcome + bool) act" where
  "target_free h u newEmail confirmOverride =
     bindE (on_db (findUserIdByPrimaryEmail h (toLowerCase newEmail))) (\<lambda>existingUserId.
     bindE (find_optional h existingUserId None) (\<lambda>existing. case existing of
        None \<Rightarrow> ret (Inr False)
      | Some x \<Rightarrow>
          if js_String (getf x ''_id'') = js_String (getf u ''_id'')
          then answer 400 (failed ''This is already your current email address'')
          else if confirmOverride \<noteq> JStr ''true''
          then answer 409 (failed ''An account with this email already exists''
                 @ [(''code'', JStr ''EMAIL_EXISTS''), (''requiresConfirmation'', JBool True),
                    (''warning'', JStr (override_warning newEmail))])
          else ret (Inr True)))"

definition password_given :: "'r host \<Rightarrow> user \<Rightarrow> js \<Rightarrow> ('r exchange, outcome + unit) act" where
  "password_given h u password =
     (if getf u ''provider'' \<noteq> JStr ''local'' then ret (Inr ())
      else if \<not> truthy password then answer 400 (failed ''Password is required'')
      else bindE (on_db (findById h (getf u ''_id'') (Some ''+password''))) (\<lambda>found. case found of
         None \<Rightarrow> answer 401 (failed ''Invalid password'')
       | Some v \<Rightarrow>
           bindE (case password of JStr p \<Rightarrow> on_db (comparePassword h [] p v) | _ \<Rightarrow> raise type_error) (\<lambda>(isMatch, _).
             if \<not> isMatch then answer 401 (failed ''Invalid password'') else ret (Inr ()))))"

definition pending_user :: "'r host \<Rightarrow> string \<Rightarrow> string \<Rightarrow> string \<Rightarrow> user \<Rightarrow> user" where
  "pending_user h newEmail currentEmailToken newEmailToken u =
     (let u1 = ensure_history (set_fields
            [(''newEmailPending'', JStr newEmail), (''currentEmailToken'', JStr (h_sha256 h currentEmailToken)),
             (''newEmailToken'', JStr (h_sha256 h newEmailToken)), (''currentEmailVerified'', JBool False),
             (''newEmailVerified'', JBool False), (''migrationTokenExpires'', JDate (h_now h + DAY)),
             (''lastMigrationEmailSent'', JDate (h_now h))] u)
      in mutate ''migrationHistory'' (JArr (history u1 @ [JObj
           [(''fromEmail'', getf u1 ''email''), (''toEmail'', JStr newEmail), (''status'', JStr ''pending''),
            (''initiatedAt'', JDate (h_now h)), (''completedAt'', JUndef), (''revertedAt'', JUndef),
            (''currentEmailVerified'', JBool False), (''newEmailVerified'', JBool False), (''pendingFrom'', JStr ''both'')]])) u1)"

text \<open>
  The two mails of a move; the result says which were handed over (\<open>Promise.allSettled\<close>). The
  attempts for the first address are taken before those for the second.
\<close>

definition settled :: "('w, unit) act \<Rightarrow> ('w, bool) act" where
  "settled m = catchE (thenE m (ret True)) (\<lambda>_. ret False)"

definition send_both :: "'r host \<Rightarrow> string \<Rightarrow> js \<Rightarrow> string \<Rightarrow> string \<Rightarrow> string \<Rightarrow> bool \<Rightarrow> ('r exchange, bool \<times> bool) act" where
  "send_both h note currentEmail newEmail currentEmailToken newEmailToken accountExists =
     bindE (buildMigrationVerifyUrl h (h_fresh h 2) MigrateCurrent currentEmailToken JUndef) (\<lambda>currentVerifyUrl.
     bindE (buildMigrationVerifyUrl h (h_fresh h 8) MigrateNew newEmailToken
         (JObj [(''redirect'', JStr (if accountExists then ''login'' else ''signup''))])) (\<lambda>newVerifyUrl.
     bindE (settled (sendEmail h \<lparr>m_to = js_String currentEmail,
         m_subject = ''Verify Current Email - Account Migration'' @ note, m_link = currentVerifyUrl\<rparr>)) (\<lambda>a.
     bindE (settled (sendEmail h \<lparr>m_to = newEmail,
         m_subject = ''Verify New Email - Account Migration'' @ note, m_link = newVerifyUrl\<rparr>)) (\<lambda>b.
       ret (a, b)))))"

definition start_migration :: "'r host \<Rightarrow> user \<Rightarrow> string \<Rightarrow> bool \<Rightarrow> ('r exchange, outcome) act" where
  "start_migration h u newEmail accountExists =
     bindE (on_db (findById h (getf u ''_id'') None)) (\<lambda>found. case found of
        None \<Rightarrow> status_json 404 (failed ''User not found'')
      | Some d0 \<Rightarrow>
          bindE (on_db (save h [] (pending_user h newEmail (h_fresh h 1) (h_fresh h 7) d0))) (\<lambda>d.
          thenE (on_db (syncIdentityIndexesFromUser h d))
          (bindE (send_both h [] (getf d ''email'') newEmail (h_fresh h 1) (h_fresh h 7) accountExists) (\<lambda>(a, b).
             if \<not> a \<and> \<not> b
             then status_json 500 (failed ''Failed to send verification emails. Please check your email configuration and try again later.'')
             else json (succeeded ''Verification links sent to both email addresses''
                    @ [(''currentEmail'', getf d ''email''), (''newEmail'', JStr newEmail)])))))"

definition initiateMigration :: "'r host \<Rightarrow> request \<Rightarrow> ('r exchange, outcome) act" where
  "initiateMigration h rq = or_500 ''Failed to initiate migration''
     (bindE (field_of (rq_body rq) ''newEmail'') (\<lambda>newEmail.
        if \<not> truthy newEmail then status_json 400 (failed ''New email is required'')
        else (case rq_user rq of
           None \<Rightarrow> raise type_error
         | Some u \<Rightarrow>
             bindR (migration_allowed h u) (\<lambda>_.
             bindE (str_of newEmail) (\<lambda>e.
             bindR (target_free h u e (js_get (rq_body rq) ''confirmOverride'')) (\<lambda>accountExists.
             bindR (password_given h u (js_get (rq_body rq) ''password'')) (\<lambda>_.
               start_migration h u (toLowerCase e) accountExists)))))))"

section \<open>Verifying the addresses\<close>

definition current_filter :: "'r host \<Rightarrow> js \<Rightarrow> filt" where
  "current_filter h secret =
     [(''currentEmailToken'', FScalar (JStr (h_sha256 h (js_String secret)))),
      (''migrationTokenExpires'', FOps [(''$gt'', FScalar (JDate (h_now h)))])]"

definition new_filter :: "'r host \<Rightarrow> js \<Rightarrow> filt" where
  "new_filter h secret =
     [(''newEmailToken'', FScalar (JStr (h_sha256 h (js_String secret)))),
      (''migrationTokenExpires'', FOps [(''$gt'', FScalar (JDate (h_now h)))]),
      (''newEmailPending'', FOps [(''$exists'', FScalar (JBool True)), (''$ne'', FScalar JNull)])]"

definition both_verified :: "user \<Rightarrow> bool" where
  "both_verified u \<longleftrightarrow> getf u ''currentEmailVerified'' = JBool True \<and> getf u ''newEmailVerified'' = JBool True
     \<and> truthy (getf u ''newEmailPending'')"

text \<open>What follows the setting of a flag: the history, a fresh look at the account, and the end of the move.\<close>

definition after_verification :: "'r host \<Rightarrow> string \<Rightarrow> js \<Rightarrow> (user \<Rightarrow> ('r exchange, outcome) act) \<Rightarrow> user \<Rightarrow> ('r exchange, outcome) act" where
  "after_verification h flag pendingFrom reply u =
     bindE (on_db (findById h (getf u ''_id'') None)) (\<lambda>withHistory.
     thenE (case withHistory of None \<Rightarrow> ret () | Some v \<Rightarrow> record_verification h flag pendingFrom u v)
     (bindE (on_db (findById h (getf u ''_id'') (Some ''+bio +avatar +displayName''))) (\<lambda>found. case found of
        None \<Rightarrow> status_json 404 (failed ''User not found after verification'')
      | Some updated \<Rightarrow>
          if both_verified updated then finalizeMigrationInternal h updated else reply updated)))"

definition current_reply :: "user \<Rightarrow> ('r exchange, outcome) act" where
  "current_reply u = json (succeeded (if truthy (getf u ''newEmailVerified'')
       then ''Current email verified! Both emails are now verified. Migration will finalize automatically.''
       else ''Current email verified successfully! Please verify your new email to complete migration.'')
     @ [(''currentEmailVerified'', JBool True), (''newEmailVerified'', JBool (getf u ''newEmailVerified'' = JBool True)),
        (''bothVerified'', JBool False), (''waitingFor'', JStr (if truthy (getf u ''newEmailVerified'') then ''none'' else ''new''))])"

definition redeem_migration :: "'r host \<Rightarrow> request \<Rightarrow> EmailLinkKind \<Rightarrow> ('r exchange, outcome + js) act" where
  "redeem_migration h rq kind =
     bindE (field_of (rq_body rq) ''formToken'') (\<lambda>formToken.
       if \<not> truthy formToken then answer 400 (failed ''formToken is required'')
       else bindE (redeem_form h formToken kind) (\<lambda>redeemed. case redeemed of
          None \<Rightarrow> answer 400 (failed ''Invalid or expired verification session'')
        | Some form \<Rightarrow> ret (Inr (fc_secret form))))"

definition verifyCurrentEmail :: "'r host \<Rightarrow> request \<Rightarrow> ('r exchange, outcome) act" where
  "verifyCurrentEmail h rq = or_500 ''Verification failed''
     (bindR (redeem_migration h rq MigrateCurrent) (\<lambda>secret.
      bindE (on_db (findOne h (current_filter h secret) None)) (\<lambda>found. case found of
         None \<Rightarrow> status_json 400 (failed ''Invalid or expired token'')
       | Some u0 \<Rightarrow>
           bindE (on_db (save h [] (setf u0 ''currentEmailVerified'' (JBool True)))) (\<lambda>u.
             after_verification h ''currentEmailVerified'' (if truthy (getf u ''newEmailVerified'') then JUndef else JStr ''new'')
               current_reply u))))"

text \<open>An account under the new address, or a placeholder for it.\<close>

definition ensure_account :: "'r host \<Rightarrow> string \<Rightarrow> ('r exchange, unit) act" where
  "ensure_account h newEmail =
     bindE (on_db (findUserIdByPrimaryEmail h newEmail)) (\<lambda>existingUserId.
     bindE (find_optional h existingUserId None) (\<lambda>existing. case existing of
        Some _ \<Rightarrow> ret ()
      | None \<Rightarrow>
          bindE (on_db (save h (h_fresh h 0) (new_User
              [(''email'', JStr newEmail), (''displayName'', JStr (''User '' @ hd (split_char (CHR ''@'') newEmail))),
               (''provider'', JStr ''local''), (''isEmailVerified'', JBool False)] True))) (\<lambda>p.
            on_db (syncIdentityIndexesFromUser h p))))"

definition new_reply :: "user \<Rightarrow> ('r exchange, outcome) act" where
  "new_reply u = json (succeeded ''New email verified successfully! Status updated in real-time.''
     @ [(''currentEmailVerified'', JBool (getf u ''currentEmailVerified'' = JBool True)), (''newEmailVerified'', JBool True),
        (''bothVerified'', JBool False), (''redirectTo'', JStr ''login''),
        (''waitingFor'', JStr (if truthy (getf u ''currentEmailVerified'') then ''new'' else ''current''))])"

definition verifyNewEmail :: "'r host \<Rightarrow> request \<Rightarrow> ('r exchange, outcome) act" where
  "verifyNewEmail h rq = or_500 ''Verification failed''
     (bindR (redeem_migration h rq MigrateNew) (\<lambda>secret.
      bindE (on_db (findOne h (new_filter h secret) None)) (\<lambda>found. case found of
         None \<Rightarrow> status_json 400 (failed ''Invalid or expired token'')
       | Some u0 \<Rightarrow>
           bindE (lower_of (getf u0 ''newEmailPending'')) (\<lambda>newEmail.
           thenE (ensure_account h newEmail)
           (bindE (on_db (save h [] (setf u0 ''newEmailVerified'' (JBool True)))) (\<lambda>u.
             after_verification h ''newEmailVerified'' (if truthy (getf u ''currentEmailVerified'') then JUndef else JStr ''current'')
               new_reply u))))))"

section \<open>Resending and looking\<close>

text \<open>Seconds until the mails may be sent again, of a window of 30.\<close>

definition resend_wait :: "'r host \<Rightarrow> user \<Rightarrow> int" where
  "resend_wait h u = (case getf u ''lastMigrationEmailSent'' of
      JDate t \<Rightarrow> (if h_now h - t < 30000 then ceil_div (30000 - (h_now h - t)) 1000 else 0)
    | _ \<Rightarrow> 0)"

definition resendMigrationEmails :: "'r host \<Rightarrow> request \<Rightarrow> ('r exchange, outcome) act" where
  "resendMigrationEmails h rq = or_500 ''Failed to resend emails''
     (case rq_user rq of
        None \<Rightarrow> raise type_error
      | Some u \<Rightarrow>
          bindE (on_db (findById h (getf u ''_id'') None)) (\<lambda>found. case found of
             None \<Rightarrow> status_json 404 (failed ''User not found'')
           | Some d0 \<Rightarrow>
               if \<not> truthy (getf d0 ''newEmailPending'') \<or> \<not> truthy (getf d0 ''migrationTokenExpires'')
                 \<or> before (getf d0 ''migrationTokenExpires'') (h_now h)
               then status_json 400 (failed ''No pending migration found'')
               else if 0 < resend_wait h d0
               then status_json 429 (failed (''Please wait '' @ show_int (resend_wait h d0) @ '' more second(s) before resending.'')
                      @ [(''cooldownRemaining'', JNum (resend_wait h d0))])
               else bindE (on_db (save h [] (set_fields
                      [(''currentEmailToken'', JStr (h_sha256 h (h_fresh h 1))), (''newEmailToken'', JStr (h_sha256 h (h_fresh h 7))),
                       (''migrationTokenExpires'', JDate (h_now h + DAY)), (''lastMigrationEmailSent'', JDate (h_now h))] d0))) (\<lambda>d.
                    thenE (on_db (syncIdentityIndexesFromUser h d))
                    (bindE (lower_of (getf d ''newEmailPending'')) (\<lambda>pending.
                     bindE (on_db (findUserIdByPrimaryEmail h pending)) (\<lambda>existing.
                       let newEmailExists = (case existing of None \<Rightarrow> False | Some i \<Rightarrow> truthy i)
                       in bindE (send_both h '' (Resent)'' (getf d ''email'') (js_String (getf d ''newEmailPending''))
                              (h_fresh h 1) (h_fresh h 7) newEmailExists) (\<lambda>(a, b).
                          if \<not> a \<and> \<not> b then status_json 500 (failed ''Failed to resend verification emails. Please try again later.'')
                          else json (succeeded ''Verification emails resent to both email addresses''
                                 @ [(''currentEmail'', getf d ''email''), (''newEmail'', getf d ''newEmailPending''),
                                    (''accountExists'', JBool newEmailExists)]))))))))"

definition getMigrationStatus :: "'r host \<Rightarrow> request \<Rightarrow> ('r exchange, outcome) act" where
  "getMigrationStatus h rq = or_500 ''Failed to get migration status''
     (case rq_user rq of
        None \<Rightarrow> raise type_error
      | Some u \<Rightarrow>
          bindE (on_db (findById h (getf u ''_id'')
              (Some ''+currentEmailVerified +newEmailVerified +currentEmailToken +newEmailToken''))) (\<lambda>found. case found of
             None \<Rightarrow> status_json 404 (failed ''User not found'')
           | Some d \<Rightarrow>
               let pending = getf d ''newEmailPending''; expires = getf d ''migrationTokenExpires'';
                   hasPending = (if \<not> truthy pending then JBool False else if \<not> truthy expires then expires
                                 else JBool (after expires (h_now h)));
                   current = (getf d ''currentEmailVerified'' = JBool True); new = (getf d ''newEmailVerified'' = JBool True);
                   fields = (\<lambda>has. [(''success'', JBool True), (''hasPendingMigration'', has), (''currentEmail'', getf d ''email''),
                     (''newEmail'', or_else pending JNull), (''currentEmailVerified'', JBool current),
                     (''newEmailVerified'', JBool new), (''migrationExpiry'', or_else expires JNull),
                     (''cooldownRemaining'', JNum (resend_wait h d))])
               in if truthy hasPending \<and> current \<and> new \<and> truthy pending
                  then json (fields (JBool True) @ [(''needsFinalization'', JBool True),
                         (''message'', JStr ''Both emails verified! Finalizing migration...'')])
                  else json (fields hasPending @ [(''needsFinalization'', JBool False)])))"

definition finalizeMigration :: "'r host \<Rightarrow> request \<Rightarrow> ('r exchange, outcome) act" where
  "finalizeMigration h rq = or_500 ''Failed to finalize migration''
     (case rq_user rq of
        None \<Rightarrow> raise type_error
      | Some u \<Rightarrow>
          bindE (on_db (findById h (getf u ''_id'') (Some ''+currentEmailVerified +newEmailVerified +newEmailPending''))) (\<lambda>found.
            case found of
              None \<Rightarrow> status_json 404 (failed ''User not found'')
            | Some d \<Rightarrow>
                if \<not> truthy (getf d ''newEmailPending'') then status_json 400 (failed ''No pending migration found'')
                else if getf d ''currentEmailVerified'' \<noteq> JBool True \<or> getf d ''newEmailVerified'' \<noteq> JBool True
                then status_json 400 (failed ''Both emails must be verified before finalizing migration''
                       @ [(''currentEmailVerified'', JBool (getf d ''currentEmailVerified'' = JBool True)),
                          (''newEmailVerified'', JBool (getf d ''newEmailVerified'' = JBool True))])
                else finalizeMigrationInternal h d))"

text \<open>An entry of the history as it is shown: two verified addresses or a completion date mean success.\<close>

definition shown_status :: "js \<Rightarrow> js \<times> js" where
  "shown_status m =
     (let current = (js_get m ''currentEmailVerified'' = JBool True); new = (js_get m ''newEmailVerified'' = JBool True);
          status = or_else (js_get m ''status'') (JStr ''pending'');
          (status, pendingFrom) =
            (if current \<and> new then (JStr ''success'', JUndef)
             else if status = JStr ''pending''
             then (status, JStr (if \<not> current \<and> \<not> new then ''both'' else if \<not> current then ''current'' else ''new''))
             else (status, js_get m ''pendingFrom''))
      in if truthy (js_get m ''completedAt'') \<and> status \<noteq> JStr ''success'' then (JStr ''success'', JUndef)
         else (status, pendingFrom))"

definition shown_date :: "js \<Rightarrow> js \<Rightarrow> js" where
  "shown_date v d = or_else v d"

definition shown_entry :: "'r host \<Rightarrow> js \<Rightarrow> js" where
  "shown_entry h m = JObj
     [(''fromEmail'', or_else (js_get m ''fromEmail'') (JStr [])), (''toEmail'', or_else (js_get m ''toEmail'') (JStr [])),
      (''status'', fst (shown_status m)), (''initiatedAt'', shown_date (js_get m ''initiatedAt'') (JDate (h_now h))),
      (''completedAt'', shown_date (js_get m ''completedAt'') JUndef), (''revertedAt'', shown_date (js_get m ''revertedAt'') JUndef),
      (''currentEmailVerified'', JBool (js_get m ''currentEmailVerified'' = JBool True)),
      (''newEmailVerified'', JBool (js_get m ''newEmailVerified'' = JBool True)), (''pendingFrom'', snd (shown_status m))]"

definition getMigrationHistory :: "'r host \<Rightarrow> request \<Rightarrow> ('r exchange, outcome) act" where
  "getMigrationHistory h rq = or_500 ''Failed to get migration history''
     (case rq_user rq of
        None \<Rightarrow> raise type_error
      | Some u \<Rightarrow>
          bindE (on_db (findById h (getf u ''_id'') (Some ''+migrationHistory''))) (\<lambda>found. case found of
             None \<Rightarrow> status_json 404 (failed ''User not found'')
           | Some d \<Rightarrow> json [(''success'', JBool True), (''history'', JArr (rev (map (shown_entry h) (history d))))]))"

section \<open>The constraints of the tables\<close>

lemma keeps_deletes [keeps_rules]: "keeps db_ok (findByIdAndDelete h uid)"
  by (rule keeps_user_model)

lemma keeps_move_steps [keeps_rules]:
  "keeps_db db_ok (record_verification h f v u x)" "keeps_db db_ok (buildMigrationVerifyUrl h c k s m)"
  "keeps_db db_ok stale_move" "keeps_db db_ok (move_done h u)" "keeps_db db_ok (verify_bio h uid pd)"
  "keeps_db db_ok (recover_duplicate h uid de)" "keeps_db db_ok (migration_allowed h u)"
  "keeps_db db_ok (target_free h u e co)" "keeps_db db_ok (password_given h u pw)" "keeps_db db_ok (current_reply u)"
  "keeps_db db_ok (new_reply u)" "keeps_db db_ok (redeem_migration h rq kind)" "keeps_db db_ok (ensure_account h e)"
  unfolding record_verification_def buildMigrationVerifyUrl_def stale_move_def move_done_def verify_bio_def recover_duplicate_def
    migration_allowed_def target_free_def password_given_def current_reply_def new_reply_def redeem_migration_def ensure_account_def
  by (intro keeps_rules)+

lemma keeps_settled [keeps_rules]: "keeps P m \<Longrightarrow> keeps P (settled m)"
  unfolding settled_def by (intro keeps_rules | assumption)+

lemma keeps_send_both [keeps_rules]: "keeps_db db_ok (send_both h n c e t t' x)"
  unfolding send_both_def by (intro keeps_rules)

lemma keeps_finalize [keeps_rules]:
  "keeps_db db_ok (finalize_merge h u e x)" "keeps_db db_ok (finalize_same h u e)" "keeps_db db_ok (finalize_fresh h uid e)"
  "keeps_db db_ok (finalize_failed h uid ex)"
  unfolding finalize_merge_def finalize_same_def finalize_fresh_def finalize_failed_def by (intro keeps_rules)+

lemma keeps_finalizeInternal [keeps_rules]: "keeps_db db_ok (finalizeMigrationInternal h u)"
  unfolding finalizeMigrationInternal_def by (intro keeps_rules)

lemma keeps_verification [keeps_rules]:
  "(\<And>u. keeps_db db_ok (reply u)) \<Longrightarrow> keeps_db db_ok (after_verification h flag p reply u)"
  "keeps_db db_ok (start_migration h u e x)"
  unfolding after_verification_def start_migration_def by (intro keeps_rules | assumption)+

lemma keeps_migration_handlers [keeps_rules]:
  "keeps_db db_ok (initiateMigration h rq)" "keeps_db db_ok (verifyCurrentEmail h rq)" "keeps_db db_ok (verifyNewEmail h rq)"
  "keeps_db db_ok (resendMigrationEmails h rq)" "keeps_db db_ok (getMigrationStatus h rq)"
  "keeps_db db_ok (finalizeMigration h rq)" "keeps_db db_ok (getMigrationHistory h rq)"
  unfolding initiateMigration_def verifyCurrentEmail_def verifyNewEmail_def resendMigrationEmails_def getMigrationStatus_def
    finalizeMigration_def getMigrationHistory_def
  by (intro keeps_rules)+

end
