(* ===== verification/Auth_Properties.thy ===== *)
theory Auth_Properties
  imports Auth_Controller
begin

text \<open>
  What the handlers of the authentication controller guarantee: who can open a session, what a
  password reset and a refresh do to the sessions of an account, and what the answers reveal.
\<close>

section \<open>Login\<close>

lemma known_login: "known (Some login_projection)" and known_fresh: "known (Some fresh_projection)"
  by (rule known_additive, code_simp)+

lemma login_shows:
  "list_all (\<lambda>f. f \<in> set (resolveFields (Some login_projection)))
     [''id'', ''email'', ''password'', ''provider'', ''isEmailVerified'', ''newEmailPending'', ''currentEmailVerified'', ''newEmailVerified'',
      ''tokenVersion'']"
  "''id'' \<in> set (resolveFields (Some fresh_projection))"
  by code_simp+

lemma login_fields:
  "f \<in> {''id'', ''email'', ''password'', ''provider'', ''isEmailVerified'', ''newEmailPending'', ''currentEmailVerified'', ''newEmailVerified'', ''tokenVersion''} \<Longrightarrow>
     getf (loaded (project (columns_of (Some login_projection)) r)) f = field_value r f"
  using login_shows(1) by (intro getf_projected [OF known_login]) auto

lemma finalized_known:
  "list_all (\<lambda>f. f \<in> set ALL_FIELDS) [''id'', ''email'', ''password'', ''provider'', ''isEmailVerified'', ''newEmailPending'',
     ''currentEmailVerified'', ''newEmailVerified'', ''tokenVersion'', ''previousEmail'', ''migrationExpiry'', ''lastMigrationDate'',
     ''currentEmailToken'', ''newEmailToken'', ''refreshTokens'', ''activeAccessJtis'', ''passwordResetToken'', ''passwordResetExpires'',
     ''loginCount'', ''lastLogin'', ''bio'', ''avatar'', ''displayName'', ''emailVerificationToken'', ''emailVerificationExpires'']"
  by code_simp

lemmas known_fields [simp] = finalized_known [simplified]

lemma login_pending_effect:
  assumes ok: "db_ok (database w)" and r: "user_row (database w) uid = Some r"
    and p: "login_pending h e (loaded (project (columns_of (Some login_projection)) r)) w = (Inr (Inr u1), w1)"
  shows "\<exists>r1. user_row (database w1) uid = Some r1 \<and> db_ok (database w1) \<and> tracked u1 \<and> u_modified u1 = []
    \<and> (\<forall>f \<in> {''id'', ''password'', ''provider'', ''isEmailVerified''}. getf u1 f = field_value r1 f)
    \<and> (\<forall>f \<in> {''id'', ''password'', ''provider''}. field_value r1 f = field_value r f)
    \<and> (field_value r1 ''isEmailVerified'' = field_value r ''isEmailVerified''
       \<or> truthy (field_value r ''currentEmailVerified'') \<and> truthy (field_value r ''newEmailVerified''))"
proof (cases "getf (loaded (project (columns_of (Some login_projection)) r)) ''newEmailPending'' = JStr e")
  case False
  with p r ok show ?thesis by (auto simp: login_pending_def handler_simps login_fields)
next
  case True
  let ?u = "loaded (project (columns_of (Some login_projection)) r)"
  from p True obtain d1 d2 where s: "save h [] (finalized_user h ?u) (database w) = (Inr u1, d1)"
    and y: "syncIdentityIndexesFromUser h u1 d1 = (Inr (), d2)" and w1: "database w1 = d2"
    and both: "truthy (field_value r ''currentEmailVerified'')" "truthy (field_value r ''newEmailVerified'')"
    by (auto simp: login_pending_def handler_simps login_fields split: if_splits)
  have t: "tracked (finalized_user h ?u)" by (simp add: finalized_user_def set_fields_def)
  have i: "getf (finalized_user h ?u) ''id'' = JStr uid"
    using user_row_Some [OF r] login_fields [of "''id''" r] JSONB_known(2,4)
    by (simp add: finalized_user_def set_fields_def getf_setf field_value_col)
  from save_effect [OF ok s t i r] obtain r1 where u1: "u1 = saved r1 (finalized_user h ?u)"
    and r1: "user_row d1 uid = Some r1" and wr: "row_written h (finalized_user h ?u) r r1" and ok1: "db_ok d1" by blast
  have m: "u_modified (finalized_user h ?u) = [''previousEmail'', ''email'', ''migrationExpiry'', ''lastMigrationDate'', ''isEmailVerified'',
      ''newEmailPending'', ''currentEmailVerified'', ''newEmailVerified'', ''currentEmailToken'', ''newEmailToken'']"
    by (simp add: finalized_user_def set_fields_def setf_def set_add_def loaded_def new_User_def)
  have out: "f \<notin> set (write_fields (finalized_user h ?u))" if "f \<in> {''id'', ''password'', ''provider''}" for f
    using that by (auto simp: write_fields_def set_fold_add m JSONB_LIST_def)
  have "field_value r1 f = field_value r f" if "f \<in> {''id'', ''password'', ''provider''}" for f
    using wr out [OF that] that by (auto simp: row_written_def)
  moreover have "getf u1 f = field_value r1 f" if "f \<in> {''id'', ''password'', ''provider'', ''isEmailVerified''}" for f
    using that by (auto simp: u1 getf_saved)
  moreover have "tracked u1" "u_modified u1 = []" using t by (simp_all add: u1 tracked_def saved_def)
  moreover have "db_ok d2" using keepsD [OF keeps_sync ok1 y] .
  ultimately show ?thesis using r1 sync_row_same [OF y] both by (auto simp: w1)
qed

lemma compare_effect:
  assumes ok: "db_ok d" and c: "comparePassword h [] p u d = (Inr (b, u'), d')" and t: "tracked u" "u_modified u = []"
    and i: "getf u ''id'' = JStr uid" and r0: "user_row d uid = Some r0"
    and v: "getf u ''isEmailVerified'' = field_value r0 ''isEmailVerified''" "field_value r0 ''id'' = JStr uid"
  shows "b = (truthy (getf u ''password'') \<and> vr_match (verifyPassword (h_crypto h) (h_env h) p (js_opt (getf u ''password''))))
    \<and> getf u' ''id'' = JStr uid \<and> getf u' ''isEmailVerified'' = getf u ''isEmailVerified''
    \<and> user_row d' uid \<noteq> None \<and> db_ok d'"
proof -
  let ?u = "setf u ''password'' (JStr p)"
  have ok': "db_ok d'" using keepsD [OF keeps_comparePassword ok c] .
  have tu: "tracked ?u" and iu: "getf ?u ''id'' = JStr uid" using t i by (simp_all add: getf_setf)
  have out: "f \<notin> set (write_fields ?u)" if "f \<in> {''id'', ''isEmailVerified''}" for f
    using that t(2) by (auto simp: write_fields_def set_fold_add setf_def set_add_def JSONB_LIST_def)
  have saved: "getf u1 ''id'' = JStr uid \<and> getf u1 ''isEmailVerified'' = getf u ''isEmailVerified'' \<and> user_row d1 uid \<noteq> None"
    if "save h [] ?u d = (Inr u1, d1)" for u1 d1
  proof -
    from save_effect [OF ok that tu iu r0] obtain r where u1: "u1 = saved r ?u" and r: "user_row d1 uid = Some r"
      and wr: "row_written h ?u r0 r" by blast
    have "field_value r f = field_value r0 f" if "f \<in> {''id'', ''isEmailVerified''}" for f
      using wr out [OF that] that by (auto simp: row_written_def)
    with v r JSONB_known(2) show ?thesis by (simp add: u1 getf_saved)
  qed
  have failed: "user_row d1 uid \<noteq> None" if "save h [] ?u d = (Inl e, d1)" for e d1
    using that tu r0 by (auto simp: save_def tracked_def save_update_def rethrow_duplicate_def bindE_def catchE_def update_user_def
        query_def user_row_def ret_def raise_def split: sum.splits prod.splits list.splits option.splits if_splits)
  show ?thesis
    using c ok' i r0 saved failed iu
    by (auto simp: comparePassword_def Let_def bindE_eq_Inr catchE_def ret_apply getf_setf split: if_splits prod.splits sum.splits)
qed

text \<open>The columns behind the fields that the statements below name.\<close>

lemma field_columns:
  "field_value r ''id'' = r ''id''" "field_value r ''password'' = r ''password''" "field_value r ''provider'' = r ''provider''"
  "field_value r ''isEmailVerified'' = r ''is_email_verified''"
  "field_value r ''currentEmailVerified'' = r ''current_email_verified''"
  "field_value r ''newEmailVerified'' = r ''new_email_verified''" "field_value r ''tokenVersion'' = r ''token_version''"
  "field_value r ''refreshTokens'' = r ''refresh_tokens''" "field_value r ''activeAccessJtis'' = r ''active_access_jtis''"
  "field_value r ''passwordResetToken'' = r ''password_reset_token''"
proof -
  have "map field_col [''id'', ''password'', ''provider'', ''isEmailVerified'', ''currentEmailVerified'', ''newEmailVerified'', ''tokenVersion'',
      ''refreshTokens'', ''activeAccessJtis'', ''passwordResetToken''] = [''id'', ''password'', ''provider'', ''is_email_verified'', ''current_email_verified'', ''new_email_verified'',
      ''token_version'', ''refresh_tokens'', ''active_access_jtis'', ''password_reset_token'']" by code_simp
  then show "field_value r ''id'' = r ''id''" "field_value r ''password'' = r ''password''" "field_value r ''provider'' = r ''provider''"
    "field_value r ''isEmailVerified'' = r ''is_email_verified''"
    "field_value r ''currentEmailVerified'' = r ''current_email_verified''"
    "field_value r ''newEmailVerified'' = r ''new_email_verified''" "field_value r ''tokenVersion'' = r ''token_version''"
    "field_value r ''refreshTokens'' = r ''refresh_tokens''" "field_value r ''activeAccessJtis'' = r ''active_access_jtis''"
    "field_value r ''passwordResetToken'' = r ''password_reset_token''"
    by (simp_all add: field_value_col)
qed

lemma login_finish_answer:
  assumes f: "login_finish (h :: 'a host) u w = (Inr (Respond 200 b), w')" and i: "getf u ''id'' = JStr uid"
  shows "js_get b ''accessToken'' = JStr (generateAccessToken h (h_fresh h 3) u) \<and> js_get (js_get b ''user'') ''id'' = JStr uid"
proof -
  from f i obtain fresh and w1 :: "'a exchange" and d where b: "b = JObj (succeeded ''Login successful'' @ [(''user'', profile_fields fresh)]
      @ token_fields h (generateTokenPair h (h_fresh h 3) (h_fresh h 4) u))"
    and g: "findById h (JStr uid) (Some fresh_projection) (database w1) = (Inr (Some fresh), d)"
    by (auto simp: login_finish_def open_session_def generateTokenPair_def handler_simps getf_id_field split: option.splits)
  from findById_Some [OF g known_fresh] obtain r where r: "user_row (database w1) uid = Some r"
    and u: "fresh = loaded (project (columns_of (Some fresh_projection)) r)" by auto
  have "getf fresh ''id'' = JStr uid"
    unfolding u using id_projected [OF known_fresh login_shows(2), of r] user_row_Some [OF r] by simp
  then show ?thesis
    by (simp add: b succeeded_def token_fields_def publicTokenFields_def generateTokenPair_def profile_fields_def getf_id_field)
qed

lemma login_refusals:
  "login_pending h e u w \<noteq> (Inr (Inl (Respond 200 b)), w')"
  "login_checks h e pw u w \<noteq> (Inr (Inl (Respond 200 b)), w')"
  "login_count h u w \<noteq> (Inr (Inl (Respond 200 b)), w')"
  by (auto simp: login_pending_def login_checks_def login_count_def Let_def handler_simps split: if_splits js.splits)

text \<open>
  (C1) Nobody logs in without the password: when the login handler answers 200, the request
  carried the password of one stored local account (it verifies against that account's hash, with
  pepper and legacy forms as configured), the account's address is verified or both ends of its
  migration are, and the session it returns is for that same account. The database may fail in any
  way meanwhile.
\<close>

theorem login_needs_password:
  assumes ok: "db_ok (database w)" and l: "login h rq w = (Inr (Respond 200 b), w')"
  shows "\<exists>uid r p u. user_row (database w) uid = Some r \<and> js_get (rq_body rq) ''password'' = JStr p
    \<and> r ''provider'' = JStr ''local'' \<and> truthy (r ''password'')
    \<and> vr_match (verifyPassword (h_crypto h) (h_env h) p (js_opt (r ''password'')))
    \<and> (truthy (r ''is_email_verified'') \<or> truthy (r ''current_email_verified'') \<and> truthy (r ''new_email_verified''))
    \<and> getf u ''id'' = JStr uid \<and> js_get b ''accessToken'' = JStr (generateAccessToken h (h_fresh h 3) u)
    \<and> js_get (js_get b ''user'') ''id'' = JStr uid"
proof -
  from l obtain e i d0 u0 d1 u1 w1 u2 w2 u3 w3 where
      res: "resolveEmailIdentity h e (database w) = (Inr (Some i), d0)"
    and f: "findById h (ri_userId i) (Some login_projection) d0 = (Inr (Some u0), d1)"
    and p: "login_pending h e u0 (w\<lparr>database := d1\<rparr>) = (Inr (Inr u1), w1)"
    and c: "login_checks h e (js_get (rq_body rq) ''password'') u1 w1 = (Inr (Inr u2), w2)"
    and n: "login_count h u2 w2 = (Inr (Inr u3), w3)" and fin: "login_finish h u3 w3 = (Inr (Respond 200 b), w')"
    by (auto simp: login_def handler_simps login_refusals split: option.splits)
  define uid where "uid = js_String (ri_userId i)"
  from findById_Some [OF f known_login] obtain r where r0: "user_row d0 uid = Some r"
    and u0: "u0 = loaded (project (columns_of (Some login_projection)) r)" and s1: "same_tables d0 d1" by (auto simp: uid_def)
  note s0 = lookup_same(1) [OF res]
  from r0 s0 have r: "user_row (database w) uid = Some r" by (simp add: same_tables_rows)
  from r0 s1 have r1: "user_row d1 uid = Some r" by (simp add: same_tables_rows)
  from ok s0 s1 have ok1: "db_ok d1" by (simp add: same_tables_ok)
  from user_row_Some [OF r] have idr: "r ''id'' = JStr uid" by simp
  from login_pending_effect [of "w\<lparr>database := d1\<rparr>" uid r h e u1 w1] ok1 r1 p obtain r2
    where r2: "user_row (database w1) uid = Some r2" "db_ok (database w1)" "tracked u1" "u_modified u1 = []"
      and g1: "\<forall>f \<in> {''id'', ''password'', ''provider'', ''isEmailVerified''}. getf u1 f = field_value r2 f"
      and g2: "\<forall>f \<in> {''id'', ''password'', ''provider''}. field_value r2 f = field_value r f"
      and g3: "field_value r2 ''isEmailVerified'' = field_value r ''isEmailVerified''
        \<or> truthy (field_value r ''currentEmailVerified'') \<and> truthy (field_value r ''newEmailVerified'')"
    by (auto simp: u0)
  from c obtain pw d2 where pw: "js_get (rq_body rq) ''password'' = JStr pw" and local: "getf u1 ''provider'' = JStr ''local''"
    and cmp: "comparePassword h [] pw u1 (database w1) = (Inr (True, u2), d2)" and ver: "truthy (getf u2 ''isEmailVerified'')"
    by (auto simp: login_checks_def handler_simps split: if_splits js.splits)
  have id1: "getf u1 ''id'' = JStr uid" using g1 g2 idr by (simp add: field_columns)
  have "field_value r2 ''id'' = JStr uid" "getf u1 ''isEmailVerified'' = field_value r2 ''isEmailVerified''"
    using g1 g2 idr by (simp_all add: field_columns)
  from compare_effect [OF r2(2) cmp r2(3,4) id1 r2(1) this(2,1)]
  have m: "truthy (getf u1 ''password'')" "vr_match (verifyPassword (h_crypto h) (h_env h) pw (js_opt (getf u1 ''password'')))"
    and id2: "getf u2 ''id'' = JStr uid" and ver2: "getf u2 ''isEmailVerified'' = getf u1 ''isEmailVerified''" by simp_all
  have id3: "getf u3 ''id'' = JStr uid"
    using n id2 by (auto simp: login_count_def handler_simps Let_def set_fields_def getf_setf split: if_splits)
  from login_finish_answer [OF fin id3] r pw local m ver ver2 g1 g2 g3 id3 show ?thesis
    by (intro exI [of _ uid] exI [of _ r] exI [of _ pw] exI [of _ u3]) (auto simp: field_columns)
qed


section \<open>Password reset\<close>

lemma known_reset: "known (Some ''+refreshTokens +activeAccessJtis'')"
  by (rule known_additive, code_simp)

lemma reset_shows:
  "list_all (\<lambda>f. f \<in> set (resolveFields (Some ''+refreshTokens +activeAccessJtis'')))
     [''id'', ''tokenVersion'', ''refreshTokens'', ''activeAccessJtis'']"
  by code_simp

lemma reset_fields:
  "f \<in> {''id'', ''tokenVersion'', ''refreshTokens'', ''activeAccessJtis''} \<Longrightarrow>
     getf (loaded (project (columns_of (Some ''+refreshTokens +activeAccessJtis'')) r)) f = field_value r f"
  using reset_shows by (intro getf_projected [OF known_reset]) auto

text \<open>What the columns hold for the values these handlers write.\<close>

lemma stored_values:
  "stored h ''refreshTokens'' (JArr []) = JArr []" "stored h ''activeAccessJtis'' (JArr []) = JArr []"
  "stored h ''passwordResetToken'' JUndef = JNull" "stored h ''passwordResetExpires'' JUndef = JNull"
  "storable h ''tokenVersion'' (JNum n) \<Longrightarrow> stored h ''tokenVersion'' (JNum n) = JNum n"
  "p \<noteq> [] \<Longrightarrow> stored h ''password'' (JStr p) = JStr (hashPassword (h_crypto h) (h_env h) (h_seed h) p)"
proof -
  have c: "map field_col [''refreshTokens'', ''activeAccessJtis'', ''passwordResetToken'', ''passwordResetExpires'', ''tokenVersion'', ''password'']
    = [''refresh_tokens'', ''active_access_jtis'', ''password_reset_token'', ''password_reset_expires'', ''token_version'', ''password'']"
    by code_simp
  have j: "''refreshTokens'' \<in> JSONB_FIELDS" "''activeAccessJtis'' \<in> JSONB_FIELDS" "''passwordResetToken'' \<notin> JSONB_FIELDS"
    "''passwordResetExpires'' \<notin> JSONB_FIELDS" "''tokenVersion'' \<notin> JSONB_FIELDS" "''password'' \<notin> JSONB_FIELDS"
    by (simp_all add: JSONB_FIELDS_def)
  show "stored h ''refreshTokens'' (JArr []) = JArr []" "stored h ''activeAccessJtis'' (JArr []) = JArr []"
    "stored h ''passwordResetToken'' JUndef = JNull" "stored h ''passwordResetExpires'' JUndef = JNull"
    "storable h ''tokenVersion'' (JNum n) \<Longrightarrow> stored h ''tokenVersion'' (JNum n) = JNum n"
    "p \<noteq> [] \<Longrightarrow> stored h ''password'' (JStr p) = JStr (hashPassword (h_crypto h) (h_env h) (h_seed h) p)"
    using c by (auto simp: stored_def storable_def write_param_def users_types j split: if_splits)
qed

lemma reset_account_effect:
  assumes ok: "db_ok (database w)" and r: "user_row (database w) uid = Some r"
    and a: "reset_account h pw (loaded (project (columns_of (Some ''+refreshTokens +activeAccessJtis'')) r)) w = (Inr (Respond 200 b), w')"
  shows "\<exists>r'. user_row (database w') uid = Some r' \<and> only_user uid (database w) (database w')
    \<and> r' ''refresh_tokens'' = JArr [] \<and> r' ''active_access_jtis'' = JArr [] \<and> r' ''password_reset_token'' = JNull
    \<and> r' ''token_version'' = JNum (num_or (r ''token_version'') 0 + 1) \<and> r' ''password'' = stored h ''password'' pw"
proof -
  let ?u = "loaded (project (columns_of (Some ''+refreshTokens +activeAccessJtis'')) r)"
  let ?v = "clear_sessions (version_of ?u + 1) (set_fields
     [(''password'', pw), (''passwordResetToken'', JUndef), (''passwordResetExpires'', JUndef)] ?u)"
  from a obtain w1 w2 :: "'a exchange" and u' d where p: "publishTokenVersion h (getf ?u ''_id'') (version_of ?u + 1) w = (Inr True, w1)"
    and q: "revokeAllTrackedAccessJtis h (nonces h) (getf ?u ''activeAccessJtis'') w1 = (Inr (), w2)"
    and s: "save h [] ?v (database w2) = (Inr u', d)" and w': "w' = w2\<lparr>database := d\<rparr>"
    by (auto simp: reset_account_def Let_def handler_simps split: if_splits)
  have d2: "database w2 = database w"
    using keepsD [OF keeps_publish [of "\<lambda>d. d = database w"] _ p] keepsD [OF keeps_revoke_all [of "\<lambda>d. d = database w"] _ q] by simp
  have v: "version_of ?u = num_or (r ''token_version'') 0" by (simp add: version_of_def reset_fields field_columns)
  have t: "tracked ?v" by (simp add: clear_sessions_def set_fields_def)
  have i: "getf ?v ''id'' = JStr uid"
    using user_row_Some [OF r] by (simp add: clear_sessions_def set_fields_def getf_setf reset_fields field_columns)
  from save_effect [OF ok s [unfolded d2] t i r] obtain r' where r': "user_row d uid = Some r'" and wr: "row_written h ?v r r'"
    and o: "only_user uid (database w) d" by blast
  have m: "f \<in> set (write_fields ?v)" if "f \<in> {''password'', ''passwordResetToken'', ''refreshTokens'', ''activeAccessJtis'', ''tokenVersion''}" for f
    using that by (auto simp: write_fields_def set_fold_add clear_sessions_def set_fields_def setf_def set_add_def clock_fields_def)
  have f: "storable h f (getf ?v f) \<and> field_value r' f = stored h f (getf ?v f)"
    if "f \<in> {''password'', ''passwordResetToken'', ''refreshTokens'', ''activeAccessJtis'', ''tokenVersion''}" for f
    using wr m [OF that] that by (auto simp: row_written_def)
  have g: "getf ?v ''password'' = pw" "getf ?v ''passwordResetToken'' = JUndef" "getf ?v ''refreshTokens'' = JArr []"
    "getf ?v ''activeAccessJtis'' = JArr []" "getf ?v ''tokenVersion'' = JNum (version_of ?u + 1)"
    by (simp_all add: clear_sessions_def set_fields_def getf_setf)
  from f [of "''password''", unfolded g] f [of "''passwordResetToken''", unfolded g] f [of "''refreshTokens''", unfolded g]
    f [of "''activeAccessJtis''", unfolded g] f [of "''tokenVersion''", unfolded g, unfolded v] r' o
  show ?thesis by (simp add: w' stored_values field_columns)
qed


lemma tand_eq_T: "tand a b = T \<longleftrightarrow> a = T \<and> b = T"
  by (cases a; cases b) simp_all

lemma reset_filter_selects:
  assumes "buildWhere (reset_filter h secret) [] = Inr (cs, ps)" and "selects re cs ps r" and "users_row_ok r"
  shows "r ''password_reset_token'' = JStr (h_sha256 h (js_String secret)) \<and> (\<exists>t. r ''password_reset_expires'' = JDate t \<and> h_now h < t)"
proof -
  have "map columnName [''passwordResetToken'', ''passwordResetExpires''] = [Inr ''password_reset_token'', Inr ''password_reset_expires'']"
    by code_simp
  with assms(1,2) have "eq3 (r ''password_reset_token'') (JStr (h_sha256 h (js_String secret))) = T"
      "cmp3 Gt (r ''password_reset_expires'') (JDate (h_now h)) = T"
    by (auto simp: reset_filter_def selects_def tand_eq_T eval_where_def build_op_def push_def param_def cmp_op_def JSONB_FIELDS_def
        split: sum.splits tri.splits)
  moreover have "has_type TTime (r ''password_reset_expires'')" by (rule row_typed [OF assms(3)]) (simp add: users_types)
  ultimately show ?thesis
    by (cases "r ''password_reset_expires''") (auto simp: eq3_def cmp3_def tri_def split: if_splits)
qed

text \<open>
  (C3) A password reset ends every session: when the handler answers 200, the request's form
  token was redeemed for a secret whose digest is the unexpired reset token of one account; that account then
  has no refresh tokens, no tracked access tokens and no reset token, its password is the hash of
  the new one and its token version has grown by one; no other account changed.
\<close>

theorem reset_ends_sessions:
  assumes ok: "db_ok (database w)" and a: "resetPassword h rq w = (Inr (Respond 200 b), w')"
  shows "\<exists>tok form w1 uid r t r'. js_get (rq_body rq) ''formToken'' = JStr tok
    \<and> consumeFormToken (h_redis h) (h_now h) (h_rnd h) tok ResetPassword w = (Some form, w1)
    \<and> user_row (database w) uid = Some r \<and> r ''password_reset_token'' = JStr (h_sha256 h (js_String (fc_secret form)))
    \<and> r ''password_reset_expires'' = JDate t \<and> h_now h < t
    \<and> user_row (database w') uid = Some r' \<and> only_user uid (database w) (database w')
    \<and> r' ''refresh_tokens'' = JArr [] \<and> r' ''active_access_jtis'' = JArr [] \<and> r' ''password_reset_token'' = JNull
    \<and> r' ''token_version'' = JNum (num_or (r ''token_version'') 0 + 1)
    \<and> r' ''password'' = stored h ''password'' (js_get (rq_body rq) ''password'')"
proof -
  from a obtain tok form u d1 and w1 :: "'a exchange" where tok: "js_get (rq_body rq) ''formToken'' = JStr tok"
    and c: "consumeFormToken (h_redis h) (h_now h) (h_rnd h) tok ResetPassword w = (Some form, w1)"
    and f: "findOne h (reset_filter h (fc_secret form)) (Some ''+refreshTokens +activeAccessJtis'') (database w1) = (Inr (Some u), d1)"
    and e: "reset_account h (js_get (rq_body rq) ''password'') u (w1\<lparr>database := d1\<rparr>) = (Inr (Respond 200 b), w')"
    by (auto simp: resetPassword_def redeem_form_def handler_simps split: option.splits)
  have d: "database w1 = database w"
    using keepsD [OF keeps_codes(1) [of "\<lambda>d. d = database w" "h_redis h" "h_now h" "h_rnd h" tok ResetPassword], of w "Inr (Some form)" w1]
    by (simp add: total_act_Inr c)
  from findOne_effect [OF f known_reset] obtain r cs ps where mem: "r \<in> set (users (database w))" and s: "same_tables (database w) d1"
    and u: "u = loaded (project (columns_of (Some ''+refreshTokens +activeAccessJtis'')) r)"
    and wh: "buildWhere (reset_filter h (fc_secret form)) [] = Inr (cs, ps)" and sel: "selects (h_regex h) cs ps r"
    by (auto simp: d)
  from reset_filter_selects [OF wh sel] mem ok obtain t where t: "r ''password_reset_expires'' = JDate t" "h_now h < t"
    "r ''password_reset_token'' = JStr (h_sha256 h (js_String (fc_secret form)))" by (auto dest: db_ok_users)
  from user_row_mem [OF ok mem] obtain uid where r: "user_row (database w) uid = Some r" by blast
  with s ok have r1: "user_row d1 uid = Some r" "db_ok d1" by (simp_all add: same_tables_rows same_tables_ok)
  from reset_account_effect [OF _ _ e [unfolded u], of uid] r1 obtain r' where
    r': "user_row (database w') uid = Some r'" "only_user uid d1 (database w')"
      "r' ''refresh_tokens'' = JArr []" "r' ''active_access_jtis'' = JArr []" "r' ''password_reset_token'' = JNull"
      "r' ''token_version'' = JNum (num_or (r ''token_version'') 0 + 1)"
      "r' ''password'' = stored h ''password'' (js_get (rq_body rq) ''password'')" by auto
  moreover have "only_user uid (database w) (database w')"
    using r'(2) s by (simp add: only_user_def same_tables_rows) (simp add: same_tables_def)
  ultimately show ?thesis using tok c r t by blast
qed

section \<open>Access tokens\<close>

lemma none_shows: "''tokenVersion'' \<in> set (resolveFields None)" "''id'' \<in> set (resolveFields None)"
  "set (resolveFields None) \<inter> SENSITIVE_FIELDS = {}"
  by code_simp+

lemma authenticate_next:
  assumes "authenticate h rq w = (Inr (Next rq'), w')"
  shows "\<exists>tok payload r. bearer_token rq = Some tok \<and> verifyAccessToken h tok = Some payload
    \<and> user_row (database w) (js_String (js_get payload ''userId'')) = Some r
    \<and> \<not> tokenVersionStale (js_get payload ''tv'') (r ''token_version'')
    \<and> rq' = rq\<lparr>rq_user := Some (loaded (project (columns_of None) r))\<rparr> \<and> same_tables (database w) (database w')"
proof -
  from assms obtain tok payload u d where tok: "bearer_token rq = Some tok" "verifyAccessToken h tok = Some payload"
    and f: "findById h (js_get payload ''userId'') None (database w) = (Inr (Some u), d)"
    and n: "\<not> tokenVersionStale (js_get payload ''tv'') (getf u ''tokenVersion'')" "rq' = rq\<lparr>rq_user := Some u\<rparr>"
    and w': "w' = w\<lparr>database := d\<rparr>"
    by (auto simp: authenticate_def handler_simps split: option.splits if_splits)
  from findById_Some [OF f known_default] obtain r where r: "user_row (database w) (js_String (js_get payload ''userId'')) = Some r"
    and u: "u = loaded (project (columns_of None) r)" and s: "same_tables (database w) d" by blast
  have "getf u ''tokenVersion'' = r ''token_version''"
    unfolding u using getf_projected [OF known_default, of "''tokenVersion''" r] none_shows by (simp add: field_columns)
  with tok n r u s w' show ?thesis by auto
qed


text \<open>
  (C4) The bearer check is exact: a request passes \<open>authenticate\<close> only with a bearer token that verifies
  as an access token, for an account that is in the table and whose token version is that of the
  token; the handlers behind it see that account without its secrets, and the tables are as before.
\<close>

theorem authenticate_exact:
  assumes "authenticate h rq w = (Inr (Next rq'), w')"
  shows "\<exists>tok payload uid r. bearer_token rq = Some tok \<and> verifyAccessToken h tok = Some payload
    \<and> uid = js_String (js_get payload ''userId'') \<and> user_row (database w) uid = Some r
    \<and> coalesce (js_get payload ''tv'') (JNum 0) = coalesce (r ''token_version'') (JNum 0)
    \<and> rq' = rq\<lparr>rq_user := rq_user rq'\<rparr>
    \<and> (\<exists>u. rq_user rq' = Some u \<and> getf u ''id'' = JStr uid \<and> (\<forall>f \<in> SENSITIVE_FIELDS. getf u f = JUndef))
    \<and> same_tables (database w) (database w')"
proof -
  from authenticate_next [OF assms] obtain tok payload r where tok: "bearer_token rq = Some tok" "verifyAccessToken h tok = Some payload"
    and r: "user_row (database w) (js_String (js_get payload ''userId'')) = Some r"
    and st: "\<not> tokenVersionStale (js_get payload ''tv'') (r ''token_version'')"
    and rq': "rq' = rq\<lparr>rq_user := Some (loaded (project (columns_of None) r))\<rparr>" and s: "same_tables (database w) (database w')"
    by blast
  have "getf (loaded (project (columns_of None) r)) f = JUndef" if "f \<in> SENSITIVE_FIELDS" for f
    using that none_shows(3) by (intro getf_found [OF known_default, THEN trans]) (auto simp: SENSITIVE_FIELDS_def)
  moreover have "getf (loaded (project (columns_of None) r)) ''id'' = r ''id''"
    using id_projected [OF known_default none_shows(2)] .
  ultimately show ?thesis using tok r st rq' s user_row_Some [OF r] by (auto simp: tokenVersionStale_def)
qed

section \<open>Refresh tokens\<close>

lemma known_refresh: "known (Some ''+refreshTokens'')"
  by (rule known_additive, code_simp)

lemma refresh_shows: "list_all (\<lambda>f. f \<in> set (resolveFields (Some ''+refreshTokens''))) [''id'', ''refreshTokens'', ''tokenVersion'']"
  by code_simp

lemma refresh_fields:
  "f \<in> {''id'', ''tokenVersion'', ''refreshTokens''} \<Longrightarrow>
     getf (loaded (project (columns_of (Some ''+refreshTokens'')) r)) f = field_value r f"
  using refresh_shows by (intro getf_projected [OF known_refresh]) auto

lemma val_of_star: "f \<in> set ALL_FIELDS \<Longrightarrow> f \<noteq> ''_id'' \<Longrightarrow> val_of (rowToValues (star r)) f = field_value r f"
  using getf_saved [of f r "new_User [] False"] by (simp add: getf_def saved_def val_of_def)

lemma val_of_update: "val_of (AList.update f v vs) g = (if g = f then v else val_of vs g)"
  by (simp add: val_of_def update_conv')

lemma json_value_JStr [simp]: "json_value v = JStr s \<longleftrightarrow> v = JStr s"
  by (cases v) auto

lemma findStored_Some: "findStoredRefreshToken h v t = Some k \<Longrightarrow> k = hashRefreshToken h t \<and> JStr k \<in> set (elems v)"
  by (auto simp: findStoredRefreshToken_def Let_def split: if_splits)

definition rotated_tokens :: "'r host \<Rightarrow> js \<Rightarrow> string \<Rightarrow> string \<Rightarrow> js list" where
  "rotated_tokens h v old new = map json_value (filter (\<lambda>x. x \<noteq> JStr (hashRefreshToken h old))
     (slice_last 5 (elems v @ [JStr (hashRefreshToken h new)])))"

lemma rotate_effect:
  assumes ok: "db_ok (database w)" and r: "user_row (database w) uid = Some r"
    and a: "rotateSessionTokens h (JStr uid) old acc new v w = (Inr True, w')"
  shows "\<exists>r'. JStr (hashRefreshToken h old) \<in> set (elems (r ''refresh_tokens'')) \<and> user_row (database w') uid = Some r'
    \<and> only_user uid (database w) (database w') \<and> r' ''refresh_tokens'' = JArr (rotated_tokens h (r ''refresh_tokens'') old new)
    \<and> r' ''token_version'' = r ''token_version''"
proof -
  let ?up = "no_update\<lparr>up_pull := [(''refreshTokens'', JStr (hashRefreshToken h old))], up_push := session_pushes h acc new\<rparr>"
  from a obtain found k d1 x d2 and w1 where f: "findById h (JStr uid) (Some ''+refreshTokens'') (database w) = (Inr found, d1)"
    and k: "findStoredRefreshToken h (case found of None \<Rightarrow> JUndef | Some u \<Rightarrow> getf u ''refreshTokens'') old = Some k"
    and up: "findByIdAndUpdate h (JStr uid) (no_update\<lparr>up_pull := [(''refreshTokens'', JStr k)], up_push := session_pushes h acc new\<rparr>) d1 = (Inr (Some x), d2)"
    and p: "publishTokenVersion h (JStr uid) v (w\<lparr>database := d2\<rparr>) = (Inr w1, w')"
    by (auto simp: rotateSessionTokens_def handler_simps split: option.splits)
  note k' = findStored_Some [OF k]
  from findById_effect [OF f known_refresh] r have u: "found = Some (loaded (project (columns_of (Some ''+refreshTokens'')) r))"
    and s: "same_tables (database w) d1" by auto
  from ok r s have ok1: "db_ok d1" and r1: "user_row d1 uid = Some r" by (simp_all add: same_tables_ok same_tables_rows)
  have ch: "set (changed_fields ?up) = insert ''refreshTokens'' (if truthy (extractAccessJti h acc) then {''activeAccessJtis''} else {})"
    by (auto simp: changed_fields_def set_add_def no_update_def session_pushes_def Let_def)
  have cs: "set (changed_fields ?up) \<subseteq> set ALL_FIELDS - {''id'', ''updatedAt''}" unfolding ch by auto
  from update_effect [OF ok1 up [unfolded k' [THEN conjunct1]] r1 cs] obtain r' where r': "user_row d2 uid = Some r'" and o: "only_user uid d1 d2"
    and fv: "\<forall>f \<in> set ALL_FIELDS. f \<noteq> ''updatedAt'' \<longrightarrow>
         field_value r' f = (if f \<in> set (changed_fields ?up) then updated_field ?up r f else field_value r f)" by blast
  have d: "database w' = d2"
    using keepsD [OF keeps_publish [of "\<lambda>d. d = d2"] _ p] by simp
  have rt: "field_col ''refreshTokens'' = ''refresh_tokens''" "''refreshTokens'' \<in> JSONB_FIELDS" by code_simp+
  have "updated_field ?up r ''refreshTokens'' = JArr (rotated_tokens h (r ''refresh_tokens'') old new)"
    by (simp add: updated_field_def updated_values_def no_update_def session_pushes_def rotated_tokens_def push_field_def pull_field_def
        Let_def val_of_update val_of_star field_columns rt update_param_def users_types js_slice_def MAX_REFRESH_def)
  moreover have "JStr (hashRefreshToken h old) \<in> set (elems (r ''refresh_tokens''))"
    using k' u by (auto simp: refresh_fields field_columns)
  moreover have "only_user uid (database w) d2" using o s by (simp add: only_user_def same_tables_rows) (simp add: same_tables_def)
  ultimately show ?thesis
    using fv [rule_format, of "''refreshTokens''"] fv [rule_format, of "''tokenVersion''"] r' by (simp add: ch field_columns d)
qed


lemma keeps_supplied: "keeps_db P (revoke_supplied h prior)"
  unfolding revoke_supplied_def by (intro keeps_rules)

lemma refresh_with_answer:
  assumes ok: "db_ok (database w)" and r: "user_row (database w) uid = Some r"
    and a: "refresh_with h tok prior (loaded (project (columns_of (Some ''+refreshTokens'')) r)) w = (Inr (Respond 200 b), w')"
  shows "\<exists>r' new. new = generateRefreshToken h (h_fresh h 4) (loaded (project (columns_of (Some ''+refreshTokens'')) r))
    \<and> JStr (hashRefreshToken h tok) \<in> set (elems (r ''refresh_tokens'')) \<and> user_row (database w') uid = Some r'
    \<and> only_user uid (database w) (database w') \<and> r' ''refresh_tokens'' = JArr (rotated_tokens h (r ''refresh_tokens'') tok new)
    \<and> r' ''token_version'' = r ''token_version''"
proof -
  let ?u = "loaded (project (columns_of (Some ''+refreshTokens'')) r)"
  have i: "getf ?u ''_id'' = JStr uid"
    using user_row_Some [OF r] by (simp add: getf_id_field refresh_fields field_columns)
  from a obtain w1 w2 :: "'a exchange" and acc where v: "revoke_supplied h prior w = (Inr (), w1)"
    and rot: "rotateSessionTokens h (JStr uid) tok acc (generateRefreshToken h (h_fresh h 4) ?u) (version_of ?u) w1 = (Inr True, w2)"
    and c: "issueSessionCookies h (h_fresh h 5) (generateRefreshToken h (h_fresh h 4) ?u) w2 = (Inr (), w')"
    by (auto simp: refresh_with_def invalidate_and_refuse_def generateTokenPair_def i handler_simps split: option.splits if_splits)
  have d1: "database w1 = database w"
    using keepsD [OF keeps_supplied [of "\<lambda>d. d = database w"] _ v] by simp
  have d2: "database w' = database w2"
    using keepsD [OF keeps_cookies(1) [of "\<lambda>d. d = database w2"] _ c [unfolded issueSessionCookies_def]] by simp
  from rotate_effect [OF _ _ rot, of r] ok r show ?thesis by (auto simp: d1 d2)
qed

lemma refresh_answer:
  assumes ok: "db_ok (database w)" and a: "refreshAccessToken h rq w = (Inr (Respond 200 b), w')"
  shows "\<exists>tok payload r r' new. getRefreshFromRequest h rq = Some tok \<and> verifyRefreshToken h tok = Some payload
    \<and> user_row (database w) (js_String (js_get payload ''userId'')) = Some r
    \<and> JStr (hashRefreshToken h tok) \<in> set (elems (r ''refresh_tokens''))
    \<and> user_row (database w') (js_String (js_get payload ''userId'')) = Some r'
    \<and> only_user (js_String (js_get payload ''userId'')) (database w) (database w')
    \<and> r' ''refresh_tokens'' = JArr (rotated_tokens h (r ''refresh_tokens'') tok new)"
proof -
  from a obtain tok payload u d prior where t: "getRefreshFromRequest h rq = Some tok" "verifyRefreshToken h tok = Some payload"
    and f: "findById h (js_get payload ''userId'') (Some ''+refreshTokens'') (database w) = (Inr (Some u), d)"
    and rw: "refresh_with h tok prior u (w\<lparr>database := d\<rparr>) = (Inr (Respond 200 b), w')"
    by (auto simp: refreshAccessToken_def handler_simps split: option.splits)
  from findById_Some [OF f known_refresh] obtain r where r: "user_row (database w) (js_String (js_get payload ''userId'')) = Some r"
    and u: "u = loaded (project (columns_of (Some ''+refreshTokens'')) r)" and s: "same_tables (database w) d" by blast
  from ok r s have ok1: "db_ok d" and r1: "user_row d (js_String (js_get payload ''userId'')) = Some r"
    by (simp_all add: same_tables_ok same_tables_rows)
  from refresh_with_answer [OF _ _ rw [unfolded u], of "js_String (js_get payload ''userId'')"] ok1 r1
  obtain r' new where r': "JStr (hashRefreshToken h tok) \<in> set (elems (r ''refresh_tokens''))"
      "user_row (database w') (js_String (js_get payload ''userId'')) = Some r'"
      "r' ''refresh_tokens'' = JArr (rotated_tokens h (r ''refresh_tokens'') tok new)"
    and o: "only_user (js_String (js_get payload ''userId'')) d (database w')" by auto
  have "only_user (js_String (js_get payload ''userId'')) (database w) (database w')"
    using o s by (simp add: only_user_def same_tables_rows) (simp add: same_tables_def)
  with t r r' show ?thesis by blast
qed

lemma rotated_drops: "hashRefreshToken h new \<noteq> hashRefreshToken h old \<Longrightarrow> JStr (hashRefreshToken h old) \<notin> set (rotated_tokens h v old new)"
  by (auto simp: rotated_tokens_def eq_commute [of "JStr _" "json_value _"])

text \<open>
  (C2) A refresh token is good once: when a refresh succeeds, the presented token verified and its
  digest was one of the account's stored ones; afterwards the stored list is the old one with the
  new token's digest appended, cut to the last five, without the presented one. So, with digests of the two tokens
  that differ, no later request that presents the same token succeeds while the account's row is as
  this refresh left it.
\<close>

theorem refresh_single_use:
  assumes ok: "db_ok (database w)" and a: "refreshAccessToken h rq w = (Inr (Respond 200 b), w')"
  shows "\<exists>tok payload uid r r' new. getRefreshFromRequest h rq = Some tok \<and> verifyRefreshToken h tok = Some payload
    \<and> uid = js_String (js_get payload ''userId'') \<and> user_row (database w) uid = Some r
    \<and> JStr (hashRefreshToken h tok) \<in> set (elems (r ''refresh_tokens''))
    \<and> user_row (database w') uid = Some r' \<and> only_user uid (database w) (database w')
    \<and> r' ''refresh_tokens'' = JArr (rotated_tokens h (r ''refresh_tokens'') tok new)
    \<and> (hashRefreshToken h new \<noteq> hashRefreshToken h tok \<longrightarrow> (\<forall>h2 rq2 w2 b2 w3. h_sha256 h2 = h_sha256 h
        \<longrightarrow> db_ok (database w2) \<longrightarrow> user_row (database w2) uid = Some r'
        \<longrightarrow> getRefreshFromRequest h2 rq2 = Some tok \<longrightarrow> verifyRefreshToken h2 tok = Some payload
        \<longrightarrow> refreshAccessToken h2 rq2 w2 \<noteq> (Inr (Respond 200 b2), w3)))"
proof -
  from refresh_answer [OF assms] obtain tok payload r r' new where t: "getRefreshFromRequest h rq = Some tok" "verifyRefreshToken h tok = Some payload"
    and r: "user_row (database w) (js_String (js_get payload ''userId'')) = Some r"
    and st: "JStr (hashRefreshToken h tok) \<in> set (elems (r ''refresh_tokens''))"
    and r': "user_row (database w') (js_String (js_get payload ''userId'')) = Some r'"
      "only_user (js_String (js_get payload ''userId'')) (database w) (database w')"
    and rt: "r' ''refresh_tokens'' = JArr (rotated_tokens h (r ''refresh_tokens'') tok new)" by blast
  have "refreshAccessToken h2 rq2 w2 \<noteq> (Inr (Respond 200 b2), w3)"
    if "hashRefreshToken h new \<noteq> hashRefreshToken h tok" "h_sha256 h2 = h_sha256 h" "db_ok (database w2)"
      "user_row (database w2) (js_String (js_get payload ''userId'')) = Some r'"
      "getRefreshFromRequest h2 rq2 = Some tok" "verifyRefreshToken h2 tok = Some payload" for h2 :: "'b host" and rq2 w2 b2 w3
  proof
    assume "refreshAccessToken h2 rq2 w2 = (Inr (Respond 200 b2), w3)"
    from refresh_answer [OF that(3) this] that(4-6) have "JStr (hashRefreshToken h2 tok) \<in> set (elems (r' ''refresh_tokens''))" by auto
    with rotated_drops [OF that(1), of "r ''refresh_tokens''"] that(2) rt show False by (simp add: hashRefreshToken_def)
  qed
  with t r st r' rt show ?thesis by blast
qed

section \<open>Examples\<close>

text \<open>A verified local account with a refresh token and a pending password reset, and its identity key.\<close>

definition demo_account :: row where
  "demo_account = (demo_user ''u1'' ''a@b.c'')(''password'' := JStr ''$pw'', ''is_email_verified'' := JBool True,
     ''refresh_tokens'' := JArr [JStr ''#rt''], ''password_reset_token'' := JStr ''#s'', ''password_reset_expires'' := JDate 9000)"

definition account_db :: db where
  "account_db = \<lparr>users = [demo_account, demo_user ''u2'' ''d@e.f''],
     identities = [(default_row identity_columns 0)(''key'' := JStr (emailKey demo_host PrimaryEmail ''a@b.c''),
       ''kind'' := JStr ''primary_email'', ''user_id'' := JStr ''u1'')], faults = []\<rparr>"

definition account_exchange :: "mem exchange" where
  "account_exchange = world.extend (demo_world\<lparr>database := account_db\<rparr>) \<lparr>res_cookies = []\<rparr>"

lemma account_ok: "db_ok (database account_exchange)"
  by code_simp

definition posted :: "(string \<times> js) list \<Rightarrow> request" where
  "posted body = \<lparr>rq_body = JObj body, rq_cookies = JObj [], rq_headers = JObj [], rq_query = JObj [], rq_user = None\<rparr>"

fun ok_body :: "exn + outcome \<Rightarrow> js option" where
  "ok_body (Inr (Respond n b)) = (if n = 200 then Some b else None)"
| "ok_body r = None"

lemma ok_bodyD: "ok_body (fst p) \<noteq> None \<Longrightarrow> \<exists>b w'. p = (Inr (Respond 200 b), w')"
  by (cases p; cases "fst p" rule: ok_body.cases) (auto split: if_splits)

theorem login_needs_password_witness:
  "\<exists>uid r. user_row account_db uid = Some r \<and> r ''provider'' = JStr ''local'' \<and> truthy (r ''password'')"
proof -
  have "ok_body (fst (login demo_host (posted [(''email'', JStr ''A@b.c''), (''password'', JStr ''pw'')]) account_exchange)) \<noteq> None"
    by code_simp
  from ok_bodyD [OF this] obtain b w' where "login demo_host (posted [(''email'', JStr ''A@b.c''), (''password'', JStr ''pw'')]) account_exchange
    = (Inr (Respond 200 b), w')" by blast
  from login_needs_password [OF account_ok this] show ?thesis
    by (auto simp: account_exchange_def world.defs)
qed

definition reset_exchange :: "mem exchange" where
  "reset_exchange = cacheSet mem_exec 1000 0 (form_key demo_code)
     (Json (link_payload (JStr (kind_name ResetPassword)) (JStr ''s'') JUndef)) (Some 600) account_exchange"

lemma reset_exchange_db: "database reset_exchange = account_db"
  by (simp add: reset_exchange_def account_exchange_def world.defs)

theorem reset_ends_sessions_witness:
  "\<exists>(w' :: mem exchange) uid r'. user_row (database w') uid = Some r' \<and> r' ''refresh_tokens'' = JArr [] \<and> only_user uid account_db (database w')"
proof -
  let ?rq = "posted [(''formToken'', JStr demo_code), (''password'', JStr ''new'')]"
  have "ok_body (fst (resetPassword demo_host ?rq reset_exchange)) \<noteq> None" by code_simp
  from ok_bodyD [OF this] obtain b w' where a: "resetPassword demo_host ?rq reset_exchange = (Inr (Respond 200 b), w')" by blast
  from account_ok have "db_ok (database reset_exchange)" by (simp add: reset_exchange_db account_exchange_def world.defs)
  from reset_ends_sessions [OF this a] show ?thesis by (auto simp: reset_exchange_db)
qed

fun next_request :: "exn + outcome \<Rightarrow> request option" where
  "next_request (Inr (Next rq)) = Some rq"
| "next_request r = None"

lemma next_requestD: "(case next_request (fst p) of None \<Rightarrow> False | Some rq \<Rightarrow> True) \<Longrightarrow> \<exists>rq w'. p = (Inr (Next rq), w')"
  by (cases p; cases "fst p" rule: next_request.cases) auto

theorem authenticate_exact_witness:
  "\<exists>tok payload r. verifyAccessToken demo_host tok = Some payload \<and> user_row account_db (js_String (js_get payload ''userId'')) = Some r"
proof -
  let ?rq = "(posted [])\<lparr>rq_headers := JObj [(''authorization'', JStr ''Bearer t'')]\<rparr>"
  have "case next_request (fst (authenticate demo_host ?rq account_exchange)) of None \<Rightarrow> False | Some rq \<Rightarrow> True" by code_simp
  from next_requestD [OF this] obtain rq' w' where "authenticate demo_host ?rq account_exchange = (Inr (Next rq'), w')" by blast
  from authenticate_exact [OF this] show ?thesis by (auto simp: account_exchange_def world.defs)
qed

theorem refresh_single_use_witness:
  "\<exists>(w' :: mem exchange) uid r r' new. user_row account_db uid = Some r \<and> user_row (database w') uid = Some r'
     \<and> r' ''refresh_tokens'' = JArr (rotated_tokens demo_host (r ''refresh_tokens'') ''rt'' new)"
proof -
  let ?rq = "(posted [])\<lparr>rq_cookies := JObj [(''uam_refresh'', JStr ''rt'')]\<rparr>"
  have "ok_body (fst (refreshAccessToken demo_host ?rq account_exchange)) \<noteq> None" by code_simp
  from ok_bodyD [OF this] obtain b w' where a: "refreshAccessToken demo_host ?rq account_exchange = (Inr (Respond 200 b), w')" by blast
  from refresh_single_use [OF account_ok a] obtain tok uid r r' new where "getRefreshFromRequest demo_host ?rq = Some tok"
    and r: "user_row (database account_exchange) uid = Some r" "user_row (database w') uid = Some r'"
      "r' ''refresh_tokens'' = JArr (rotated_tokens demo_host (r ''refresh_tokens'') tok new)" by blast
  moreover have "getRefreshFromRequest demo_host ?rq = Some ''rt''" by code_simp
  ultimately have "tok = ''rt''" "user_row account_db uid = Some r" by (simp_all add: account_exchange_def world.defs)
  with r show ?thesis by blast
qed

end
