(* ===== verification/Migration_Properties.thy ===== *)
theory Migration_Properties
  imports Migration Auth_Properties
begin

text \<open>
  What a move to another address does to the accounts: what it needs, what the account has
  afterwards, and which other account it removes.
\<close>

section \<open>The fields a move is about\<close>

definition CORE :: "string set" where
  "CORE = {''email'', ''previousEmail'', ''newEmailPending'', ''currentEmailVerified'', ''newEmailVerified'', ''isEmailVerified'',
     ''password'', ''provider'', ''providerId'', ''displayName''}"

definition same_core :: "row \<Rightarrow> row \<Rightarrow> bool" where
  "same_core r r' \<longleftrightarrow> (\<forall>f \<in> CORE. field_value r' f = field_value r f)"

definition only_row :: "string \<Rightarrow> db \<Rightarrow> db \<Rightarrow> bool" where
  "only_row uid d d' \<longleftrightarrow> (\<forall>v. v \<noteq> uid \<longrightarrow> user_row d' v = user_row d v)"

lemma core_known: "f \<in> CORE \<Longrightarrow> f \<in> set ALL_FIELDS \<and> f \<noteq> ''updatedAt'' \<and> f \<noteq> ''_id'' \<and> f \<notin> set JSONB_LIST"
proof -
  have "list_all (\<lambda>f. f \<in> set ALL_FIELDS \<and> f \<noteq> ''updatedAt'' \<and> f \<noteq> ''_id'' \<and> f \<notin> set JSONB_LIST)
    [''email'', ''previousEmail'', ''newEmailPending'', ''currentEmailVerified'', ''newEmailVerified'', ''isEmailVerified'',
     ''password'', ''provider'', ''providerId'', ''displayName'']" by code_simp
  then show "f \<in> CORE \<Longrightarrow> f \<in> set ALL_FIELDS \<and> f \<noteq> ''updatedAt'' \<and> f \<noteq> ''_id'' \<and> f \<notin> set JSONB_LIST"
    by (auto simp: CORE_def)
qed

lemma same_core_trans: "same_core r r' \<Longrightarrow> same_core r' r'' \<Longrightarrow> same_core r r''"
  by (simp add: same_core_def)

lemma only_row_trans: "only_row uid d d' \<Longrightarrow> only_row uid d' d'' \<Longrightarrow> only_row uid d d''"
  by (simp add: only_row_def)

lemma only_row_user: "only_user uid d d' \<Longrightarrow> only_row uid d d'"
  by (simp add: only_user_def only_row_def)

lemma only_row_same: "users d' = users d \<Longrightarrow> only_row uid d d'"
  by (simp add: only_row_def user_row_def)

section \<open>Documents\<close>

lemma getf_mark [simp]: "getf (markModified f u) g = getf u g"
  by (simp add: markModified_def getf_def)

lemma getf_mutate: "f \<noteq> ''_id'' \<Longrightarrow> getf (mutate f v u) g = (if (if g = ''_id'' then ''id'' else g) = f then v else getf u g)"
  by (simp add: mutate_def getf_def update_conv')

lemma modified_mark [simp]: "set (u_modified (markModified f u)) = insert f (set (u_modified u))"
  by (auto simp: markModified_def set_add_def)

lemma modified_setf [simp]: "set (u_modified (setf u f v)) = insert f (set (u_modified u))"
  by (auto simp: setf_def set_add_def)

lemma modified_mutate [simp]: "u_modified (mutate f v u) = u_modified u"
  by (simp add: mutate_def)

lemma isNew_simps [simp]: "u_isNew (markModified f u) = u_isNew u" "u_isNew (setf u f v) = u_isNew u" "u_isNew (mutate f v u) = u_isNew u"
  by (simp_all add: markModified_def setf_def mutate_def)

lemma modified_set_fields: "set (u_modified (set_fields kvs u)) = fst ` set kvs \<union> set (u_modified u)"
  unfolding set_fields_def by (induction kvs arbitrary: u) auto

lemma isNew_set_fields [simp]: "u_isNew (set_fields kvs u) = u_isNew u"
  unfolding set_fields_def by (induction kvs arbitrary: u) (auto split: prod.splits)

lemma getf_complete: "g \<noteq> ''migrationHistory'' \<Longrightarrow> getf (complete_history h a e u) g = getf u g"
  by (auto simp: complete_history_def ensure_history_def Let_def getf_mutate getf_setf)

lemma modified_complete: "set (u_modified (complete_history h a e u)) \<subseteq> insert ''migrationHistory'' (set (u_modified u))"
  by (auto simp: complete_history_def ensure_history_def Let_def)

lemma isNew_complete [simp]: "u_isNew (complete_history h a e u) = u_isNew u"
  by (simp add: complete_history_def ensure_history_def Let_def)

lemma isNew_loaded [simp]: "\<not> u_isNew (loaded r)"
  by (simp add: loaded_def new_User_def)

lemma write_fields_subset: "set (write_fields u) \<subseteq> set (u_modified u) \<union> set JSONB_LIST"
  by (auto simp: write_fields_def set_fold_add)

text \<open>A save leaves the fields that were not touched.\<close>

lemma save_row:
  assumes "db_ok d" and "save h uuid u d = (Inr u', d')" and "set (u_modified u) \<subseteq> set ALL_FIELDS" and "\<not> u_isNew u"
    and "getf u ''id'' = JStr uid" and "user_row d uid = Some r0"
  shows "\<exists>r. user_row d' uid = Some r \<and> u' = saved r u \<and> only_row uid d d' \<and> db_ok d'
    \<and> (\<forall>f \<in> CORE. field_value r f = (if f \<in> set (u_modified u) then stored h f (getf u f) else field_value r0 f))"
proof -
  from save_effect [OF assms(1,2) _ assms(5,6)] assms(3,4) obtain r where u': "u' = saved r u" and r: "user_row d' uid = Some r"
    and wr: "row_written h u r0 r" and o: "only_user uid d d'" "db_ok d'" by (auto simp: tracked_def)
  have "field_value r f = (if f \<in> set (u_modified u) then stored h f (getf u f) else field_value r0 f)" if "f \<in> CORE" for f
  proof -
    have "f \<in> set (write_fields u) \<longleftrightarrow> f \<in> set (u_modified u)"
      using core_known [OF that] that by (auto simp: write_fields_def set_fold_add clock_fields_def CORE_def)
    with wr core_known [OF that] show ?thesis by (auto simp: row_written_def)
  qed
  with u' r o only_row_user show ?thesis by blast
qed

lemma id_saved: "user_row d uid = Some r \<Longrightarrow> getf (saved r u) ''_id'' = JStr uid \<and> getf (saved r u) ''id'' = JStr uid"
  using user_row_Some [of d uid r] by (simp add: getf_id_field getf_saved field_columns)

section \<open>Steps after the move\<close>

lemma persist_keeps:
  assumes ok: "db_ok (database w)" and r: "user_row (database w) uid = Some r"
    and p: "persistSessionTokens h (JStr uid) acc t v w = (Inr (), w')"
  shows "\<exists>r'. user_row (database w') uid = Some r' \<and> same_core r r' \<and> only_row uid (database w) (database w') \<and> db_ok (database w')"
proof -
  let ?up = "no_update\<lparr>up_push := session_pushes h acc t\<rparr>"
  from p obtain x d1 b where up: "findByIdAndUpdate h (JStr uid) ?up (database w) = (Inr x, d1)"
    and pb: "publishTokenVersion h (JStr uid) v (w\<lparr>database := d1\<rparr>) = (Inr b, w')"
    by (auto simp: persistSessionTokens_def handler_simps)
  have ch: "set (changed_fields ?up) \<subseteq> {''refreshTokens'', ''activeAccessJtis''}"
    by (auto simp: changed_fields_def set_add_def no_update_def session_pushes_def Let_def)
  have k: "set (changed_fields ?up) \<subseteq> set ALL_FIELDS - {''id'', ''updatedAt''}" using ch by auto
  from update_effect [OF ok up r k] obtain r' where r': "user_row d1 uid = Some r'" "only_user uid (database w) d1" "db_ok d1"
    and f: "\<forall>f \<in> set ALL_FIELDS. f \<noteq> ''updatedAt'' \<longrightarrow>
         field_value r' f = (if f \<in> set (changed_fields ?up) then updated_field ?up r f else field_value r f)" by blast
  have d: "database w' = d1" using keepsD [OF keeps_publish [of "\<lambda>d. d = d1"] _ pb] by simp
  have "same_core r r'"
    unfolding same_core_def
  proof
    fix g assume g: "g \<in> CORE"
    then have "g \<notin> set (changed_fields ?up)" using ch by (auto simp: CORE_def)
    with f core_known [OF g] show "field_value r' g = field_value r g" by auto
  qed
  with r' show ?thesis by (auto simp: d only_row_user)
qed

lemma known_bio: "known (Some ''+bio'')" and bio_shows: "''id'' \<in> set (resolveFields (Some ''+bio''))"
  by (rule known_additive, code_simp) code_simp

lemma verify_bio_keeps:
  assumes ok: "db_ok (database w)" and r: "user_row (database w) uid = Some r"
    and p: "verify_bio h (JStr uid) pd w = (Inr (), w')"
  shows "\<exists>r'. user_row (database w') uid = Some r' \<and> same_core r r' \<and> only_row uid (database w) (database w') \<and> db_ok (database w')"
proof -
  from p obtain found d1 where f: "findById h (JStr uid) (Some ''+bio'') (database w) = (Inr found, d1)"
    and rest: "(case found of None \<Rightarrow> ret () | Some v \<Rightarrow>
        if getf v ''bio'' \<noteq> pd_bio pd
        then bindE (on_db (save h [] (markModified ''bio'' (setf v ''bio'' (or_else (pd_bio pd) (JStr [])))))) (\<lambda>_. ret ())
        else ret ()) (w\<lparr>database := d1\<rparr>) = (Inr (), w')"
    by (auto simp: verify_bio_def bindE_eq_Inr on_db_eq_Inr)
  from findById_effect [OF f known_bio] r have v: "found = Some (loaded (project (columns_of (Some ''+bio'')) r))"
    and s: "same_tables (database w) d1" by auto
  let ?v = "loaded (project (columns_of (Some ''+bio'')) r)"
  let ?u = "markModified ''bio'' (setf ?v ''bio'' (or_else (pd_bio pd) (JStr [])))"
  from ok r s have ok1: "db_ok d1" and r1: "user_row d1 uid = Some r" by (simp_all add: same_tables_ok same_tables_rows)
  have o1: "only_row uid (database w) d1" using s by (intro only_row_same) (simp add: same_tables_def)
  show ?thesis
  proof (cases "getf ?v ''bio'' \<noteq> pd_bio pd")
    case False
    with rest v have "w' = w\<lparr>database := d1\<rparr>" by (simp add: ret_Inr)
    with ok1 r1 o1 show ?thesis by (auto simp: same_core_def)
  next
    case True
    with rest v obtain u' d2 where sv: "save h [] ?u d1 = (Inr u', d2)" and w': "w' = w\<lparr>database := d2\<rparr>"
      by (auto simp: bindE_eq_Inr on_db_eq_Inr ret_Inr)
    have i: "getf ?u ''id'' = JStr uid"
      using id_projected [OF known_bio bio_shows, of r] user_row_Some [OF r] by (simp add: getf_setf)
    from save_row [OF ok1 sv _ _ i r1] obtain r2 where "user_row d2 uid = Some r2" "only_row uid d1 d2" "db_ok d2"
      and "\<forall>f \<in> CORE. field_value r2 f = (if f \<in> set (u_modified ?u) then stored h f (getf ?u f) else field_value r f)"
      by (auto simp: loaded_def new_User_def)
    then show ?thesis using only_row_trans [OF o1] by (auto simp: w' same_core_def CORE_def loaded_def new_User_def)
  qed
qed

section \<open>The move itself\<close>

lemma core_columns:
  "field_value r ''email'' = r ''email''" "field_value r ''previousEmail'' = r ''previous_email''"
  "field_value r ''newEmailPending'' = r ''new_email_pending''" "field_value r ''currentEmailVerified'' = r ''current_email_verified''"
  "field_value r ''newEmailVerified'' = r ''new_email_verified''" "field_value r ''isEmailVerified'' = r ''is_email_verified''"
  "field_value r ''password'' = r ''password''" "field_value r ''provider'' = r ''provider''"
  "field_value r ''providerId'' = r ''provider_id''" "field_value r ''displayName'' = r ''display_name''"
proof -
  have "map field_col [''email'', ''previousEmail'', ''newEmailPending'', ''currentEmailVerified'', ''newEmailVerified'', ''isEmailVerified'',
      ''password'', ''provider'', ''providerId'', ''displayName''] = [''email'', ''previous_email'', ''new_email_pending'',
      ''current_email_verified'', ''new_email_verified'', ''is_email_verified'', ''password'', ''provider'', ''provider_id'', ''display_name'']"
    by code_simp
  then show "field_value r ''email'' = r ''email''" "field_value r ''previousEmail'' = r ''previous_email''"
    "field_value r ''newEmailPending'' = r ''new_email_pending''" "field_value r ''currentEmailVerified'' = r ''current_email_verified''"
    "field_value r ''newEmailVerified'' = r ''new_email_verified''" "field_value r ''isEmailVerified'' = r ''is_email_verified''"
    "field_value r ''password'' = r ''password''" "field_value r ''provider'' = r ''provider''"
    "field_value r ''providerId'' = r ''provider_id''" "field_value r ''displayName'' = r ''display_name''"
    using core_known by (simp_all add: field_value_col CORE_def)
qed

text \<open>The row of an account before and after a move.\<close>

definition moved :: "string \<Rightarrow> row \<Rightarrow> row \<Rightarrow> bool" where
  "moved e r r' \<longleftrightarrow> r' ''email'' = JStr e \<and> r' ''previous_email'' = r ''email'' \<and> r' ''new_email_pending'' = JNull
     \<and> r' ''current_email_verified'' = JNull \<and> r' ''new_email_verified'' = JNull \<and> r' ''is_email_verified'' = JBool True
     \<and> r' ''password'' = r ''password'' \<and> r' ''provider'' = r ''provider'' \<and> r' ''provider_id'' = r ''provider_id''
     \<and> r' ''display_name'' = r ''display_name''"

lemma moved_core: "moved e r r' \<Longrightarrow> same_core r' r'' \<Longrightarrow> moved e r r''"
  by (simp add: moved_def same_core_def CORE_def core_columns)

lemma coerce_typed: "has_type ty v \<Longrightarrow> v \<noteq> JUndef \<Longrightarrow> ty \<noteq> TJson \<Longrightarrow> coerce ty v = Some v"
  by (cases ty; cases v) auto

lemma text_columns:
  assumes "db_ok d" and "user_row d uid = Some r" and "c \<in> {''email'', ''provider'', ''provider_id'', ''display_name''}"
  shows "has_type TText (r c) \<and> r c \<noteq> JUndef"
proof -
  from user_row_Some [OF assms(2)] db_ok_users [OF assms(1)] have "users_row_ok r" by blast
  from row_typed [OF this] assms(3) have "has_type TText (r c)" by (auto simp: users_types)
  then show ?thesis by (cases "r c") auto
qed

lemma stored_text:
  assumes "f \<in> {''email'', ''previousEmail'', ''provider'', ''providerId'', ''displayName''}" and "has_type TText v" and "v \<noteq> JUndef"
  shows "stored h f v = v"
proof -
  have "map field_col [''email'', ''previousEmail'', ''provider'', ''providerId'', ''displayName'']
    = [''email'', ''previous_email'', ''provider'', ''provider_id'', ''display_name'']" by code_simp
  then have c: "users_type (field_col f) = Some TText" using assms(1) by (auto simp: users_types)
  have "write_param h f v = v" using assms by (cases v) (auto simp: write_param_def JSONB_FIELDS_def)
  with c coerce_typed [OF assms(2,3)] show ?thesis by (simp add: stored_def)
qed

lemma version_filter_one:
  assumes "buildWhere (version_filter u) [] = Inr (cs, ps)" and "selects re cs ps r" and "getf u ''_id'' = JStr uid"
  shows "r ''id'' = JStr uid"
proof -
  have "map columnName [''_id'', ''tokenVersion''] = [Inr ''id'', Inr ''token_version'']" by code_simp
  with assms have "eq3 (r ''id'') (JStr uid) = T"
    by (auto simp: version_filter_def selects_def tand_eq_T eval_where_def push_def param_def JSONB_FIELDS_def split: sum.splits)
  then show ?thesis by (auto simp: eq3_def tri_def split: if_splits)
qed

lemma move_changes:
  "set (changed_fields (move_update h u e)) = {''previousEmail'', ''email'', ''migrationExpiry'', ''lastMigrationDate'', ''isEmailVerified'',
     ''newEmailPending'', ''migrationToken'', ''migrationTokenExpires'', ''currentEmailVerified'', ''newEmailVerified'',
     ''currentEmailToken'', ''newEmailToken'', ''tokenVersion''}"
  by (auto simp: changed_fields_def move_update_def no_update_def set_add_def)

lemma move_values:
  "val_of (updated_values (move_update h u e) vs) ''email'' = JStr e"
  "val_of (updated_values (move_update h u e) vs) ''previousEmail'' = getf u ''email''"
  "val_of (updated_values (move_update h u e) vs) ''isEmailVerified'' = JBool True"
  "f \<in> {''newEmailPending'', ''currentEmailVerified'', ''newEmailVerified''} \<Longrightarrow> val_of (updated_values (move_update h u e) vs) f = JUndef"
  by (auto simp: updated_values_def move_update_def no_update_def inc_field_def val_of_update)

lemma move_update_effect:
  assumes ok: "db_ok d" and r: "user_row d uid = Some r" and u: "getf u ''_id'' = JStr uid" "getf u ''email'' = r ''email''"
    and s: "findOneAndUpdate h (version_filter u) (move_update h u e) d = (Inr (Some x), d')"
  shows "\<exists>r1. x = loaded (star r1) \<and> user_row d' uid = Some r1 \<and> moved e r r1 \<and> only_row uid d d' \<and> db_ok d'"
proof -
  have k: "set (changed_fields (move_update h u e)) \<subseteq> set ALL_FIELDS - {''id'', ''updatedAt''}"
  proof -
    have "list_all (\<lambda>f. f \<in> set ALL_FIELDS) [''migrationToken'', ''migrationTokenExpires'']" by code_simp
    then show ?thesis by (auto simp: move_changes)
  qed
  have "\<exists>r0 r1. user_row d uid = Some r0 \<and> x = loaded (star r1) \<and> user_row d' uid = Some r1 \<and> only_user uid d d' \<and> db_ok d'
    \<and> (\<forall>f \<in> set ALL_FIELDS. f \<noteq> ''updatedAt'' \<longrightarrow> field_value r1 f
      = (if f \<in> set (changed_fields (move_update h u e)) then updated_field (move_update h u e) r0 f else field_value r0 f))"
    by (rule update_one_effect [OF ok s k]) (rule version_filter_one [OF _ _ u(1)])
  with r obtain r1 where x: "x = loaded (star r1)"
    and r1: "user_row d' uid = Some r1" "only_user uid d d'" "db_ok d'"
    and f: "\<forall>f \<in> set ALL_FIELDS. f \<noteq> ''updatedAt'' \<longrightarrow> field_value r1 f
      = (if f \<in> set (changed_fields (move_update h u e)) then updated_field (move_update h u e) r f else field_value r f)" by auto
  have c: "field_value r1 f = (if f \<in> set (changed_fields (move_update h u e)) then updated_field (move_update h u e) r f else field_value r f)"
    if "f \<in> CORE" for f using f core_known [OF that] by blast
  have cols: "map (\<lambda>f. users_type (field_col f)) [''email'', ''previousEmail'', ''isEmailVerified'', ''newEmailPending'', ''currentEmailVerified'',
      ''newEmailVerified''] = [Some TText, Some TText, Some TBool, Some TText, Some TBool, Some TBool]" by code_simp
  have "updated_field (move_update h u e) r ''email'' = JStr e" "updated_field (move_update h u e) r ''isEmailVerified'' = JBool True"
    "updated_field (move_update h u e) r ''previousEmail'' = r ''email''" "updated_field (move_update h u e) r ''newEmailPending'' = JNull"
    "updated_field (move_update h u e) r ''currentEmailVerified'' = JNull" "updated_field (move_update h u e) r ''newEmailVerified'' = JNull"
    using cols text_columns [OF ok r, of "''email''"] coerce_typed [of TText "r ''email''"]
    by (cases "r ''email''"; simp add: updated_field_def move_values update_param_def JSONB_FIELDS_def u(2))+
  then have "moved e r r1"
    using c [of "''email''"] c [of "''previousEmail''"] c [of "''newEmailPending''"] c [of "''currentEmailVerified''"]
      c [of "''newEmailVerified''"] c [of "''isEmailVerified''"] c [of "''password''"] c [of "''provider''"] c [of "''providerId''"]
      c [of "''displayName''"]
    by (simp add: moved_def CORE_def core_columns move_changes)
  with x r1 show ?thesis by (auto simp: only_row_user)
qed

lemma move_done_keeps:
  assumes ok: "db_ok (database w)" and r: "user_row (database w) uid = Some r" and i: "getf u ''_id'' = JStr uid"
    and m: "move_done h u w = (Inr (Respond 200 b), w')"
  shows "\<exists>r'. user_row (database w') uid = Some r' \<and> same_core r r' \<and> only_row uid (database w) (database w') \<and> db_ok (database w')"
proof -
  from m obtain acc t v and w1 :: "'a exchange" where p: "persistSessionTokens h (JStr uid) acc t v w = (Inr (), w1)"
    and c: "setAuthCookies h (h_fresh h 5) t w1 = (Inr (), w')"
    by (auto simp: move_done_def handler_simps i split: prod.splits)
  have "database w' = database w1" using keepsD [OF keeps_cookies(1) [of "\<lambda>d. d = database w1"] _ c] by simp
  with persist_keeps [OF ok r p] show ?thesis by simp
qed

lemma sync_keeps:
  assumes "db_ok d" and "syncIdentityIndexesFromUser h u d = (Inr (), d')"
  shows "user_row d' uid = user_row d uid" "only_row uid d d'" "db_ok d'"
  using sync_row_same [OF assms(2)] only_row_same [OF sync_users [OF assms(2)]] keepsD [OF keeps_sync assms] by simp_all

text \<open>The preserved fields are written back as they were.\<close>

lemma modified_complete_core: "f \<in> CORE \<Longrightarrow> f \<in> set (u_modified (complete_history h a e u)) \<longleftrightarrow> f \<in> set (u_modified u)"
  by (auto simp: complete_history_def ensure_history_def Let_def CORE_def)

lemma known_complete: "set (u_modified u) \<subseteq> set ALL_FIELDS \<Longrightarrow> set (u_modified (complete_history h a e u)) \<subseteq> set ALL_FIELDS"
proof -
  have "''migrationHistory'' \<in> set ALL_FIELDS" by code_simp
  then show "set (u_modified u) \<subseteq> set ALL_FIELDS \<Longrightarrow> ?thesis" using modified_complete [of h a e u] by auto
qed

definition preserves :: "PreservedUserData \<Rightarrow> row \<Rightarrow> bool" where
  "preserves pd r \<longleftrightarrow> pd_provider pd = r ''provider'' \<and> pd_providerId pd = r ''provider_id'' \<and> pd_displayName pd = r ''display_name''"

definition remade :: "'r host \<Rightarrow> js \<Rightarrow> string \<Rightarrow> PreservedUserData \<Rightarrow> user \<Rightarrow> user" where
  "remade h a e pd u = complete_history h a e (markModified ''avatar'' (markModified ''displayName'' (markModified ''bio''
     (applyUserData h u pd e))))"

lemma getf_applied:
  "f \<notin> {''bio'', ''avatar'', ''loginCount'', ''lastLogin'', ''_id''} \<Longrightarrow> getf (applyUserData h u pd e) f =
     (if f = ''displayName'' then pd_displayName pd else if f = ''provider'' then pd_provider pd
      else if f = ''providerId'' then pd_providerId pd else getf u f)"
  by (simp add: applyUserData_def set_fields_def getf_setf)

lemma modified_applied: "set (u_modified (applyUserData h u pd e)) =
    {''bio'', ''displayName'', ''avatar'', ''loginCount'', ''lastLogin'', ''provider'', ''providerId''} \<union> set (u_modified u)"
  by (auto simp: applyUserData_def modified_set_fields)

lemma isNew_applied: "u_isNew (applyUserData h u pd e) = u_isNew u"
  by (simp add: applyUserData_def)

lemma core_names: "f \<in> CORE \<Longrightarrow> f \<notin> {''bio'', ''avatar'', ''loginCount'', ''lastLogin'', ''_id'', ''migrationHistory''}"
  by (auto simp: CORE_def)

lemma remade_facts:
  "f \<in> CORE \<Longrightarrow> f \<in> set (u_modified (remade h a e pd u)) \<longleftrightarrow> f \<in> {''displayName'', ''provider'', ''providerId''} \<union> set (u_modified u)"
  "f \<in> CORE \<union> {''id''} \<Longrightarrow> getf (remade h a e pd u) f = (if f = ''displayName'' then pd_displayName pd else if f = ''provider'' then pd_provider pd
     else if f = ''providerId'' then pd_providerId pd else getf u f)"
  "set (u_modified u) \<subseteq> set ALL_FIELDS \<Longrightarrow> set (u_modified (remade h a e pd u)) \<subseteq> set ALL_FIELDS"
  "u_isNew (remade h a e pd u) = u_isNew u"
proof -
  show "f \<in> CORE \<Longrightarrow> f \<in> set (u_modified (remade h a e pd u)) \<longleftrightarrow> f \<in> {''displayName'', ''provider'', ''providerId''} \<union> set (u_modified u)"
    using core_names [of f] by (simp add: remade_def modified_complete_core modified_applied)
  show "f \<in> CORE \<union> {''id''} \<Longrightarrow> getf (remade h a e pd u) f = (if f = ''displayName'' then pd_displayName pd else if f = ''provider'' then pd_provider pd
     else if f = ''providerId'' then pd_providerId pd else getf u f)"
    using core_names [of f] by (cases "f = ''id''") (simp_all add: remade_def getf_complete getf_applied)
  have "list_all (\<lambda>f. f \<in> set ALL_FIELDS) [''bio'', ''displayName'', ''avatar'', ''loginCount'', ''lastLogin'', ''provider'', ''providerId'']"
    by code_simp
  then show "set (u_modified u) \<subseteq> set ALL_FIELDS \<Longrightarrow> set (u_modified (remade h a e pd u)) \<subseteq> set ALL_FIELDS"
    unfolding remade_def by (intro known_complete) (simp add: modified_applied)
  show "u_isNew (remade h a e pd u) = u_isNew u" by (simp add: remade_def isNew_applied)
qed

lemma save_remade:
  assumes ok: "db_ok d" and r1: "user_row d uid = Some r1" and mv: "moved e r r1"
    and rt: "db_ok d0" "user_row d0 uid = Some r" and pd: "preserves pd r"
    and s: "save h [] (remade h a e pd (loaded (star r1))) d = (Inr u3, d')"
  shows "\<exists>r2. user_row d' uid = Some r2 \<and> getf u3 ''_id'' = JStr uid \<and> moved e r r2 \<and> only_row uid d d' \<and> db_ok d'"
proof -
  let ?u = "remade h a e pd (loaded (star r1))"
  have i: "getf ?u ''id'' = JStr uid"
    using user_row_Some [OF r1] by (simp add: remade_facts getf_star JSONB_known(2) field_columns)
  from save_row [OF ok s _ _ i r1] obtain r2 where r2: "user_row d' uid = Some r2" "u3 = saved r2 ?u" "only_row uid d d'" "db_ok d'"
    and f: "\<forall>f \<in> CORE. field_value r2 f = (if f \<in> set (u_modified ?u) then stored h f (getf ?u f) else field_value r1 f)"
    by (auto simp: remade_facts loaded_def new_User_def)
  have g: "field_value r2 f = (if f \<in> {''displayName'', ''provider'', ''providerId''} then stored h f (getf ?u f) else field_value r1 f)"
    if "f \<in> CORE" for f using f that remade_facts(1) [OF that, of h a e pd "loaded (star r1)"] by simp
  have t: "stored h ''provider'' (r ''provider'') = r ''provider''" "stored h ''providerId'' (r ''provider_id'') = r ''provider_id''"
    "stored h ''displayName'' (r ''display_name'') = r ''display_name''"
    using text_columns [OF rt] by (simp_all add: stored_text)
  have "moved e r r2"
    using mv pd t g [of "''email''"] g [of "''previousEmail''"] g [of "''newEmailPending''"] g [of "''currentEmailVerified''"]
      g [of "''newEmailVerified''"] g [of "''isEmailVerified''"] g [of "''password''"] g [of "''provider''"] g [of "''providerId''"]
      g [of "''displayName''"]
    by (simp add: moved_def preserves_def CORE_def core_columns remade_facts)
  with r2 id_saved [OF r2(1)] show ?thesis by blast
qed

section \<open>The three ways to finalise\<close>

lemma find_filter_imp: "(\<And>x. P x \<Longrightarrow> Q x) \<Longrightarrow> find P (filter Q xs) = find P xs"
  by (induction xs) auto

lemma delete_row:
  assumes "findByIdAndDelete h (JStr vid) d = (Inr x, d')" and "v \<noteq> vid"
  shows "user_row d' v = user_row d v"
proof -
  from assms(1) have "users d' = filter (\<lambda>r. r ''id'' \<noteq> JStr vid) (users d)"
    by (auto simp: findByIdAndDelete_def bindE_eq_Inr ret_Inr delete_users_def query_def Let_def split: list.splits if_splits)
  with find_filter_imp [of "\<lambda>r. r ''id'' = JStr v" "\<lambda>r. r ''id'' \<noteq> JStr vid" "users d"] assms(2)
  show ?thesis by (simp add: user_row_def)
qed

lemma release_users: "releaseUserIdentityIndexes h uid d = (x, d') \<Longrightarrow> users d' = users d"
proof -
  have "keeps (\<lambda>d'. users d' = users d) (releaseUserIdentityIndexes h uid)"
    unfolding releaseUserIdentityIndexes_def by (intro keeps_bindE keeps_users_deleteMany keeps_ret)
  from keepsD [OF this] show "releaseUserIdentityIndexes h uid d = (x, d') \<Longrightarrow> users d' = users d" by blast
qed

definition moves :: "string \<Rightarrow> string set \<Rightarrow> string \<Rightarrow> row \<Rightarrow> db \<Rightarrow> db \<Rightarrow> bool" where
  "moves uid gone e r d d' \<longleftrightarrow> (\<exists>r'. user_row d' uid = Some r' \<and> moved e r r')
     \<and> (\<forall>v. v \<noteq> uid \<longrightarrow> v \<notin> gone \<longrightarrow> user_row d' v = user_row d v)"

lemma finalize_merge_moves:
  assumes ok: "db_ok (database w)" and r: "user_row (database w) uid = Some r"
    and cu: "getf cu ''_id'' = JStr uid" "getf cu ''email'' = r ''email''" "preserves (extractUserData cu) r"
    and x: "getf x ''_id'' = JStr vid" "vid \<noteq> uid"
    and m: "finalize_merge h cu e x w = (Inr (Respond 200 b), w')"
  shows "moves uid {vid} e r (database w) (database w')"
proof -
  let ?pd = "extractUserData cu"
  from m x obtain d1 y d2 u0 d3 a u3 d4 d5 and w6 :: "'a exchange" where
      rel: "releaseUserIdentityIndexes h (JStr vid) (database w) = (Inr (), d1)"
    and del: "findByIdAndDelete h (JStr vid) d1 = (Inr y, d2)"
    and up: "findOneAndUpdate h (version_filter cu) (move_update h cu e) d2 = (Inr (Some u0), d3)"
    and sv: "save h [] (remade h a e ?pd u0) d3 = (Inr u3, d4)"
    and sy: "syncIdentityIndexesFromUser h u3 d4 = (Inr (), d5)"
    and vb: "verify_bio h (getf u3 ''_id'') ?pd (w\<lparr>database := d5\<rparr>) = (Inr (), w6)"
    and dn: "move_done h u3 w6 = (Inr (Respond 200 b), w')"
    by (auto simp: finalize_merge_def remade_def Let_def stale_move_def handler_simps split: option.splits)
  have ok1: "db_ok d1" by (rule keepsD [OF keeps_index(5) ok rel])
  have ok2: "db_ok d2" by (rule keepsD [OF keeps_deletes ok1 del])
  have o2: "user_row d2 v = user_row (database w) v" if "v \<noteq> vid" for v
    using delete_row [OF del that] release_users [OF rel] by (simp add: user_row_def)
  with r x(2) have r2: "user_row d2 uid = Some r" by simp
  from move_update_effect [OF ok2 r2 cu(1,2) up] obtain r3 where u0: "u0 = loaded (star r3)" and r3: "user_row d3 uid = Some r3"
    "moved e r r3" and o3: "only_row uid d2 d3" and ok3: "db_ok d3" by blast
  from save_remade [OF ok3 r3 ok r cu(3) sv [unfolded u0]] obtain r4 where r4: "user_row d4 uid = Some r4" "moved e r r4"
    and i: "getf u3 ''_id'' = JStr uid" and o4: "only_row uid d3 d4" and ok4: "db_ok d4" by blast
  note s5 = sync_keeps [OF ok4 sy]
  from verify_bio_keeps [OF _ _ vb [unfolded i], of r4] s5 r4 obtain r6 where r6: "user_row (database w6) uid = Some r6" "same_core r4 r6"
    and o6: "only_row uid d5 (database w6)" and ok6: "db_ok (database w6)" by auto
  from move_done_keeps [OF ok6 r6(1) i dn] obtain r7 where r7: "user_row (database w') uid = Some r7" "same_core r6 r7"
    and o7: "only_row uid (database w6) (database w')" by blast
  have "moved e r r7" using moved_core [OF r4(2)] same_core_trans [OF r6(2) r7(2)] by blast
  moreover have "only_row uid d2 (database w')"
    using only_row_trans o3 o4 s5(2) o6 o7 by blast
  ultimately show ?thesis using r7(1) o2 by (auto simp: moves_def only_row_def)
qed

lemma finalize_same_moves:
  assumes ok: "db_ok (database w)" and r: "user_row (database w) uid = Some r"
    and cu: "getf cu ''_id'' = JStr uid" "getf cu ''email'' = r ''email''"
    and m: "finalize_same h cu e w = (Inr (Respond 200 b), w')"
  shows "moves uid {} e r (database w) (database w')"
proof -
  from m obtain u0 d3 a u3 d4 d5 where
      up: "findOneAndUpdate h (version_filter cu) (move_update h cu e) (database w) = (Inr (Some u0), d3)"
    and sv: "save h [] (complete_history h a e u0) d3 = (Inr u3, d4)"
    and sy: "syncIdentityIndexesFromUser h u3 d4 = (Inr (), d5)"
    and dn: "move_done h u3 (w\<lparr>database := d5\<rparr>) = (Inr (Respond 200 b), w')"
    by (auto simp: finalize_same_def stale_move_def handler_simps split: option.splits)
  from move_update_effect [OF ok r cu up] obtain r3 where u0: "u0 = loaded (star r3)" and r3: "user_row d3 uid = Some r3" "moved e r r3"
    and o3: "only_row uid (database w) d3" and ok3: "db_ok d3" by blast
  let ?u = "complete_history h a e (loaded (star r3))"
  have i3: "getf ?u ''id'' = JStr uid"
    using user_row_Some [OF r3(1)] by (simp add: getf_complete getf_star JSONB_known(2) field_columns)
  from save_row [OF ok3 sv [unfolded u0] _ _ i3 r3(1)] obtain r4 where r4: "user_row d4 uid = Some r4" "u3 = saved r4 ?u"
    and f: "\<forall>f \<in> CORE. field_value r4 f = (if f \<in> set (u_modified ?u) then stored h f (getf ?u f) else field_value r3 f)"
    and o4: "only_row uid d3 d4" and ok4: "db_ok d4"
    by (auto simp: known_complete)
  have c4: "same_core r3 r4" using f by (simp add: same_core_def modified_complete_core)
  note s5 = sync_keeps [OF ok4 sy]
  have i: "getf u3 ''_id'' = JStr uid" using id_saved [OF r4(1)] r4(2) by simp
  from move_done_keeps [OF _ _ i dn, of r4] s5 r4(1) obtain r7 where r7: "user_row (database w') uid = Some r7" "same_core r4 r7"
    and o7: "only_row uid d5 (database w')" by auto
  have "moved e r r7" using moved_core [OF r3(2)] same_core_trans [OF c4 r7(2)] by blast
  moreover have "only_row uid (database w) (database w')"
    using only_row_trans o3 o4 s5(2) o7 by blast
  ultimately show ?thesis using r7(1) by (auto simp: moves_def only_row_def)
qed

lemma known_reload: "known (Some reload_projection)" "known (Some (reload_projection @ '' +tokenVersion''))"
  by (rule known_additive, code_simp)+

lemma reload_shows:
  "list_all (\<lambda>f. f \<in> set (resolveFields (Some reload_projection))) [''id'', ''email'', ''provider'', ''providerId'', ''displayName'', ''newEmailPending'']"
  "list_all (\<lambda>f. f \<in> set (resolveFields (Some (reload_projection @ '' +tokenVersion''))))
     [''id'', ''email'', ''provider'', ''providerId'', ''displayName'', ''newEmailPending'']"
  by code_simp+

lemma reload_fields:
  assumes "p \<in> {reload_projection, reload_projection @ '' +tokenVersion''}"
    and "f \<in> {''id'', ''email'', ''provider'', ''providerId'', ''displayName'', ''newEmailPending''}"
  shows "getf (loaded (project (columns_of (Some p)) r)) f = field_value r f"
  using assms reload_shows known_reload by (auto intro!: getf_projected)

lemma reload_preserves:
  "p \<in> {reload_projection, reload_projection @ '' +tokenVersion''} \<Longrightarrow> preserves (extractUserData (loaded (project (columns_of (Some p)) r))) r"
  by (simp add: preserves_def extractUserData_def reload_fields core_columns)

lemma moved_user_remade:
  "moved_user h e u = set_fields [(''migrationToken'', JUndef), (''migrationTokenExpires'', JUndef), (''newEmailPending'', JUndef),
       (''currentEmailVerified'', JUndef), (''newEmailVerified'', JUndef), (''currentEmailToken'', JUndef), (''newEmailToken'', JUndef)]
     (remade h (getf u ''email'') e (extractUserData u) (set_fields [(''previousEmail'', getf u ''email''), (''email'', JStr e),
       (''migrationExpiry'', JDate (h_now h + 5 * DAY)), (''lastMigrationDate'', JDate (h_now h)), (''isEmailVerified'', JBool True)] u))"
  by (simp add: moved_user_def remade_def Let_def)

lemma moved_user_facts:
  "set (u_modified u) \<subseteq> set ALL_FIELDS \<Longrightarrow> set (u_modified (moved_user h e u)) \<subseteq> set ALL_FIELDS"
  "u_isNew (moved_user h e u) = u_isNew u" "getf (moved_user h e u) ''id'' = getf u ''id''"
  "f \<in> CORE \<Longrightarrow> f \<in> set (u_modified (moved_user h e u)) \<longleftrightarrow> f \<noteq> ''password'' \<or> f \<in> set (u_modified u)"
  "getf (moved_user h e u) ''email'' = JStr e" "getf (moved_user h e u) ''previousEmail'' = getf u ''email''"
  "getf (moved_user h e u) ''isEmailVerified'' = JBool True" "getf (moved_user h e u) ''newEmailPending'' = JUndef"
  "getf (moved_user h e u) ''currentEmailVerified'' = JUndef" "getf (moved_user h e u) ''newEmailVerified'' = JUndef"
  "getf (moved_user h e u) ''provider'' = getf u ''provider''" "getf (moved_user h e u) ''providerId'' = getf u ''providerId''"
  "getf (moved_user h e u) ''displayName'' = getf u ''displayName''"
proof -
  let ?u1 = "set_fields [(''previousEmail'', getf u ''email''), (''email'', JStr e),
       (''migrationExpiry'', JDate (h_now h + 5 * DAY)), (''lastMigrationDate'', JDate (h_now h)), (''isEmailVerified'', JBool True)] u"
  let ?u2 = "remade h (getf u ''email'') e (extractUserData u) ?u1"
  have l: "list_all (\<lambda>f. f \<in> set ALL_FIELDS) [''migrationToken'', ''migrationTokenExpires'']" by code_simp
  show "set (u_modified (moved_user h e u)) \<subseteq> set ALL_FIELDS" if "set (u_modified u) \<subseteq> set ALL_FIELDS"
    using remade_facts(3) [of ?u1 h "getf u ''email''" e "extractUserData u"] that l
    by (simp add: moved_user_remade modified_set_fields)
  show "u_isNew (moved_user h e u) = u_isNew u" by (simp add: moved_user_remade remade_facts)
  show "f \<in> CORE \<Longrightarrow> f \<in> set (u_modified (moved_user h e u)) \<longleftrightarrow> f \<noteq> ''password'' \<or> f \<in> set (u_modified u)"
    by (simp add: moved_user_remade modified_set_fields remade_facts) (auto simp: CORE_def)
  have g: "getf (moved_user h e u) f = (if f \<in> {''newEmailPending'', ''currentEmailVerified'', ''newEmailVerified''} then JUndef else getf ?u2 f)"
    if "f \<in> insert ''id'' CORE" for f
    using that by (auto simp: moved_user_remade set_fields_def getf_setf CORE_def)
  have g1: "getf ?u1 ''email'' = JStr e" "getf ?u1 ''previousEmail'' = getf u ''email''" "getf ?u1 ''isEmailVerified'' = JBool True"
    "getf ?u1 ''id'' = getf u ''id''" by (simp_all add: set_fields_def getf_setf)
  show "getf (moved_user h e u) ''id'' = getf u ''id''" "getf (moved_user h e u) ''email'' = JStr e"
    "getf (moved_user h e u) ''previousEmail'' = getf u ''email''"
    "getf (moved_user h e u) ''isEmailVerified'' = JBool True" "getf (moved_user h e u) ''newEmailPending'' = JUndef"
    "getf (moved_user h e u) ''currentEmailVerified'' = JUndef" "getf (moved_user h e u) ''newEmailVerified'' = JUndef"
    "getf (moved_user h e u) ''provider'' = getf u ''provider''" "getf (moved_user h e u) ''providerId'' = getf u ''providerId''"
    "getf (moved_user h e u) ''displayName'' = getf u ''displayName''"
    by (simp_all add: g remade_facts CORE_def g1 extractUserData_def)
qed

lemma stored_blank: "stored h ''newEmailPending'' JUndef = JNull" "stored h ''currentEmailVerified'' JUndef = JNull"
  "stored h ''newEmailVerified'' JUndef = JNull" "stored h ''isEmailVerified'' (JBool b) = JBool b"
proof -
  have c: "map (\<lambda>f. users_type (field_col f)) [''newEmailPending'', ''currentEmailVerified'', ''newEmailVerified'', ''isEmailVerified'']
    = [Some TText, Some TBool, Some TBool, Some TBool]" by code_simp
  show "stored h ''newEmailPending'' JUndef = JNull" "stored h ''currentEmailVerified'' JUndef = JNull"
    "stored h ''newEmailVerified'' JUndef = JNull" "stored h ''isEmailVerified'' (JBool b) = JBool b"
    using c by (simp_all add: stored_def write_param_def JSONB_FIELDS_def)
qed

lemma save_moved:
  assumes ok: "db_ok d" and r: "user_row d uid = Some r" and u: "u = loaded (project (columns_of (Some reload_projection)) r)"
    and s: "save h [] (moved_user h e u) d = (Inr u', d')"
  shows "\<exists>r1. user_row d' uid = Some r1 \<and> getf u' ''_id'' = JStr uid \<and> moved e r r1 \<and> only_row uid d d' \<and> db_ok d'"
proof -
  have i: "getf (moved_user h e u) ''id'' = JStr uid"
    using user_row_Some [OF r] by (simp add: moved_user_facts u reload_fields field_columns)
  from save_row [OF ok s _ _ i r] obtain r1 where r1: "user_row d' uid = Some r1" "u' = saved r1 (moved_user h e u)" "only_row uid d d'" "db_ok d'"
    and f: "\<forall>f \<in> CORE. field_value r1 f = (if f \<in> set (u_modified (moved_user h e u)) then stored h f (getf (moved_user h e u) f) else field_value r f)"
    by (auto simp: moved_user_facts u)
  have g: "field_value r1 f = (if f \<noteq> ''password'' then stored h f (getf (moved_user h e u) f) else field_value r f)" if "f \<in> CORE" for f
    using f that by (simp add: moved_user_facts u)
  have "moved e r r1"
    using g [of "''email''"] g [of "''previousEmail''"] g [of "''newEmailPending''"] g [of "''currentEmailVerified''"]
      g [of "''newEmailVerified''"] g [of "''isEmailVerified''"] g [of "''password''"] g [of "''provider''"] g [of "''providerId''"]
      g [of "''displayName''"] text_columns [OF ok r]
    by (simp add: moved_def CORE_def moved_user_facts u reload_fields core_columns stored_text stored_blank)
  with r1 id_saved [OF r1(1)] show ?thesis by blast
qed

lemma known_shown: "known (Some ''+bio +avatar +displayName'')" "known (Some fresh_projection)"
  by (rule known_additive, code_simp)+

lemma finalize_fresh_moves:
  assumes ok: "db_ok (database w)" and r: "user_row (database w) uid = Some r"
    and m: "finalize_fresh h (JStr uid) e w = (Inr (Respond 200 b), w')"
  shows "moves uid {} e r (database w) (database w')"
proof -
  let ?u = "loaded (project (columns_of (Some reload_projection)) r)"
  from m obtain u0 d1 where f: "findById h (JStr uid) (Some reload_projection) (database w) = (Inr (Some u0), d1)"
    by (auto simp: finalize_fresh_def handler_simps split: option.splits)
  from findById_Some [OF f known_reload(1)] r have u0: "u0 = ?u" and s1: "same_tables (database w) d1" by auto
  from m f obtain u d2 d3 x d4 acc t and w3 w5 w6 :: "'a exchange" where
      sv: "save h [] (moved_user h e u0) d1 = (Inr u, d2)" and sy: "syncIdentityIndexesFromUser h u d2 = (Inr (), d3)"
    and vb: "verify_bio h (getf u ''_id'') (extractUserData u0) (w\<lparr>database := d3\<rparr>) = (Inr (), w3)"
    and g: "findById h (getf u ''_id'') (Some ''+bio +avatar +displayName'') (database w3) = (Inr x, d4)"
    and ps: "persistSessionTokens h (getf u ''_id'') acc t (version_of u) (w3\<lparr>database := d4\<rparr>) = (Inr (), w5)"
    and co: "setAuthCookies h (h_fresh h 5) t w5 = (Inr (), w6)"
    and fi: "\<exists>y. findById h (getf u ''_id'') (Some fresh_projection) (database w6) = (Inr y, database w')"
    by (auto simp: finalize_fresh_def handler_simps case_prod_beta split: option.splits)
  from ok r s1 have ok1: "db_ok d1" and r1: "user_row d1 uid = Some r" by (simp_all add: same_tables_ok same_tables_rows)
  from save_moved [OF ok1 r1 u0 sv] obtain r2 where r2: "user_row d2 uid = Some r2" "moved e r r2" and i: "getf u ''_id'' = JStr uid"
    and o2: "only_row uid d1 d2" and ok2: "db_ok d2" by blast
  note s3 = sync_keeps [OF ok2 sy]
  from verify_bio_keeps [OF _ _ vb [unfolded i], of r2] s3 r2 obtain r3 where r3: "user_row (database w3) uid = Some r3" "same_core r2 r3"
    and o3: "only_row uid d3 (database w3)" and ok3: "db_ok (database w3)" by auto
  have s4: "same_tables (database w3) d4" using findById_effect [OF g known_shown(1)] by blast
  from persist_keeps [OF _ _ ps [unfolded i], of r3] r3(1) ok3 s4 obtain r5 where r5: "user_row (database w5) uid = Some r5" "same_core r3 r5"
    and o5: "only_row uid d4 (database w5)" by (auto simp: same_tables_ok same_tables_rows)
  have "database w6 = database w5" using keepsD [OF keeps_cookies(1) [of "\<lambda>d. d = database w5"] _ co] by simp
  with fi findById_effect known_shown(2) have s6: "same_tables (database w5) (database w')" by metis
  have "moved e r r5" using moved_core [OF r2(2)] same_core_trans [OF r3(2) r5(2)] by blast
  moreover have "only_row uid (database w) (database w')"
    using only_row_trans only_row_same s1 o2 s3(2) o3 s4 o5 s6 by (metis same_tables_def)
  ultimately show ?thesis using r5(1) s6 by (auto simp: moves_def only_row_def same_tables_rows)
qed

section \<open>The finalisation as a whole\<close>

text \<open>The index names the account that a finalised move deletes.\<close>

lemma primary_lookup:
  assumes "findUserIdByPrimaryEmail h e d = (Inr (Some i), d')"
  shows "owner d (emailKey h PrimaryEmail e) = Some i"
proof -
  have "calmed (findUserIdByPrimaryEmail h e)"
    unfolding findUserIdByPrimaryEmail_def identity_findOne_def
    by (auto intro!: calmed_bindE calmed_statements split: sum.splits prod.splits)
  from calmedD [OF this assms] identity_findOne_key [of "calm d" h "emailKey h PrimaryEmail e"] show ?thesis
    by (auto simp: findUserIdByPrimaryEmail_def bindE_eq_Inr ret_Inr owner_def rowToDoc_def split: option.splits if_splits)
qed

lemma finalize_failed_500: "finalize_failed h uid ex w \<noteq> (Inr (Respond 200 b), w')"
  by (auto simp: finalize_failed_def handler_simps split: exn.splits if_splits)

lemma catchE_200:
  assumes "catchE m k w = (Inr out, w')" and "\<And>ex w1. k ex w1 \<noteq> (Inr out, w')"
  shows "m w = (Inr out, w')"
  using assms by (auto simp: catchE_def split: prod.splits sum.splits)

lemma default_id: "getf (loaded (project (columns_of None) r)) ''_id'' = r ''id''"
proof -
  have "''id'' \<in> set (resolveFields None)" by code_simp
  with id_projected [OF known_default] show ?thesis by (simp add: getf_id_field)
qed

lemma find_optional_effect:
  assumes "find_optional h j None w = (Inr x, w')"
  shows "same_tables (database w) (database w') \<and> (\<forall>v. x = Some v \<longrightarrow>
    (\<exists>a q. j = Some a \<and> user_row (database w) (js_String a) = Some q \<and> v = loaded (project (columns_of None) q)))"
proof (cases "\<exists>a. j = Some a \<and> truthy a")
  case True
  then obtain a where j: "j = Some a" "truthy a" by blast
  with assms obtain d where "findById h a None (database w) = (Inr x, d)" "database w' = d"
    by (auto simp: find_optional_def on_db_eq_Inr)
  from findById_effect [OF this(1) known_default] this(2) j show ?thesis by (cases "user_row (database w) (js_String a)") auto
next
  case False
  with assms have "x = None" "w' = w" by (auto simp: find_optional_def ret_Inr split: option.splits)
  then show ?thesis by (simp add: same_tables_def)
qed

lemma reload_ok:
  assumes "(if P then status_json 400 b1 else bindE (on_db m) (\<lambda>found. case found of
       None \<Rightarrow> status_json 404 b2 | Some u \<Rightarrow> if Q u then stale_move else k u)) w = (Inr (Respond 200 b), w')"
  shows "\<exists>u d. m (database w) = (Inr (Some u), d) \<and> k u (w\<lparr>database := d\<rparr>) = (Inr (Respond 200 b), w')"
proof -
  from assms obtain found d where 1: "m (database w) = (Inr found, d)" and 2: "(case found of
       None \<Rightarrow> status_json 404 b2 | Some u \<Rightarrow> if Q u then stale_move else k u) (w\<lparr>database := d\<rparr>) = (Inr (Respond 200 b), w')"
    by (auto simp: handler_simps split: if_splits)
  then show ?thesis by (cases found) (auto simp: stale_move_def handler_simps split: if_splits)
qed

definition holders :: "'r host \<Rightarrow> string \<Rightarrow> db \<Rightarrow> string set" where
  "holders h e d = {v. \<exists>i. owner d (emailKey h PrimaryEmail e) = Some i \<and> js_String i = v}"

lemma finalize_internal_moves:
  assumes ok: "db_ok (database w)" and i: "getf u ''_id'' = JStr uid"
    and m: "finalizeMigrationInternal h u w = (Inr (Respond 200 b), w')"
  shows "\<exists>r e. user_row (database w) uid = Some r \<and> r ''new_email_pending'' = JStr e
    \<and> moves uid (holders h (toLowerCase e) (database w)) (toLowerCase e) r (database w) (database w')"
proof -
  let ?p = "reload_projection @ '' +tokenVersion''"
  note run = catchE_200 [OF m [unfolded finalizeMigrationInternal_def] finalize_failed_500]
  from reload_ok [OF run [unfolded i]] obtain cu d1 where f: "findById h (JStr uid) (Some ?p) (database w) = (Inr (Some cu), d1)"
    and rest: "(case lower_js (getf cu ''newEmailPending'') of
       JStr (c # s) \<Rightarrow>
         bindE (on_db (findUserIdByPrimaryEmail h (c # s))) (\<lambda>existingUserId.
         bindE (find_optional h existingUserId None) (\<lambda>existing. case existing of
            Some x \<Rightarrow> if js_String (getf x ''_id'') \<noteq> js_String (getf cu ''_id'') then finalize_merge h cu (c # s) x else finalize_same h cu (c # s)
          | None \<Rightarrow> finalize_fresh h (JStr uid) (c # s)))
     | _ \<Rightarrow> status_json 400 (failed ''No pending migration'')) (w\<lparr>database := d1\<rparr>) = (Inr (Respond 200 b), w')"
    by blast
  from rest obtain e c s where n: "getf cu ''newEmailPending'' = JStr e" "toLowerCase e = c # s"
    by (auto simp: lower_js_def handler_simps split: js.split_asm list.split_asm)
  from rest [unfolded n lower_js_def] n obtain j d2 x and w3 :: "'a exchange" where
      l: "findUserIdByPrimaryEmail h (c # s) d1 = (Inr j, d2)"
    and o: "find_optional h j None (w\<lparr>database := d2\<rparr>) = (Inr x, w3)"
    and k: "(case x of Some x \<Rightarrow> if js_String (getf x ''_id'') \<noteq> js_String (getf cu ''_id'') then finalize_merge h cu (c # s) x
         else finalize_same h cu (c # s) | None \<Rightarrow> finalize_fresh h (JStr uid) (c # s)) w3 = (Inr (Respond 200 b), w')"
    by (auto simp: bindE_eq_Inr on_db_eq_Inr)
  from findById_Some [OF f known_reload(2)] obtain r where r: "user_row (database w) uid = Some r"
    and cu: "cu = loaded (project (columns_of (Some ?p)) r)" and s1: "same_tables (database w) d1" by auto
  have s2: "same_tables d1 d2" by (rule lookup_same(2) [OF l])
  have s3: "same_tables d2 (database w3) \<and> (\<forall>v. x = Some v \<longrightarrow> (\<exists>a q. j = Some a \<and> user_row d2 (js_String a) = Some q
      \<and> v = loaded (project (columns_of None) q)))"
    using find_optional_effect [OF o] by simp
  have s: "same_tables (database w) (database w3)" using s1 s2 s3 by (simp add: same_tables_def)
  from ok r s have ok3: "db_ok (database w3)" and r3: "user_row (database w3) uid = Some r" by (simp_all add: same_tables_ok same_tables_rows)
  have c: "getf cu ''_id'' = JStr uid" "getf cu ''email'' = r ''email''" "preserves (extractUserData cu) r"
    using user_row_Some [OF r] by (simp_all add: cu getf_id_field reload_fields core_columns reload_preserves field_columns)
  have "\<exists>gone. gone \<subseteq> holders h (c # s) (database w) \<and> moves uid gone (c # s) r (database w3) (database w')"
  proof (cases x)
    case None
    with k have "finalize_fresh h (JStr uid) (c # s) w3 = (Inr (Respond 200 b), w')" by simp
    from finalize_fresh_moves [OF ok3 r3 this] show ?thesis by blast
  next
    case (Some v)
    from s3 Some obtain a q where j: "j = Some a" and q: "user_row d2 (js_String a) = Some q" "v = loaded (project (columns_of None) q)" by blast
    have v: "getf v ''_id'' = JStr (js_String a)" using user_row_Some [OF q(1)] by (simp add: q(2) default_id)
    have "js_String a \<in> holders h (c # s) (database w)"
      using primary_lookup [OF l [unfolded j]] s1 by (auto simp: holders_def owner_def identity_row_def same_tables_def)
    moreover have "moves uid (if js_String a = uid then {} else {js_String a}) (c # s) r (database w3) (database w')"
    proof (cases "js_String a = uid")
      case True
      with k Some v c(1) have "finalize_same h cu (c # s) w3 = (Inr (Respond 200 b), w')" by simp
      from finalize_same_moves [OF ok3 r3 c(1,2) this] True show ?thesis by simp
    next
      case False
      with k Some v c(1) have "finalize_merge h cu (c # s) v w3 = (Inr (Respond 200 b), w')" by simp
      from finalize_merge_moves [OF ok3 r3 c v False this] False show ?thesis by simp
    qed
    ultimately show ?thesis by (rule_tac x = "if js_String a = uid then {} else {js_String a}" in exI) simp
  qed
  with s have "moves uid (holders h (c # s) (database w)) (c # s) r (database w) (database w')"
    by (auto simp: moves_def same_tables_rows)
  moreover have "r ''new_email_pending'' = JStr e" using n by (simp add: cu reload_fields core_columns)
  ultimately show ?thesis using r n(2) by auto
qed

lemma known_flags: "known (Some ''+currentEmailVerified +newEmailVerified +newEmailPending'')"
  by (rule known_additive) code_simp

lemma flags_shown:
  assumes "f \<in> {''id'', ''currentEmailVerified'', ''newEmailVerified'', ''newEmailPending''}"
  shows "getf (loaded (project (columns_of (Some ''+currentEmailVerified +newEmailVerified +newEmailPending'')) r)) f = field_value r f"
proof -
  have "list_all (\<lambda>f. f \<in> set (resolveFields (Some ''+currentEmailVerified +newEmailVerified +newEmailPending'')))
     [''id'', ''currentEmailVerified'', ''newEmailVerified'', ''newEmailPending'']" by code_simp
  with assms show ?thesis by (auto intro!: getf_projected known_flags)
qed

lemma holders_same: "same_tables d d' \<Longrightarrow> holders h e d' = holders h e d"
  by (simp add: holders_def owner_def identity_row_def same_tables_def)

text \<open>
  (C5) A manual finalisation that answers 200 was made for an account with a pending address and
  both addresses verified. Afterwards the account has the pending address in lower case as its
  verified e-mail, the address it had before as its previous one, nothing pending, and the password,
  provider and display name it had. The only other account that can have changed is the one the index names as
  the holder of the new address, which the move replaces.
\<close>

theorem migration_moves_account:
  assumes ok: "db_ok (database w)" and u: "rq_user rq = Some u" "getf u ''_id'' = JStr uid"
    and m: "finalizeMigration h rq w = (Inr (Respond 200 b), w')"
  shows "\<exists>r r' e. user_row (database w) uid = Some r \<and> r ''new_email_pending'' = JStr e
    \<and> r ''current_email_verified'' = JBool True \<and> r ''new_email_verified'' = JBool True
    \<and> user_row (database w') uid = Some r' \<and> moved (toLowerCase e) r r'
    \<and> (\<forall>v. v \<noteq> uid \<longrightarrow> user_row (database w') v \<noteq> user_row (database w) v
          \<longrightarrow> (\<exists>i. owner (database w) (emailKey h PrimaryEmail (toLowerCase e)) = Some i \<and> js_String i = v))"
proof -
  from m u obtain x d1 where f: "findById h (JStr uid) (Some ''+currentEmailVerified +newEmailVerified +newEmailPending'') (database w) = (Inr (Some x), d1)"
    and v: "getf x ''currentEmailVerified'' = JBool True" "getf x ''newEmailVerified'' = JBool True"
    and k: "finalizeMigrationInternal h x (w\<lparr>database := d1\<rparr>) = (Inr (Respond 200 b), w')"
    by (auto simp: finalizeMigration_def handler_simps split: option.splits if_splits)
  from findById_Some [OF f known_flags] obtain r where r: "user_row (database w) uid = Some r" and s: "same_tables (database w) d1"
    and x: "x = loaded (project (columns_of (Some ''+currentEmailVerified +newEmailVerified +newEmailPending'')) r)" by auto
  have i: "getf x ''_id'' = JStr uid" using user_row_Some [OF r] by (simp add: x getf_id_field flags_shown field_columns)
  from finalize_internal_moves [OF _ i k] ok r s obtain e where e: "r ''new_email_pending'' = JStr e"
    and mv: "moves uid (holders h (toLowerCase e) d1) (toLowerCase e) r d1 (database w')"
    by (auto simp: same_tables_ok same_tables_rows)
  have "r ''current_email_verified'' = JBool True" "r ''new_email_verified'' = JBool True"
    using v by (simp_all add: x flags_shown core_columns)
  with r e mv s show ?thesis by (auto simp: moves_def holders_same same_tables_rows) (auto simp: holders_def)
qed

section \<open>Example\<close>

text \<open>The account u1 changes the spelling of its address.\<close>

definition moving_account :: row where
  "moving_account = (\<lambda>c. JNull)(''id'' := JStr ''u1'', ''email'' := JStr ''a@b.c'', ''display_name'' := JStr ''N'', ''login_count'' := JNum 0,
     ''provider'' := JStr ''local'', ''is_email_verified'' := JBool True, ''refresh_tokens'' := JArr [], ''active_access_jtis'' := JArr [],
     ''migration_history'' := JArr [], ''token_version'' := JNum 0, ''new_email_pending'' := JStr ''A@b.c'',
     ''current_email_verified'' := JBool True, ''new_email_verified'' := JBool True, ''created_at'' := JDate 0, ''updated_at'' := JDate 0)"

definition moving_exchange :: "mem exchange" where
  "moving_exchange = account_exchange\<lparr>database := account_db\<lparr>users := [moving_account]\<rparr>\<rparr>"

definition moving_request :: request where
  "moving_request = (posted [])\<lparr>rq_user := Some (loaded (star moving_account))\<rparr>"

abbreviation moving_user :: user where
  "moving_user \<equiv> loaded (project (columns_of (Some (reload_projection @ '' +tokenVersion''))) moving_account)"

lemma moving_ok: "db_ok (database moving_exchange)"
  by code_simp

lemma moving_run: "ok_body (fst (finalize_same demo_host moving_user ''a@b.c'' moving_exchange)) \<noteq> None"
  by code_simp

lemma moving_row: "user_row (database moving_exchange) ''u1'' = Some moving_account" "faults (database moving_exchange) = []"
  by (simp_all add: moving_exchange_def user_row_def account_db_def moving_account_def)

lemma moving_holder: "findUserIdByPrimaryEmail demo_host ''a@b.c'' (database moving_exchange) = (Inr (Some (JStr ''u1'')), database moving_exchange)"
proof -
  have "default_row identity_columns 0 ''expires_at'' = JNull" by code_simp
  then show ?thesis
    by (simp add: findUserIdByPrimaryEmail_def bindE_def identity_findOne_key moving_row ret_apply isActive_def rowToDoc_def
        identity_row_def moving_exchange_def account_db_def)
qed

lemma finalizeMigration_reduces:
  assumes "rq_user rq = Some u" "getf u ''_id'' = JStr uid" "faults (database w) = []" "user_row (database w) uid = Some r"
    and "r ''new_email_pending'' = JStr e" "toLowerCase e = c # s" "r ''current_email_verified'' = JBool True" "r ''new_email_verified'' = JBool True"
    and "findUserIdByPrimaryEmail h (c # s) (database w) = (Inr (Some (JStr uid)), database w)" "uid \<noteq> []"
    and "finalize_same h (loaded (project (columns_of (Some (reload_projection @ '' +tokenVersion''))) r)) (c # s) w = (Inr (Respond 200 b), w')"
  shows "finalizeMigration h rq w = (Inr (Respond 200 b), w')"
proof -
  let ?x = "loaded (project (columns_of (Some ''+currentEmailVerified +newEmailVerified +newEmailPending'')) r)"
  let ?y = "loaded (project (columns_of (Some (reload_projection @ '' +tokenVersion''))) r)"
  have "list_all (\<lambda>p. ''tokenVersion'' \<in> set (resolveFields (Some p)))
    [''+currentEmailVerified +newEmailVerified +newEmailPending'', reload_projection @ '' +tokenVersion'']" by code_simp
  then have t: "getf ?x ''tokenVersion'' = getf ?y ''tokenVersion''"
    using getf_projected [OF known_flags] getf_projected [OF known_reload(2)] by simp
  have x: "getf ?x ''_id'' = JStr uid" "getf ?x ''newEmailPending'' = JStr e" "getf ?x ''currentEmailVerified'' = JBool True"
    "getf ?x ''newEmailVerified'' = JBool True" and y: "getf ?y ''newEmailPending'' = JStr e" "getf ?y ''_id'' = JStr uid"
    using user_row_Some [OF assms(4)] assms(5,7,8) by (simp_all add: getf_id_field flags_shown reload_fields core_columns field_columns)
  have e: "e \<noteq> []" using assms(6) by (auto simp: toLowerCase_def)
  have "finalizeMigrationInternal h ?x w = (Inr (Respond 200 b), w')"
    using assms(3,4,6,9,10,11) user_row_Some [OF assms(4)] t e
    by (simp add: finalizeMigrationInternal_def catchE_def bindE_def on_db_def findById_row known_reload(2) known_default x y lower_js_def
        find_optional_def default_id)
  then show ?thesis
    using assms(1-4) e by (simp add: finalizeMigration_def or_500_def catchE_def bindE_def on_db_def findById_row known_flags x)
qed

theorem migration_moves_account_witness:
  "\<exists>(w' :: mem exchange) r'. user_row (database w') ''u1'' = Some r' \<and> r' ''email'' = JStr ''a@b.c''
     \<and> r' ''previous_email'' = JStr ''a@b.c'' \<and> r' ''new_email_pending'' = JNull"
proof -
  have u: "rq_user moving_request = Some (loaded (star moving_account))" by (simp add: moving_request_def)
  have f: "map moving_account [''id'', ''email'', ''new_email_pending'', ''current_email_verified'', ''new_email_verified'']
    = [JStr ''u1'', JStr ''a@b.c'', JStr ''A@b.c'', JBool True, JBool True]" "toLowerCase ''A@b.c'' = ''a@b.c''" by code_simp+
  have i: "getf (loaded (star moving_account)) ''_id'' = JStr ''u1''" using f by (simp add: getf_id)
  from ok_bodyD [OF moving_run] obtain b w' where "finalize_same demo_host moving_user ''a@b.c'' moving_exchange = (Inr (Respond 200 b), w')"
    by blast
  then have a: "finalizeMigration demo_host moving_request moving_exchange = (Inr (Respond 200 b), w')"
    using f moving_row moving_holder by (intro finalizeMigration_reduces [OF u i]) simp_all
  from migration_moves_account [OF moving_ok u i a] moving_row f show ?thesis by (auto simp: moved_def intro!: exI [of _ w'])
qed

end
