(* ===== verification/Api_Client.thy ===== *)
theory Api_Client
  imports UAM_Prelude
begin

text \<open>
  The browser side (\<open>src/uam-frontend/src\<close>): the request client \<open>api/client.ts\<close> with its
  double-submit token, the authentication context \<open>context/AuthContext.tsx\<close>, and the helpers
  \<open>utils/recentAccounts.ts\<close>, \<open>utils/security.ts\<close> and \<open>utils/pkce.ts\<close>. What the page keeps is the
  record \<open>page\<close>; the network with its servers and cookies is the parameter type \<open>'n\<close>. An operation
  runs to its end before the next one starts, so a promise is settled when it is looked at.
\<close>

section \<open>The browser\<close>

record fetch_request =
  fr_method :: string
  fr_url :: string
  fr_headers :: "(string \<times> js) list"
  fr_body :: "rtext option"

text \<open>A response: status, content type, and the value of its body when that is JSON.\<close>

type_synonym response = "int \<times> string \<times> js option"

datatype fetch_result = NetworkError | Response response

text \<open>
  What the page takes from the browser: \<open>fetch\<close>, the readable cookies, \<open>decodeURIComponent\<close>
  (\<open>None\<close> when it throws), the clock, random bytes, SHA-256, and protocol and host of a URL
  (\<open>None\<close> when it does not parse), and the text of URL parameters.
\<close>

record 'n web =
  w_fetch :: "fetch_request \<Rightarrow> 'n \<Rightarrow> fetch_result \<times> 'n"
  w_cookie :: "'n \<Rightarrow> string"
  w_decode :: "string \<Rightarrow> string option"
  w_now :: ms
  w_random :: "nat list"
  w_digest :: "string \<Rightarrow> nat list"
  w_url :: "string \<Rightarrow> (string \<times> string) option"
  w_query :: "(string \<times> string) list \<Rightarrow> string"
  API_BASE_URL :: string

record 'n page =
  pg_accessToken :: js
  pg_csrfToken :: js
  pg_csrfInit :: "(exn + unit) option"
  pg_localStorage :: "string \<Rightarrow> rtext option"
  pg_sessionStorage :: "string \<Rightarrow> string option"
  pg_location :: string
  pg_user :: js
  pg_isLoading :: bool
  network :: 'n

definition new_page :: "(string \<Rightarrow> rtext option) \<Rightarrow> 'n \<Rightarrow> 'n page" where
  "new_page store n = \<lparr>pg_accessToken = JNull, pg_csrfToken = JNull, pg_csrfInit = None,
     pg_localStorage = store(''accessToken'' := None, ''refreshToken'' := None), pg_sessionStorage = (\<lambda>_. None),
     pg_location = [], pg_user = JNull, pg_isLoading = True, network = n\<rparr>"

text \<open>\<open>JSON.stringify\<close> of an object leaves out undefined properties.\<close>

definition stringify :: "(string \<times> js) list \<Rightarrow> rtext" where
  "stringify fs = Json (JObj (filter (\<lambda>(k, v). v \<noteq> JUndef) fs))"

definition send :: "'n web \<Rightarrow> fetch_request \<Rightarrow> ('n page, response) act" where
  "send wb rq p = (case w_fetch wb rq (network p) of
      (NetworkError, n) \<Rightarrow> (Inl type_error, p\<lparr>network := n\<rparr>)
    | (Response r, n) \<Rightarrow> (Inr r, p\<lparr>network := n\<rparr>))"

section \<open>The double-submit token\<close>

text \<open>\<open>/(?:^|;\s*)uam_csrf=([^;]+)/\<close> on the cookie string.\<close>

definition csrf_here :: "string \<Rightarrow> string option" where
  "csrf_here s = (if take 9 s = ''uam_csrf='' \<and> takeWhile (\<lambda>c. c \<noteq> CHR '';'') (drop 9 s) \<noteq> []
     then Some (takeWhile (\<lambda>c. c \<noteq> CHR '';'') (drop 9 s)) else None)"

fun csrf_scan :: "string \<Rightarrow> string option" where
  "csrf_scan [] = None"
| "csrf_scan (c # s) =
     (case (if c = CHR '';'' then csrf_here (dropWhile is_space s) else None) of
        Some v \<Rightarrow> Some v
      | None \<Rightarrow> csrf_scan s)"

definition csrf_match :: "string \<Rightarrow> string option" where
  "csrf_match s = (case csrf_here s of Some v \<Rightarrow> Some v | None \<Rightarrow> csrf_scan s)"

definition getCsrfFromCookie :: "'n web \<Rightarrow> ('n page, js) act" where
  "getCsrfFromCookie wb p = (case csrf_match (w_cookie wb (network p)) of
      None \<Rightarrow> (Inr JNull, p)
    | Some v \<Rightarrow> (case w_decode wb v of None \<Rightarrow> (Inl (Error ''URIError''), p) | Some s \<Rightarrow> (Inr (JStr s), p)))"

definition parseJsonResponse :: "response \<Rightarrow> ('n page, js) act" where
  "parseJsonResponse r = (case r of (status, contentType, body) \<Rightarrow>
     if \<not> str_includes contentType ''application/json'' then raise (Error ''Unexpected server response'')
     else (case body of None \<Rightarrow> raise (Error ''SyntaxError'') | Some v \<Rightarrow> ret v))"

definition response_ok :: "response \<Rightarrow> bool" where
  "response_ok r = (case r of (status, _) \<Rightarrow> 200 \<le> status \<and> status \<le> 299)"

definition csrf_bootstrap :: "'n web \<Rightarrow> ('n page, unit) act" where
  "csrf_bootstrap wb =
     bindE (send wb \<lparr>fr_method = ''GET'', fr_url = API_BASE_URL wb @ ''/auth/csrf'', fr_headers = [], fr_body = None\<rparr>) (\<lambda>r.
     bindE (parseJsonResponse r) (\<lambda>data.
     bindE (field_of data ''csrfToken'') (\<lambda>t.
     bindE (if nullish t then getCsrfFromCookie wb else ret t) (\<lambda>v.
       modify (\<lambda>p. p\<lparr>pg_csrfToken := v\<rparr>)))))"

text \<open>The promise is kept when it fails, too.\<close>

definition start_csrf :: "'n web \<Rightarrow> ('n page, unit) act" where
  "start_csrf wb p = (case pg_csrfInit p of
      Some _ \<Rightarrow> (Inr (), p)
    | None \<Rightarrow> (case csrf_bootstrap wb p of (r, p') \<Rightarrow> (Inr (), p'\<lparr>pg_csrfInit := Some r\<rparr>)))"

definition await_csrf :: "('n page, unit) act" where
  "await_csrf p = (case pg_csrfInit p of Some (Inl e) \<Rightarrow> (Inl e, p) | _ \<Rightarrow> (Inr (), p))"

definition ensureCsrf :: "'n web \<Rightarrow> ('n page, unit) act" where
  "ensureCsrf wb =
     bindE (gets pg_csrfToken) (\<lambda>t. if truthy t then ret () else thenE (start_csrf wb) await_csrf)"

definition forget_csrf :: "('n page, unit) act" where
  "forget_csrf = modify (\<lambda>p. p\<lparr>pg_csrfToken := JNull, pg_csrfInit := None\<rparr>)"

definition syncCsrf :: "'n web \<Rightarrow> ('n page, unit) act" where
  "syncCsrf wb = thenE forget_csrf (ensureCsrf wb)"

definition sessionHeaders :: "'n web \<Rightarrow> ('n page, (string \<times> js) list) act" where
  "sessionHeaders wb =
     bindE (gets pg_csrfToken) (\<lambda>t.
     bindE (if nullish t then getCsrfFromCookie wb else ret t) (\<lambda>csrf.
       ret (if truthy csrf then [(''X-CSRF-Token'', csrf)] else [])))"

section \<open>Requests\<close>

text \<open>\<open>method\<close> is in upper case wherever it is given.\<close>

definition api_request :: "'n web \<Rightarrow> string \<Rightarrow> string \<Rightarrow> rtext option \<Rightarrow> bool \<Rightarrow> ('n page, js) act" where
  "api_request wb endpoint httpMethod body skipCsrf =
     thenE (if \<not> skipCsrf \<and> httpMethod \<noteq> ''GET'' \<and> httpMethod \<noteq> ''HEAD'' then ensureCsrf wb else ret ())
     (bindE (sessionHeaders wb) (\<lambda>hs.
      bindE (gets pg_accessToken) (\<lambda>token.
      bindE (send wb \<lparr>fr_method = httpMethod, fr_url = API_BASE_URL wb @ endpoint,
          fr_headers = [(''Content-Type'', JStr ''application/json'')] @ hs
            @ (if truthy token then [(''Authorization'', JStr (''Bearer '' @ js_String token))] else []),
          fr_body = body\<rparr>) (\<lambda>r.
      bindE (parseJsonResponse r) (\<lambda>data.
        if response_ok r then ret data else raise (Thrown data))))))"

definition setTokens :: "js \<Rightarrow> ('n page, unit) act" where
  "setTokens t = modify (\<lambda>p. p\<lparr>pg_accessToken := t\<rparr>)"

definition clearTokens :: "('n page, unit) act" where
  "clearTokens = modify (\<lambda>p. p\<lparr>pg_accessToken := JNull\<rparr>)"

definition take_token :: "js \<Rightarrow> ('n page, unit) act" where
  "take_token response = bindE (field_of response ''accessToken'') (\<lambda>t. if truthy t then setTokens t else ret ())"

definition api_post :: "'n web \<Rightarrow> string \<Rightarrow> (string \<times> js) list \<Rightarrow> ('n page, js) act" where
  "api_post wb endpoint fs = api_request wb endpoint ''POST'' (Some (stringify fs)) False"

text \<open>A request that opens a session: its access token is kept, and the server has replaced the cookie.\<close>

definition session_opening :: "'n web \<Rightarrow> ('n page, js) act \<Rightarrow> ('n page, js) act" where
  "session_opening wb m = bindE m (\<lambda>response. thenE (take_token response) (thenE (syncCsrf wb) (ret response)))"

definition api_checkEmail :: "'n web \<Rightarrow> js \<Rightarrow> ('n page, js) act" where
  "api_checkEmail wb email = api_post wb ''/auth/check-email'' [(''email'', email)]"

definition api_register :: "'n web \<Rightarrow> js \<Rightarrow> js \<Rightarrow> js \<Rightarrow> ('n page, js) act" where
  "api_register wb email password displayName = session_opening wb
     (api_post wb ''/auth/register'' [(''email'', email), (''password'', password), (''displayName'', displayName)])"

definition api_login :: "'n web \<Rightarrow> js \<Rightarrow> js \<Rightarrow> ('n page, js) act" where
  "api_login wb email password = session_opening wb (api_post wb ''/auth/login'' [(''email'', email), (''password'', password)])"

definition api_redeemEmailLink :: "'n web \<Rightarrow> js \<Rightarrow> ('n page, js) act" where
  "api_redeemEmailLink wb code = api_post wb ''/auth/redeem-email-link'' [(''code'', code)]"

definition api_verifyEmail :: "'n web \<Rightarrow> js \<Rightarrow> js \<Rightarrow> ('n page, js) act" where
  "api_verifyEmail wb formToken password =
     bindE (api_post wb ''/auth/verify-email'' [(''formToken'', formToken), (''password'', password)]) (\<lambda>response.
       thenE (take_token response) (ret response))"

definition api_resendVerification :: "'n web \<Rightarrow> js \<Rightarrow> ('n page, js) act" where
  "api_resendVerification wb email = api_post wb ''/auth/resend-verification'' [(''email'', email)]"

definition api_getVerificationStatus :: "'n web \<Rightarrow> js \<Rightarrow> ('n page, js) act" where
  "api_getVerificationStatus wb pollToken = api_post wb ''/auth/verification-status'' [(''pollToken'', pollToken)]"

definition api_forgotPassword :: "'n web \<Rightarrow> js \<Rightarrow> ('n page, js) act" where
  "api_forgotPassword wb email = api_post wb ''/auth/forgot-password'' [(''email'', email)]"

definition api_resetPassword :: "'n web \<Rightarrow> js \<Rightarrow> js \<Rightarrow> ('n page, js) act" where
  "api_resetPassword wb formToken password = api_post wb ''/auth/reset-password'' [(''formToken'', formToken), (''password'', password)]"

text \<open>A request with the session headers only.\<close>

definition session_post :: "'n web \<Rightarrow> string \<Rightarrow> (string \<times> js) list \<Rightarrow> ('n page, response) act" where
  "session_post wb endpoint fs =
     bindE (sessionHeaders wb) (\<lambda>hs.
       send wb \<lparr>fr_method = ''POST'', fr_url = API_BASE_URL wb @ endpoint,
         fr_headers = [(''Content-Type'', JStr ''application/json'')] @ hs, fr_body = Some (stringify fs)\<rparr>)"

definition api_refreshToken :: "'n web \<Rightarrow> ('n page, js) act" where
  "api_refreshToken wb =
     thenE (ensureCsrf wb)
     (bindE (gets pg_accessToken) (\<lambda>token.
      session_opening wb (bindE (session_post wb ''/auth/refresh-token'' [(''accessToken'', if nullish token then JUndef else token)]) (\<lambda>r.
        bindE (parseJsonResponse r) (\<lambda>data. if response_ok r then ret data else raise (Thrown data))))))"

definition api_logout :: "'n web \<Rightarrow> ('n page, unit) act" where
  "api_logout wb =
     bindE (gets pg_accessToken) (\<lambda>token.
     thenE (ensureCsrf wb)
     (thenE (catchE (bindE (session_post wb ''/auth/logout'' [(''accessToken'', token)]) (\<lambda>_. ret ())) (\<lambda>_. ret ()))
     (thenE clearTokens forget_csrf)))"

definition api_getMe :: "'n web \<Rightarrow> ('n page, js) act" where
  "api_getMe wb = api_request wb ''/auth/me'' ''GET'' None False"

definition api_initiateMigration :: "'n web \<Rightarrow> js \<Rightarrow> js \<Rightarrow> bool \<Rightarrow> ('n page, js) act" where
  "api_initiateMigration wb password newEmail confirmOverride = api_post wb ''/auth/migrate/init''
     [(''password'', password), (''newEmail'', newEmail), (''confirmOverride'', if confirmOverride then JStr ''true'' else JUndef)]"

definition api_verifyCurrentEmail :: "'n web \<Rightarrow> js \<Rightarrow> ('n page, js) act" where
  "api_verifyCurrentEmail wb formToken = api_post wb ''/auth/migrate/verify-current'' [(''formToken'', formToken)]"

definition api_verifyNewEmail :: "'n web \<Rightarrow> js \<Rightarrow> ('n page, js) act" where
  "api_verifyNewEmail wb formToken = api_post wb ''/auth/migrate/verify-new'' [(''formToken'', formToken)]"

definition api_getMigrationStatus :: "'n web \<Rightarrow> ('n page, js) act" where
  "api_getMigrationStatus wb = api_request wb ''/auth/migrate/status'' ''GET'' None False"

definition api_finalizeMigration :: "'n web \<Rightarrow> ('n page, js) act" where
  "api_finalizeMigration wb = api_request wb ''/auth/migrate/finalize'' ''POST'' None False"

definition api_resendMigrationEmails :: "'n web \<Rightarrow> ('n page, js) act" where
  "api_resendMigrationEmails wb = api_request wb ''/auth/migrate/resend'' ''POST'' None False"

definition api_getMigrationHistory :: "'n web \<Rightarrow> ('n page, js) act" where
  "api_getMigrationHistory wb = api_request wb ''/auth/migrate/history'' ''GET'' None False"

definition api_updateBio :: "'n web \<Rightarrow> js \<Rightarrow> ('n page, js) act" where
  "api_updateBio wb bio = api_request wb ''/auth/profile/bio'' ''PUT'' (Some (stringify [(''bio'', bio)])) False"

definition api_getOAuthProviders :: "'n web \<Rightarrow> ('n page, js) act" where
  "api_getOAuthProviders wb =
     bindE (api_request wb ''/auth/oauth/providers'' ''GET'' None True) (\<lambda>data.
     bindE (field_of data ''google'') (\<lambda>google. ret (JObj [(''google'', google), (''github'', js_get data ''github'')])))"

definition api_exchangeOAuthCode :: "'n web \<Rightarrow> js \<Rightarrow> js \<Rightarrow> js \<Rightarrow> ('n page, js) act" where
  "api_exchangeOAuthCode wb code st codeVerifier = session_opening wb
     (api_post wb ''/auth/oauth/exchange'' [(''code'', code), (''state'', st), (''codeVerifier'', codeVerifier)])"

section \<open>Proof keys for OAuth\<close>

definition b64_char :: "nat \<Rightarrow> char" where
  "b64_char n = ''ABCDEFGHIJKLMNOPQRSTUVWXYZabcdefghijklmnopqrstuvwxyz0123456789+/'' ! (n mod 64)"

fun btoa :: "nat list \<Rightarrow> string" where
  "btoa [] = []"
| "btoa [a] = [b64_char (a div 4), b64_char (a mod 4 * 16), CHR ''='', CHR ''='']"
| "btoa [a, b] = [b64_char (a div 4), b64_char (a mod 4 * 16 + b div 16), b64_char (b mod 16 * 4), CHR ''='']"
| "btoa (a # b # c # bs) =
     b64_char (a div 4) # b64_char (a mod 4 * 16 + b div 16) # b64_char (b mod 16 * 4 + c div 64) # b64_char (c mod 64) # btoa bs"

definition url_char :: "char \<Rightarrow> char" where
  "url_char c = (if c = CHR ''+'' then CHR ''-'' else if c = CHR ''/'' then CHR ''_'' else c)"

definition strip_padding :: "string \<Rightarrow> string" where
  "strip_padding s = rev (dropWhile (\<lambda>c. c = CHR ''='') (rev s))"

definition base64UrlEncode :: "nat list \<Rightarrow> string" where
  "base64UrlEncode bytes = strip_padding (map url_char (btoa bytes))"

definition generateCodeVerifier :: "'n web \<Rightarrow> string" where
  "generateCodeVerifier wb = base64UrlEncode (w_random wb)"

definition generateCodeChallenge :: "'n web \<Rightarrow> string \<Rightarrow> string" where
  "generateCodeChallenge wb verifier = base64UrlEncode (w_digest wb verifier)"

definition OAUTH_VERIFIER_KEY :: string where "OAUTH_VERIFIER_KEY = ''uam_oauth_code_verifier''"
definition OAUTH_STATE_KEY :: string where "OAUTH_STATE_KEY = ''uam_oauth_state''"

text \<open>\<open>email\<close> and \<open>prompt\<close> are the optional fields of the options.\<close>

definition api_startOAuth :: "'n web \<Rightarrow> string \<Rightarrow> string option \<Rightarrow> string option \<Rightarrow> ('n page, unit) act" where
  "api_startOAuth wb provider email prompt =
     (let codeVerifier = generateCodeVerifier wb; codeChallenge = generateCodeChallenge wb codeVerifier
      in bindE (api_post wb ''/auth/oauth/prepare'' [(''codeChallenge'', JStr codeChallenge)]) (\<lambda>prepared.
         bindE (thenE (modify (\<lambda>p. p\<lparr>pg_sessionStorage := (pg_sessionStorage p)(OAUTH_VERIFIER_KEY \<mapsto> codeVerifier)\<rparr>))
                 (field_of prepared ''state'')) (\<lambda>st.
           modify (\<lambda>p. p\<lparr>pg_sessionStorage := (pg_sessionStorage p)(OAUTH_STATE_KEY \<mapsto> js_String st),
             pg_location := API_BASE_URL wb @ ''/auth/'' @ (if provider = ''google'' then ''google'' else ''github'') @ ''?''
               @ w_query wb ((''state'', js_String st)
                   # (if provider = ''google''
                      then (case or_undef email of None \<Rightarrow> [] | Some e \<Rightarrow> [(''login_hint'', e)])
                           @ (case or_undef prompt of None \<Rightarrow> [] | Some q \<Rightarrow> [(''prompt'', q)])
                      else []))\<rparr>))))"

section \<open>Recent accounts\<close>

definition RECENT_ACCOUNTS_KEY :: string where "RECENT_ACCOUNTS_KEY = ''recent_accounts''"
definition MAX_RECENT_ACCOUNTS :: nat where "MAX_RECENT_ACCOUNTS = 5"

text \<open>Only these functions write the key, so an entry has a numeric \<open>lastUsed\<close>.\<close>

definition lastUsed :: "js \<Rightarrow> int" where
  "lastUsed a = (case js_get a ''lastUsed'' of JNum n \<Rightarrow> n | _ \<Rightarrow> 0)"

definition getRecentAccounts :: "'n page \<Rightarrow> js list" where
  "getRecentAccounts p = (case pg_localStorage p RECENT_ACCOUNTS_KEY of
      None \<Rightarrow> []
    | Some t \<Rightarrow> if \<not> text_nonempty t then []
               else (case JSON_parse t of Some (JArr xs) \<Rightarrow> sort_key (\<lambda>a. - lastUsed a) xs | _ \<Rightarrow> []))"

definition put_recent :: "js list \<Rightarrow> 'n page \<Rightarrow> 'n page" where
  "put_recent xs p = p\<lparr>pg_localStorage := (pg_localStorage p)(RECENT_ACCOUNTS_KEY \<mapsto> Json (JArr xs))\<rparr>"

text \<open>\<open>splice(findIndex(P), 1)\<close>.\<close>

definition drop_first :: "('a \<Rightarrow> bool) \<Rightarrow> 'a list \<Rightarrow> 'a list" where
  "drop_first P xs = takeWhile (\<lambda>x. \<not> P x) xs @ drop 1 (dropWhile (\<lambda>x. \<not> P x) xs)"

definition recent_entry :: "ms \<Rightarrow> (string \<times> js) list \<Rightarrow> js" where
  "recent_entry now user = JObj (filter (\<lambda>(k, v). v \<noteq> JUndef) (user @ [(''lastUsed'', JNum now)]))"

definition saveRecentAccount :: "ms \<Rightarrow> (string \<times> js) list \<Rightarrow> 'n page \<Rightarrow> 'n page" where
  "saveRecentAccount now user p =
     (let accounts = drop_first (\<lambda>a. js_get a ''email'' = js_get (JObj user) ''email'') (getRecentAccounts p)
      in put_recent (take MAX_RECENT_ACCOUNTS (recent_entry now user # accounts)) p)"

definition clearAllRecentAccounts :: "'n page \<Rightarrow> 'n page" where
  "clearAllRecentAccounts p = p\<lparr>pg_localStorage := (pg_localStorage p)(RECENT_ACCOUNTS_KEY := None)\<rparr>"

definition removeRecentAccount :: "js \<Rightarrow> 'n page \<Rightarrow> 'n page" where
  "removeRecentAccount email p = put_recent (filter (\<lambda>a. js_get a ''email'' \<noteq> email) (getRecentAccounts p)) p"

section \<open>Checks on the page\<close>

definition ui_lower :: "char \<Rightarrow> bool" where
  "ui_lower c \<longleftrightarrow> 97 \<le> (of_char c :: nat) \<and> (of_char c :: nat) \<le> 122"

definition validatePassword :: "string \<Rightarrow> string option" where
  "validatePassword password =
     (if password = [] then Some ''Password is required''
      else if length password < 8 then Some ''Password must be at least 8 characters''
      else if 128 < length password then Some ''Password is too long''
      else if \<not> list_ex is_upper password then Some ''Password must contain an uppercase letter''
      else if \<not> list_ex ui_lower password then Some ''Password must contain a lowercase letter''
      else if \<not> list_ex is_digit password then Some ''Password must contain a number''
      else if \<not> list_ex (\<lambda>c. \<not> is_upper c \<and> \<not> ui_lower c \<and> \<not> is_digit c) password
      then Some ''Password must contain a special character''
      else None)"

definition ALLOWED_AVATAR_HOSTS :: "string list" where
  "ALLOWED_AVATAR_HOSTS = [''lh3.googleusercontent.com'', ''avatars.githubusercontent.com'', ''secure.gravatar.com'',
     ''www.gravatar.com'', ''gravatar.com'']"

definition isSafeAvatarUrl :: "'n web \<Rightarrow> js \<Rightarrow> bool" where
  "isSafeAvatarUrl wb url \<longleftrightarrow> truthy url \<and> (case w_url wb (js_String url) of
      None \<Rightarrow> False
    | Some (protocol, hostname) \<Rightarrow> protocol = ''https:'' \<and> hostname \<in> set ALLOWED_AVATAR_HOSTS)"

definition sanitizeAvatarUrl :: "'n web \<Rightarrow> js \<Rightarrow> js" where
  "sanitizeAvatarUrl wb url = (if isSafeAvatarUrl wb url then url else JUndef)"

section \<open>The authentication context\<close>

definition setUser :: "js \<Rightarrow> ('n page, unit) act" where
  "setUser u = modify (\<lambda>p. p\<lparr>pg_user := u\<rparr>)"

definition remember :: "'n web \<Rightarrow> js \<Rightarrow> ('n page, unit) act" where
  "remember wb u = modify (saveRecentAccount (w_now wb)
     [(''email'', js_get u ''email''), (''displayName'', js_get u ''displayName''),
      (''avatar'', sanitizeAvatarUrl wb (js_get u ''avatar'')),
      (''provider'', if truthy (js_get u ''provider'') then js_get u ''provider'' else JStr ''local'')])"

definition signed_off :: "('n page, unit) act" where
  "signed_off = thenE (setUser JNull) clearTokens"

text \<open>\<open>response.success && response.user\<close>.\<close>

definition names_user :: "js \<Rightarrow> ('n page, bool) act" where
  "names_user response = bindE (field_of response ''success'') (\<lambda>s. ret (truthy s \<and> truthy (js_get response ''user'')))"

text \<open>The second attempt, after the token or the first answer was refused.\<close>

definition retry_user :: "'n web \<Rightarrow> ('n page, unit) act" where
  "retry_user wb = catchE
     (bindE (api_refreshToken wb) (\<lambda>_.
      bindE (api_getMe wb) (\<lambda>response.
      bindE (names_user response) (\<lambda>named.
        if named then setUser (js_get response ''user'') else signed_off))))
     (\<lambda>_. signed_off)"

definition refreshUser :: "'n web \<Rightarrow> ('n page, unit) act" where
  "refreshUser wb = catchE
     (bindE (gets pg_accessToken) (\<lambda>token.
      bindE (if truthy token then ret True
             else catchE (bindE (api_refreshToken wb) (\<lambda>_. ret True)) (\<lambda>_. thenE (setUser JNull) (ret False))) (\<lambda>go.
        if \<not> go then ret ()
        else bindE (api_getMe wb) (\<lambda>response.
             bindE (names_user response) (\<lambda>named.
               if named then thenE (setUser (js_get response ''user'')) (remember wb (js_get response ''user''))
               else signed_off)))))
     (\<lambda>_. retry_user wb)"

definition initAuth :: "'n web \<Rightarrow> ('n page, unit) act" where
  "initAuth wb = thenE (catchE (thenE (ensureCsrf wb) (refreshUser wb)) (\<lambda>_. ret ()))
     (modify (\<lambda>p. p\<lparr>pg_isLoading := False\<rparr>))"

definition ctx_login :: "'n web \<Rightarrow> js \<Rightarrow> js \<Rightarrow> ('n page, js) act" where
  "ctx_login wb email password =
     bindE (api_login wb email password) (\<lambda>response.
     bindE (names_user response) (\<lambda>named.
     thenE (if named then thenE (setUser (js_get response ''user'')) (remember wb (js_get response ''user'')) else ret ())
       (ret response)))"

definition ctx_register :: "'n web \<Rightarrow> js \<Rightarrow> js \<Rightarrow> js \<Rightarrow> ('n page, js) act" where
  "ctx_register wb email password displayName =
     bindE (api_register wb email password displayName) (\<lambda>response.
     thenE (if truthy (js_get response ''success'') \<and> truthy (js_get response ''accessToken'')
            then thenE (setTokens (js_get response ''accessToken''))
                   (if truthy (js_get response ''user'')
                    then thenE (setUser (js_get response ''user'')) (remember wb (js_get response ''user'')) else ret ())
            else ret ())
       (ret response))"

definition ctx_logout :: "'n web \<Rightarrow> ('n page, unit) act" where
  "ctx_logout wb = thenE (api_logout wb) (thenE (setUser JNull) (modify clearAllRecentAccounts))"

definition setUserFromOAuth :: "'n web \<Rightarrow> js \<Rightarrow> ('n page, unit) act" where
  "setUserFromOAuth wb token = thenE (setTokens token) (refreshUser wb)"

definition isAuthenticated :: "'n page \<Rightarrow> bool" where
  "isAuthenticated p = truthy (pg_user p)"

section \<open>What the page guarantees\<close>

text \<open>A computation that returns whatever happens.\<close>

definition returns :: "('w, 'a) act \<Rightarrow> bool" where
  "returns m \<longleftrightarrow> (\<forall>w. \<exists>a w'. m w = (Inr a, w'))"

lemma returnsI: "(\<And>w. \<exists>a w'. m w = (Inr a, w')) \<Longrightarrow> returns m"
  by (simp add: returns_def)

lemma returns_ret [intro]: "returns (ret a)"
  and returns_modify [intro]: "returns (modify f)"
  and returns_gets [intro]: "returns (gets g)"
  by (simp_all add: returns_def act_simps)

lemma returns_bindE [intro]: "returns m \<Longrightarrow> (\<And>a. returns (k a)) \<Longrightarrow> returns (bindE m k)"
  unfolding returns_def bindE_eq_Inr by blast

lemma returns_thenE [intro]: "returns m \<Longrightarrow> returns n \<Longrightarrow> returns (thenE m n)"
  unfolding thenE_def by blast

lemma returns_catchE [intro]: "(\<And>e. returns (h e)) \<Longrightarrow> returns (catchE m h)"
  by (rule returnsI) (fastforce simp: returns_def catchE_def split: prod.splits sum.splits)

lemmas returns_intros = returns_ret returns_modify returns_gets returns_bindE returns_thenE returns_catchE

lemma signed_off_returns [intro]: "returns signed_off"
  unfolding signed_off_def setUser_def clearTokens_def by blast

lemma refreshUser_returns: "returns (refreshUser wb)"
  unfolding refreshUser_def retry_user_def by (intro returns_intros signed_off_returns)

lemma initAuth_returns: "\<exists>p'. initAuth wb p = (Inr (), p') \<and> \<not> pg_isLoading p'"
proof -
  have "returns (catchE (thenE (ensureCsrf wb) (refreshUser wb)) (\<lambda>_. ret ()))" by (intro returns_intros)
  then obtain a q where "catchE (thenE (ensureCsrf wb) (refreshUser wb)) (\<lambda>_. ret ()) p = (Inr a, q)" unfolding returns_def by blast
  then show ?thesis by (simp add: initAuth_def act_simps)
qed

text \<open>
  Starting the page always ends: whatever the network does, the bootstrap of the session returns
  and the page leaves its loading state; a refresh of the user never throws.
\<close>

theorem page_start_returns:
  "(\<exists>p'. initAuth wb p = (Inr (), p') \<and> \<not> pg_isLoading p') \<and> (\<exists>p'. refreshUser wb p = (Inr (), p'))"
  using initAuth_returns [of wb p] refreshUser_returns [of wb] by (auto simp: returns_def)

text \<open>
  (C11) A failed bootstrap of the double-submit token is final. When the first request for the token
  meets a network error, the rejected promise stays in place: however the network behaves later,
  every state-changing request fails with that error without reaching the server, and so does
  logging out, which then keeps the access token. Only a reload of the page helps.
\<close>

theorem csrf_failure_sticks:
  assumes "w_fetch wb \<lparr>fr_method = ''GET'', fr_url = API_BASE_URL wb @ ''/auth/csrf'', fr_headers = [], fr_body = None\<rparr> n = (NetworkError, n')"
  shows "\<exists>p. ensureCsrf wb (new_page store n) = (Inl type_error, p)
    \<and> (\<forall>wb2 n2 token endpoint fs. let q = p\<lparr>network := n2, pg_accessToken := token\<rparr> in
         api_post wb2 endpoint fs q = (Inl type_error, q) \<and> api_logout wb2 q = (Inl type_error, q)
         \<and> api_refreshToken wb2 q = (Inl type_error, q))"
  by (simp add: ensureCsrf_def start_csrf_def await_csrf_def csrf_bootstrap_def send_def new_page_def assms bindE_def thenE_def gets_def
      Let_def api_post_def api_request_def api_logout_def api_refreshToken_def)

text \<open>Logging out, when it returns, leaves no user, no tokens and no recent accounts on the page.\<close>

theorem logout_clears_page:
  assumes "ctx_logout wb p = (Inr (), p')"
  shows "\<not> isAuthenticated p' \<and> pg_accessToken p' = JNull \<and> pg_csrfToken p' = JNull \<and> getRecentAccounts p' = []"
  using assms
  by (auto simp: ctx_logout_def api_logout_def thenE_def bindE_eq_Inr clearTokens_def forget_csrf_def setUser_def modify_def
      isAuthenticated_def getRecentAccounts_def clearAllRecentAccounts_def)

section \<open>The list of recent accounts\<close>

abbreviation email_of :: "js \<Rightarrow> js" where
  "email_of a \<equiv> js_get a ''email''"

text \<open>At most five entries, one per address, the latest first, none from the future.\<close>

definition recent_list :: "ms \<Rightarrow> js list \<Rightarrow> bool" where
  "recent_list t xs \<longleftrightarrow> length xs \<le> MAX_RECENT_ACCOUNTS \<and> distinct (map email_of xs)
     \<and> sorted (map (\<lambda>a. - lastUsed a) xs) \<and> (\<forall>a \<in> set xs. lastUsed a \<le> t)"

definition recent_ok :: "'n page \<times> ms \<Rightarrow> bool" where
  "recent_ok s \<longleftrightarrow> (case pg_localStorage (fst s) RECENT_ACCOUNTS_KEY of
      None \<Rightarrow> True
    | Some (Json (JArr xs)) \<Rightarrow> recent_list (snd s) xs
    | _ \<Rightarrow> False)"

lemma recent_ok_list: "recent_ok (p, t) \<Longrightarrow> recent_list t (getRecentAccounts p)"
  by (auto simp: recent_ok_def getRecentAccounts_def recent_list_def sort_key_id_if_sorted MAX_RECENT_ACCOUNTS_def
      split: option.splits rtext.splits js.splits)

lemma recent_ok_put: "recent_list t xs \<Longrightarrow> recent_ok (put_recent xs p, t)"
  by (simp add: recent_ok_def put_recent_def)

lemma recent_put [simp]: "recent_list t xs \<Longrightarrow> getRecentAccounts (put_recent xs p) = xs"
  by (simp add: getRecentAccounts_def put_recent_def recent_list_def sort_key_id_if_sorted)

lemma recent_later: "recent_list t xs \<Longrightarrow> t \<le> t' \<Longrightarrow> recent_list t' xs"
  by (auto simp: recent_list_def)

lemma recent_filter: "recent_list t xs \<Longrightarrow> recent_list t (filter P xs)"
  using order_trans [OF length_filter_le [of P xs]] by (auto simp: recent_list_def sorted_filter intro: distinct_map_filter)

lemma recent_take: "recent_list t xs \<Longrightarrow> recent_list t (take k xs)"
  unfolding recent_list_def by (auto simp: take_map [symmetric] sorted_wrt_take dest: in_set_takeD)

lemma recent_cons:
  assumes "recent_list t xs" "length xs < MAX_RECENT_ACCOUNTS" "email_of a \<notin> email_of ` set xs" "lastUsed a = t"
  shows "recent_list t (a # xs)"
  using assms by (auto simp: recent_list_def)

lemma drop_first_filter: "distinct (map f xs) \<Longrightarrow> drop_first (\<lambda>a. f a = e) xs = filter (\<lambda>a. f a \<noteq> e) xs"
proof (induction xs)
  case (Cons x xs)
  show ?case
  proof (cases "f x = e")
    case True
    with Cons.prems have "\<forall>a \<in> set xs. f a \<noteq> e" by (auto simp: image_iff)
    with True show ?thesis by (simp add: drop_first_def)
  next
    case False
    with Cons show ?thesis by (simp add: drop_first_def)
  qed
qed (simp add: drop_first_def)

lemma map_of_defined:
  "distinct (map fst fs) \<Longrightarrow> map_of (filter (\<lambda>(k, v). v \<noteq> JUndef) fs) k = (case map_of fs k of Some v \<Rightarrow> if v = JUndef then None else Some v | None \<Rightarrow> None)"
proof (induction fs)
  case (Cons kv fs)
  obtain a b where kv: "kv = (a, b)" by (cases kv)
  have "map_of fs a = None" using Cons.prems by (simp add: kv map_of_eq_None_iff)
  with Cons show ?case by (auto simp: kv)
qed simp

lemma recent_entry_fields:
  assumes "distinct (map fst user)" "''lastUsed'' \<notin> fst ` set user"
  shows "email_of (recent_entry now user) = js_get (JObj user) ''email''" "lastUsed (recent_entry now user) = now"
proof -
  have d: "distinct (map fst (user @ [(''lastUsed'', JNum now)]))" using assms by auto
  have n: "map_of user ''lastUsed'' = None" using assms(2) by (simp add: map_of_eq_None_iff)
  show "email_of (recent_entry now user) = js_get (JObj user) ''email''" "lastUsed (recent_entry now user) = now"
    unfolding recent_entry_def lastUsed_def js_get.simps map_of_defined [OF d] map_of_append
    by (auto simp: n split: option.splits)
qed

lemma recent_save:
  assumes "recent_list t (getRecentAccounts p)" "distinct (map fst user)" "''lastUsed'' \<notin> fst ` set user"
  shows "\<exists>xs. saveRecentAccount t user p = put_recent (recent_entry t user # xs) p \<and> recent_list t (recent_entry t user # xs)"
proof -
  let ?e = "js_get (JObj user) ''email''" and ?n = "recent_entry t user"
  let ?ys = "filter (\<lambda>a. email_of a \<noteq> ?e) (getRecentAccounts p)"
  have s: "saveRecentAccount t user p = put_recent (?n # take 4 ?ys) p"
    using assms(1) by (simp add: saveRecentAccount_def recent_list_def drop_first_filter MAX_RECENT_ACCOUNTS_def)
  have y: "recent_list t ?ys" by (rule recent_filter [OF assms(1)])
  have "recent_list t (?n # take 4 ?ys)"
  proof (rule recent_cons [OF recent_take [OF y]])
    show "email_of ?n \<notin> email_of ` set (take 4 ?ys)"
      by (auto simp only: recent_entry_fields [OF assms(2,3)] dest!: in_set_takeD) (simp only: set_filter mem_Collect_eq simp_thms)
  qed (simp_all add: MAX_RECENT_ACCOUNTS_def recent_entry_fields [OF assms(2,3)])
  with s show ?thesis by blast
qed

text \<open>Uses of the list, each after a delay.\<close>

datatype recent_event = Save "(string \<times> js) list" | Remove js | Clear

fun recent_apply :: "ms \<Rightarrow> recent_event \<Rightarrow> 'n page \<Rightarrow> 'n page" where
  "recent_apply t (Save user) p = saveRecentAccount t user p"
| "recent_apply t (Remove email) p = removeRecentAccount email p"
| "recent_apply t Clear p = clearAllRecentAccounts p"

definition recent_step :: "'n page \<times> ms \<Rightarrow> nat \<times> recent_event \<Rightarrow> 'n page \<times> ms" where
  "recent_step s e = (recent_apply (snd s + int (fst e)) (snd e) (fst s), snd s + int (fst e))"

fun recent_event_ok :: "nat \<times> recent_event \<Rightarrow> bool" where
  "recent_event_ok (d, Save user) \<longleftrightarrow> distinct (map fst user) \<and> ''lastUsed'' \<notin> fst ` set user"
| "recent_event_ok _ \<longleftrightarrow> True"

interpretation recent: invariant_system recent_step recent_ok recent_event_ok
proof
  fix s :: "'n page \<times> ms" and e
  assume s: "recent_ok s" and e: "recent_event_ok e"
  obtain p t where st: "s = (p, t)" by (cases s)
  obtain d ev where ev: "e = (d, ev)" by (cases e)
  have l: "recent_list (t + int d) (getRecentAccounts p)" using recent_later [OF recent_ok_list [OF s [unfolded st]]] by simp
  show "recent_ok (recent_step s e)"
  proof (cases ev)
    case (Save user)
    with e ev recent_save [OF l, of user] show ?thesis by (auto simp: st recent_step_def intro: recent_ok_put)
  next
    case (Remove email)
    then show ?thesis by (simp add: st ev recent_step_def removeRecentAccount_def recent_ok_put recent_filter l)
  qed (simp add: st ev recent_step_def recent_ok_def clearAllRecentAccounts_def)
qed

text \<open>
  (C38) However the list of recent accounts is used, it has at most five entries, no address twice, and the
  latest use first; an account that was just saved is at its head.
\<close>

theorem recent_accounts_bounded:
  assumes "list_all recent_event_ok es" and "recent_event_ok (0, Save user)"
  shows "let (p, t) = run recent_step (new_page (\<lambda>_. None) n, t0) es; xs = getRecentAccounts (saveRecentAccount t user p) in
    length xs \<le> 5 \<and> distinct (map email_of xs) \<and> sorted (map (\<lambda>a. - lastUsed a) xs) \<and> hd xs = recent_entry t user"
proof -
  have "recent_ok (new_page (\<lambda>_. None) n, t0)" by (simp add: recent_ok_def new_page_def RECENT_ACCOUNTS_KEY_def)
  from recent.run_inv [OF this assms(1)] obtain p t where r: "run recent_step (new_page (\<lambda>_. None) n, t0) es = (p, t)" "recent_ok (p, t)"
    by (metis surj_pair)
  from recent_save [OF recent_ok_list [OF r(2)], of user] assms(2) obtain xs
    where x: "saveRecentAccount t user p = put_recent (recent_entry t user # xs) p" "recent_list t (recent_entry t user # xs)" by auto
  then have "getRecentAccounts (saveRecentAccount t user p) = recent_entry t user # xs" by simp
  with x(2) r(1) show ?thesis by (simp add: recent_list_def MAX_RECENT_ACCOUNTS_def)
qed

section \<open>Proof keys\<close>

definition url_alphabet :: string where
  "url_alphabet = ''ABCDEFGHIJKLMNOPQRSTUVWXYZabcdefghijklmnopqrstuvwxyz0123456789-_''"

lemma url_chars: "url_char (b64_char n) \<in> set url_alphabet"
proof -
  have "list_all (\<lambda>i. url_char (b64_char i) \<in> set url_alphabet) [0..<64]" by code_simp
  then have "\<forall>i \<in> {0..<64}. url_char (b64_char i) \<in> set url_alphabet" unfolding list_all_iff set_upt .
  then have "url_char (b64_char (n mod 64)) \<in> set url_alphabet" by (rule bspec) simp
  then show ?thesis unfolding b64_char_def mod_mod_trivial .
qed

lemma not_padding: "CHR ''='' \<notin> set url_alphabet"
  by code_simp

lemma strip_append:
  assumes "CHR ''='' \<notin> set s"
  shows "strip_padding (s @ replicate k (CHR ''='')) = s"
proof -
  have "dropWhile (\<lambda>c. c = CHR ''='') (replicate k (CHR ''='') @ rev s) = dropWhile (\<lambda>c. c = CHR ''='') (rev s)" by (induction k) simp_all
  also have "\<dots> = rev s" using assms by (cases s rule: rev_cases) auto
  finally show ?thesis by (simp add: strip_padding_def)
qed

text \<open>The encoding without its padding: four characters for three bytes, and the rest.\<close>

lemma btoa_shape: "\<exists>s k. map url_char (btoa bs) = s @ replicate k (CHR ''='') \<and> length s = (4 * length bs + 2) div 3
  \<and> set s \<subseteq> set url_alphabet"
proof (induction bs rule: btoa.induct)
  case 1
  show ?case by (intro exI [of _ "[]"] exI [of _ 0]) simp
next
  case (2 a)
  have "map url_char (btoa [a]) = map url_char [b64_char (a div 4), b64_char (a mod 4 * 16)] @ replicate 2 (CHR ''='')"
    by (simp add: url_char_def numeral_2_eq_2)
  then show ?case by (rule_tac exI, rule_tac exI, rule_tac conjI, assumption) (simp add: url_chars)
next
  case (3 a b)
  have "map url_char (btoa [a, b]) = map url_char [b64_char (a div 4), b64_char (a mod 4 * 16 + b div 16), b64_char (b mod 16 * 4)] @ replicate 1 (CHR ''='')"
    by (simp add: url_char_def)
  then show ?case by (rule_tac exI, rule_tac exI, rule_tac conjI, assumption) (simp add: url_chars)
next
  case (4 a b c bs)
  then obtain s k where s: "map url_char (btoa bs) = s @ replicate k (CHR ''='')" "length s = (4 * length bs + 2) div 3"
    "set s \<subseteq> set url_alphabet" by blast
  have "map url_char (btoa (a # b # c # bs)) = (map url_char [b64_char (a div 4), b64_char (a mod 4 * 16 + b div 16),
      b64_char (b mod 16 * 4 + c div 64), b64_char (c mod 64)] @ s) @ replicate k (CHR ''='')"
    by (simp add: s(1))
  then show ?case by (rule_tac exI, rule_tac exI, rule_tac conjI, assumption) (simp add: url_chars s(2,3))
qed

lemma base64Url_shape:
  "length (base64UrlEncode bs) = (4 * length bs + 2) div 3"
  "set (base64UrlEncode bs) \<subseteq> set url_alphabet"
proof -
  obtain s k where s: "map url_char (btoa bs) = s @ replicate k (CHR ''='')" "length s = (4 * length bs + 2) div 3"
    "set s \<subseteq> set url_alphabet" using btoa_shape by blast
  from s(3) not_padding have "CHR ''='' \<notin> set s" by blast
  with s(1) have "base64UrlEncode bs = s" by (simp add: base64UrlEncode_def strip_append)
  with s(2,3) show "length (base64UrlEncode bs) = (4 * length bs + 2) div 3"
    "set (base64UrlEncode bs) \<subseteq> set url_alphabet" by simp_all
qed

section \<open>Examples\<close>

definition dead_web :: "unit web" where
  "dead_web = \<lparr>w_fetch = (\<lambda>rq n. (NetworkError, n)), w_cookie = (\<lambda>n. []), w_decode = Some, w_now = 0, w_random = replicate 32 0,
     w_digest = (\<lambda>s. replicate 32 0), w_url = (\<lambda>s. None), w_query = (\<lambda>kvs. []), API_BASE_URL = ''/api''\<rparr>"

theorem csrf_failure_sticks_witness:
  "\<exists>p. ensureCsrf dead_web (new_page (\<lambda>_. None) ()) = (Inl type_error, p) \<and> api_logout dead_web p = (Inl type_error, p)"
proof -
  have "w_fetch dead_web \<lparr>fr_method = ''GET'', fr_url = API_BASE_URL dead_web @ ''/auth/csrf'', fr_headers = [], fr_body = None\<rparr> () = (NetworkError, ())"
    by (simp add: dead_web_def)
  from csrf_failure_sticks [OF this, of "\<lambda>_. None"] obtain p where p: "ensureCsrf dead_web (new_page (\<lambda>_. None) ()) = (Inl type_error, p)"
    "\<forall>(wb2 :: unit web) n2 token endpoint fs. let q = p\<lparr>network := n2, pg_accessToken := token\<rparr> in
         api_post wb2 endpoint fs q = (Inl type_error, q) \<and> api_logout wb2 q = (Inl type_error, q) \<and> api_refreshToken wb2 q = (Inl type_error, q)"
    by blast
  have e: "p\<lparr>network := (), pg_accessToken := pg_accessToken p\<rparr> = p" by (cases p) simp
  from p(2) [rule_format, where ?n2.0 = "()" and token = "pg_accessToken p" and ?wb2.0 = dead_web]
  have "api_logout dead_web p = (Inl type_error, p)" unfolding Let_def e by blast
  with p(1) show ?thesis by blast
qed

definition quiet_web :: "unit web" where
  "quiet_web = dead_web\<lparr>w_fetch := (\<lambda>rq n. (Response (200, ''application/json'', Some (JObj [(''csrfToken'', JStr ''t'')])), n))\<rparr>"

theorem logout_clears_page_witness:
  "\<exists>p'. ctx_logout quiet_web (new_page (\<lambda>_. None) ()) = (Inr (), p') \<and> pg_accessToken p' = JNull"
proof -
  have "case fst (ctx_logout quiet_web (new_page (\<lambda>_. None) ())) of Inr u \<Rightarrow> True | _ \<Rightarrow> False" by code_simp
  then obtain p' where "ctx_logout quiet_web (new_page (\<lambda>_. None) ()) = (Inr (), p')"
    by (cases "ctx_logout quiet_web (new_page (\<lambda>_. None) ())") (auto split: sum.splits)
  with logout_clears_page [OF this] show ?thesis by blast
qed

theorem recent_accounts_bounded_witness:
  "\<exists>xs. length xs \<le> 5 \<and> hd xs = recent_entry 7 [(''email'', JStr ''a'')]
     \<and> xs = getRecentAccounts (saveRecentAccount 7 [(''email'', JStr ''a'')] (fst (run recent_step (new_page (\<lambda>_. None) (), 0)
              [(3, Save [(''email'', JStr ''b'')]), (4, Save [(''email'', JStr ''a'')])])))"
proof -
  have t: "snd (run recent_step (new_page (\<lambda>_. None) (), 0) [(3, Save [(''email'', JStr ''b'')]), (4, Save [(''email'', JStr ''a'')])]) = 7"
    by (simp add: recent_step_def)
  from recent_accounts_bounded [of "[(3, Save [(''email'', JStr ''b'')]), (4, Save [(''email'', JStr ''a'')])]" "[(''email'', JStr ''a'')]" "()" 0] t
  show ?thesis by (simp add: Let_def split_beta)
qed

end
