(* ===== verification/OAuth.thy ===== *)
theory OAuth
  imports Auth_Controller
begin

text \<open>
  \<open>config/passport.ts\<close> and \<open>utils/oauth.util.ts\<close>: how the verified identity that a provider reports
  becomes a user. A callback that ends with \<open>done(error)\<close> raises the error. The provider's profile is an
  argument, and so is GitHub's answer to the request for the addresses of an account.
\<close>

section \<open>Conflicts\<close>

definition oauthProviderConflict :: "user \<Rightarrow> string \<Rightarrow> string option" where
  "oauthProviderConflict u incoming =
     (if getf u ''provider'' \<noteq> JStr ''local'' \<and> getf u ''provider'' \<noteq> JStr incoming
      then Some (''This email is registered with '' @ js_String (getf u ''provider'') @ ''. Use that provider to sign in.'')
      else if getf u ''provider'' = JStr ''local'' \<and> truthy (getf u ''isEmailVerified'') \<and> truthy (getf u ''password'')
      then Some ''This email uses password login. Sign in with your password, then link OAuth in settings.''
      else None)"

definition canOAuthTakeOverLocalAccount :: "user \<Rightarrow> bool" where
  "canOAuthTakeOverLocalAccount u \<longleftrightarrow> \<not> truthy (getf u ''password'') \<or> \<not> truthy (getf u ''isEmailVerified'')"

section \<open>The user behind an identity\<close>

text \<open>The first element of profile lists: \<open>emails?.[0]?.value\<close> and \<open>photos?.[0]?.value\<close>.\<close>

record oauth_profile =
  op_id :: string
  op_email :: js
  op_photo :: js
  op_displayName :: js
  op_username :: js

definition lower_opt :: "js \<Rightarrow> js" where
  "lower_opt v = (case v of JStr s \<Rightarrow> JStr (toLowerCase s) | _ \<Rightarrow> JUndef)"

text \<open>
  GitHub's answer: an error of \<open>fetch\<close>, a status that is not ok (\<open>None\<close>), or the list of addresses.
\<close>

definition fetchGitHubVerifiedPrimaryEmail :: "(string \<Rightarrow> exn + js option) \<Rightarrow> string \<Rightarrow> ('w, js) act" where
  "fetchGitHubVerifiedPrimaryEmail gh accessToken = (case gh accessToken of
      Inl e \<Rightarrow> raise e
    | Inr None \<Rightarrow> ret JNull
    | Inr (Some emails) \<Rightarrow>
        (let email_of = (\<lambda>m. case m of None \<Rightarrow> JUndef | Some v \<Rightarrow> js_get v ''email'');
             primaryVerified = email_of (find (\<lambda>v. truthy (js_get v ''primary'') \<and> truthy (js_get v ''verified'')) (elems emails));
             anyVerified = email_of (find (\<lambda>v. truthy (js_get v ''verified'')) (elems emails))
         in ret (if truthy primaryVerified then lower_opt primaryVerified else coalesce (lower_opt anyVerified) JNull)))"

text \<open>A local account that may be taken over becomes an account of the provider.\<close>

definition take_over :: "'r host \<Rightarrow> string \<Rightarrow> string \<Rightarrow> user \<Rightarrow> ('r exchange, user option) act" where
  "take_over h provider providerId u =
     (if getf u ''provider'' = JStr ''local'' then
        (if \<not> canOAuthTakeOverLocalAccount u then ret None
         else bindE (on_db (save h [] (set_fields
                  [(''provider'', JStr provider), (''providerId'', JStr providerId), (''isEmailVerified'', JBool True)] u))) (\<lambda>u'.
                thenE (on_db (syncIdentityIndexesFromUser h u')) (ret (Some u'))))
      else ret (Some u))"

definition findUserForOAuth :: "'r host \<Rightarrow> string \<Rightarrow> string \<Rightarrow> string \<Rightarrow> ('r exchange, user option) act" where
  "findUserForOAuth h email provider providerId =
     bindE (on_db (findUserIdByOAuth h provider providerId)) (\<lambda>byOAuthId.
     bindE (find_optional h byOAuthId None) (\<lambda>byId. case byId of
        Some u \<Rightarrow> ret (Some u)
      | None \<Rightarrow>
          bindE (on_db (resolveEmailIdentity h (normalizeEmail email))) (\<lambda>resolved. case resolved of
             None \<Rightarrow> ret None
           | Some i \<Rightarrow>
               bindE (on_db (findById h (ri_userId i) None)) (\<lambda>found. case found of
                  None \<Rightarrow> ret None
                | Some u \<Rightarrow>
                    if getf u ''previousEmail'' = JStr (normalizeEmail email) \<and> getf u ''email'' \<noteq> JStr (normalizeEmail email) then
                      (if after (getf u ''migrationExpiry'') (h_now h) then ret (Some u)
                       else bindE (on_db (findUserIdByPrimaryEmail h (normalizeEmail email))) (\<lambda>primaryUserId.
                            bindE (find_optional h primaryUserId None) (\<lambda>byNewEmail.
                              take_over h provider providerId (case byNewEmail of None \<Rightarrow> u | Some v \<Rightarrow> v))))
                    else take_over h provider providerId u))))"

section \<open>The strategies\<close>

text \<open>Picture and name follow the provider; nothing is written when both are the same.\<close>

definition refresh_avatar :: "string \<Rightarrow> js \<Rightarrow> user \<Rightarrow> user" where
  "refresh_avatar provider profilePic u =
     (if truthy profilePic \<and> (\<not> truthy (getf u ''avatar'') \<or> getf u ''provider'' = JStr provider) \<and> getf u ''avatar'' \<noteq> profilePic
      then setf u ''avatar'' profilePic else u)"

definition refresh_name :: "string \<Rightarrow> js \<Rightarrow> user \<Rightarrow> user" where
  "refresh_name provider name u =
     (if getf u ''provider'' = JStr provider \<and> truthy name \<and> getf u ''displayName'' \<noteq> name then setf u ''displayName'' name else u)"

definition profile_changed :: "string \<Rightarrow> oauth_profile \<Rightarrow> js \<Rightarrow> user \<Rightarrow> bool" where
  "profile_changed provider p name u \<longleftrightarrow>
     truthy (op_photo p) \<and> (\<not> truthy (getf u ''avatar'') \<or> getf u ''provider'' = JStr provider) \<and> getf u ''avatar'' \<noteq> op_photo p
     \<or> getf u ''provider'' = JStr provider \<and> truthy name \<and> getf u ''displayName'' \<noteq> name"

definition oauth_user :: "'r host \<Rightarrow> string \<Rightarrow> string \<Rightarrow> oauth_profile \<Rightarrow> js \<Rightarrow> ('r exchange, user) act" where
  "oauth_user h provider email p name =
     bindE (findUserForOAuth h email provider (op_id p)) (\<lambda>found. case found of
        Some u \<Rightarrow>
          (case oauthProviderConflict u provider of
             Some conflict \<Rightarrow> raise (Error conflict)
           | None \<Rightarrow>
               if profile_changed provider p name u
               then bindE (on_db (save h [] (refresh_name provider name (refresh_avatar provider (op_photo p) u)))) (\<lambda>u'.
                      thenE (on_db (syncIdentityIndexesFromUser h u')) (ret u'))
               else ret u)
      | None \<Rightarrow>
          bindE (on_db (create h (h_fresh h 0)
              [(''email'', JStr email), (''displayName'', if truthy name then name else JStr (hd (split_char (CHR ''@'') email))),
               (''avatar'', op_photo p), (''provider'', JStr provider), (''providerId'', JStr (op_id p)),
               (''isEmailVerified'', JBool True)])) (\<lambda>u.
            thenE (on_db (syncIdentityIndexesFromUser h u)) (ret u)))"

definition google_strategy :: "'r host \<Rightarrow> oauth_profile \<Rightarrow> ('r exchange, user) act" where
  "google_strategy h p = (case lower_opt (op_email p) of
      JStr (c # s) \<Rightarrow> oauth_user h ''google'' (c # s) p (op_displayName p)
    | _ \<Rightarrow> raise (Error ''No email found in Google profile''))"

definition github_strategy :: "(string \<Rightarrow> exn + js option) \<Rightarrow> 'r host \<Rightarrow> string \<Rightarrow> oauth_profile \<Rightarrow> ('r exchange, user) act" where
  "github_strategy gh h accessToken p =
     bindE (fetchGitHubVerifiedPrimaryEmail gh accessToken) (\<lambda>email. case email of
        JStr (c # s) \<Rightarrow> oauth_user h ''github'' (c # s) p
          (if truthy (op_displayName p) then op_displayName p else op_username p)
      | _ \<Rightarrow> raise (Error ''No verified email found in GitHub profile''))"

section \<open>The constraints of the tables\<close>

lemma keeps_take_over [keeps_rules]: "keeps_db db_ok (take_over h p pid u)"
  unfolding take_over_def by (intro keeps_rules)

lemma keeps_findUserForOAuth [keeps_rules]: "keeps_db db_ok (findUserForOAuth h e p pid)"
  unfolding findUserForOAuth_def by (intro keeps_rules)

lemma keeps_oauth_user [keeps_rules]: "keeps_db db_ok (oauth_user h prov e p name)"
  unfolding oauth_user_def by (intro keeps_rules)

lemma keeps_strategies [keeps_rules]: "keeps_db db_ok (google_strategy h p)" "keeps_db db_ok (github_strategy gh h t p)"
  unfolding google_strategy_def github_strategy_def fetchGitHubVerifiedPrimaryEmail_def by (intro keeps_rules)+

end
