(* ===== verification/Routes.thy ===== *)
theory Routes
  imports Migration OAuth
begin

text \<open>
  The routes of the server: the schemas of \<open>validators/auth.validators.ts\<close> and
  \<open>validators/migration.validators.ts\<close>, \<open>middleware/validate.middleware.ts\<close>, the tables of
  \<open>routes/auth.routes.ts\<close>, \<open>routes/migration.routes.ts\<close> and \<open>routes/profile.routes.ts\<close>, and their
  mounting with the origin check and the error handler of \<open>index.ts\<close>.
\<close>

section \<open>Schemas\<close>

text \<open>
  What is taken from zod: its tests of an address and of a URL, and the list of issues it reports
  for a schema and a body that the schema refuses.
\<close>

record zod =
  z_email :: "string \<Rightarrow> bool"
  z_url :: "string \<Rightarrow> bool"
  z_issues :: "string \<Rightarrow> js \<Rightarrow> js"

definition is_lower :: "char \<Rightarrow> bool" where
  "is_lower c \<longleftrightarrow> 97 \<le> (of_char c :: nat) \<and> (of_char c :: nat) \<le> 122"

definition is_letter :: "char \<Rightarrow> bool" where
  "is_letter c \<longleftrightarrow> is_upper c \<or> is_lower c"

definition on_string :: "(string \<Rightarrow> bool) \<Rightarrow> js \<Rightarrow> bool" where
  "on_string P v = (case v of JStr s \<Rightarrow> P s | _ \<Rightarrow> False)"

definition length_in :: "nat \<Rightarrow> nat \<Rightarrow> js \<Rightarrow> bool" where
  "length_in lo hi = on_string (\<lambda>s. lo \<le> length s \<and> length s \<le> hi)"

definition optional :: "(js \<Rightarrow> bool) \<Rightarrow> js \<Rightarrow> bool" where
  "optional P v \<longleftrightarrow> v = JUndef \<or> P v"

definition z_object :: "(string \<times> (js \<Rightarrow> bool)) list \<Rightarrow> js \<Rightarrow> bool" where
  "z_object shape body = (case body of JObj _ \<Rightarrow> list_all (\<lambda>(f, P). P (js_get body f)) shape | _ \<Rightarrow> False)"

definition disposableDomains :: "string list" where
  "disposableDomains = [''tempmail.com'', ''throwaway.com'', ''10minutemail.com'', ''guerrillamail.com'']"

definition valid_tld :: "string \<Rightarrow> bool" where
  "valid_tld s = (let t = takeWhile is_letter (rev s); rest = dropWhile is_letter (rev s)
                  in 2 \<le> length t \<and> rest \<noteq> [] \<and> hd rest = CHR ''.'')"

definition emailSchema :: "zod \<Rightarrow> js \<Rightarrow> bool" where
  "emailSchema z = on_string (\<lambda>s. 1 \<le> length s \<and> z_email z s \<and> length s \<le> 255
     \<and> \<not> (case split_char (CHR ''@'') s of _ # domain # _ \<Rightarrow> toLowerCase domain \<in> set disposableDomains | _ \<Rightarrow> False)
     \<and> valid_tld s)"

definition passwordSchema :: "js \<Rightarrow> bool" where
  "passwordSchema = on_string (\<lambda>s. 8 \<le> length s \<and> length s \<le> 128 \<and> list_ex is_upper s \<and> list_ex is_lower s
     \<and> list_ex is_digit s \<and> list_ex (\<lambda>c. \<not> is_upper c \<and> \<not> is_lower c \<and> \<not> is_digit c) s)"

definition displayNameSchema :: "js \<Rightarrow> bool" where
  "displayNameSchema = on_string (\<lambda>s. 2 \<le> length s \<and> length s \<le> 50
     \<and> list_all (\<lambda>c. is_upper c \<or> is_lower c \<or> is_digit c \<or> is_space c \<or> c = CHR ''-'' \<or> c = CHR ''_'') s)"

definition registerSchema :: "zod \<Rightarrow> js \<Rightarrow> bool" where
  "registerSchema z = z_object [(''email'', emailSchema z), (''password'', passwordSchema), (''displayName'', displayNameSchema)]"

definition loginSchema :: "zod \<Rightarrow> js \<Rightarrow> bool" where
  "loginSchema z = z_object [(''email'', emailSchema z), (''password'', on_string (\<lambda>s. 1 \<le> length s))]"

text \<open>The schemas of the availability check, the reset request and the resending are the same.\<close>

definition emailCheckSchema :: "zod \<Rightarrow> js \<Rightarrow> bool" where
  "emailCheckSchema z = z_object [(''email'', emailSchema z)]"

definition passwordResetRequestSchema :: "zod \<Rightarrow> js \<Rightarrow> bool" where
  "passwordResetRequestSchema z = z_object [(''email'', emailSchema z)]"

definition passwordResetSchema :: "js \<Rightarrow> bool" where
  "passwordResetSchema = z_object [(''formToken'', length_in 64 128), (''password'', passwordSchema)]"

definition emailVerifySchema :: "js \<Rightarrow> bool" where
  "emailVerifySchema = z_object [(''formToken'', length_in 64 128), (''password'', passwordSchema)]"

definition redeemEmailLinkSchema :: "js \<Rightarrow> bool" where
  "redeemEmailLinkSchema = z_object [(''code'', length_in 64 128)]"

definition oauthPrepareSchema :: "zod \<Rightarrow> js \<Rightarrow> bool" where
  "oauthPrepareSchema z = z_object [(''codeChallenge'', length_in 43 128),
     (''redirectUri'', optional (on_string (\<lambda>s. z_url z s \<and> length s \<le> 200)))]"

definition oauthExchangeSchema :: "js \<Rightarrow> bool" where
  "oauthExchangeSchema = z_object [(''code'', length_in 64 128), (''state'', length_in 64 128), (''codeVerifier'', length_in 43 128)]"

definition resendVerificationSchema :: "zod \<Rightarrow> js \<Rightarrow> bool" where
  "resendVerificationSchema z = z_object [(''email'', emailSchema z)]"

definition refreshTokenSchema :: "js \<Rightarrow> bool" where
  "refreshTokenSchema = z_object [(''refreshToken'', optional (on_string (\<lambda>_. True))), (''accessToken'', optional (on_string (\<lambda>_. True)))]"

definition verificationPollSchema :: "js \<Rightarrow> bool" where
  "verificationPollSchema = z_object [(''pollToken'', length_in 64 128)]"

definition migration_emailSchema :: "zod \<Rightarrow> js \<Rightarrow> bool" where
  "migration_emailSchema z = on_string (\<lambda>s. 1 \<le> length s \<and> z_email z s \<and> length s \<le> 255)"

definition migration_passwordSchema :: "js \<Rightarrow> bool" where
  "migration_passwordSchema = length_in 8 128"

definition migrationInitSchema :: "zod \<Rightarrow> js \<Rightarrow> bool" where
  "migrationInitSchema z = z_object [(''newEmail'', migration_emailSchema z), (''password'', optional migration_passwordSchema),
     (''confirmOverride'', optional (\<lambda>v. v = JStr ''true''))]"

definition migrationVerifySchema :: "js \<Rightarrow> bool" where
  "migrationVerifySchema = z_object [(''formToken'', length_in 64 128)]"

text \<open>The parsed value is dropped: the handlers read the body as it came.\<close>

definition validate :: "zod \<Rightarrow> string \<Rightarrow> (js \<Rightarrow> bool) \<Rightarrow> request \<Rightarrow> ('r exchange, outcome) act" where
  "validate z name schema rq =
     (if schema (rq_body rq) then ret (Next rq)
      else status_json 400 (failed ''Validation failed'' @ [(''errors'', z_issues z name (rq_body rq))]))"

section \<open>Providers\<close>

text \<open>
  What passport does: the redirect to a provider, and the outcome of a provider's answer (\<open>None\<close>
  when it was refused). \<open>pp_message\<close> is the message of an error that reaches the error handler.
\<close>

record passport =
  pp_begin :: "string \<Rightarrow> (string \<times> js) list \<Rightarrow> string"
  pp_google :: "request \<Rightarrow> oauth_profile option"
  pp_github :: "request \<Rightarrow> (string \<times> oauth_profile) option"
  pp_emails :: "string \<Rightarrow> exn + js option"
  pp_message :: "exn \<Rightarrow> string"

definition oauthFailureRedirect :: "'r host \<Rightarrow> string" where
  "oauthFailureRedirect h = clientUrl (h_config h) @ ''/login?error=oauth_failed''"

definition oauthNotConfiguredRedirect :: "'r host \<Rightarrow> string" where
  "oauthNotConfiguredRedirect h = clientUrl (h_config h) @ ''/login?error=oauth_not_configured''"

text \<open>The provider routes are all \<open>GET\<close> routes.\<close>

definition requireOAuthProvider :: "'r host \<Rightarrow> string \<Rightarrow> request \<Rightarrow> ('r exchange, outcome) act" where
  "requireOAuthProvider h provider rq =
     (if (if provider = ''google'' then googleEnabled (h_config h) else githubEnabled (h_config h))
      then ret (Next rq) else ret (Redirect (oauthNotConfiguredRedirect h)))"

definition state_option :: "js \<Rightarrow> (string \<times> js) list" where
  "state_option st = (case st of JStr (c # s) \<Rightarrow> [(''state'', JStr (c # s))] | _ \<Rightarrow> [])"

definition google_options :: "js \<Rightarrow> (string \<times> js) list" where
  "google_options q =
     (let login_hint = js_get q ''login_hint''; prompt = js_get q ''prompt''
      in [(''scope'', JArr [JStr ''profile'', JStr ''email'']), (''session'', JBool False)]
         @ (if truthy login_hint then [(''loginHint'', login_hint)] else [])
         @ (if prompt = JStr ''select_account'' \<or> \<not> truthy login_hint \<and> \<not> truthy prompt
            then [(''prompt'', JStr ''select_account'')] else [])
         @ state_option (js_get q ''state''))"

definition github_options :: "js \<Rightarrow> (string \<times> js) list" where
  "github_options q = [(''scope'', JArr [JStr ''user:email'']), (''session'', JBool False)] @ state_option (js_get q ''state'')"

section \<open>The tables\<close>

text \<open>A middleware, and what runs when it calls the next handler.\<close>

definition via :: "('w, outcome) act \<Rightarrow> (request \<Rightarrow> ('w, outcome) act) \<Rightarrow> ('w, outcome) act" where
  "via m k = bindE m (\<lambda>out. case out of Next rq \<Rightarrow> k rq | _ \<Rightarrow> ret out)"

definition signed_in :: "'r host \<Rightarrow> (request \<Rightarrow> ('r exchange, outcome) act) \<Rightarrow> request \<Rightarrow> ('r exchange, outcome) act" where
  "signed_in h k rq = via (authenticate h rq) (\<lambda>rq. via (requireVerifiedEmail rq) k)"

definition csrf_checked :: "'r host \<Rightarrow> (request \<Rightarrow> ('r exchange, outcome) act) \<Rightarrow> request \<Rightarrow> ('r exchange, outcome) act" where
  "csrf_checked h k rq = via (requireCsrf h rq) k"

definition checked :: "zod \<Rightarrow> string \<Rightarrow> (js \<Rightarrow> bool) \<Rightarrow> (request \<Rightarrow> ('r exchange, outcome) act) \<Rightarrow> request \<Rightarrow> ('r exchange, outcome) act" where
  "checked z name schema k rq = via (validate z name schema rq) k"

datatype route =
    R_csrf | R_providers | R_check_email | R_verification_status | R_redeem_link | R_oauth_prepare
  | R_register | R_login | R_verify_email | R_resend_verification | R_forgot_password | R_reset_password
  | R_refresh | R_logout | R_oauth_exchange | R_me | R_google | R_google_callback | R_github | R_github_callback
  | R_migrate_init | R_migrate_current | R_migrate_new | R_migrate_resend | R_migrate_status | R_migrate_history
  | R_migrate_finalize | R_bio

fun auth_route :: "zod \<Rightarrow> passport \<Rightarrow> 'r host \<Rightarrow> route \<Rightarrow> request \<Rightarrow> ('r exchange, outcome) act" where
  "auth_route z pp h R_csrf = getCsrfToken h"
| "auth_route z pp h R_providers = (\<lambda>_. getOAuthProviders h)"
| "auth_route z pp h R_check_email = checked z ''emailCheckSchema'' (emailCheckSchema z) (\<lambda>_. checkEmailAvailability)"
| "auth_route z pp h R_verification_status = checked z ''verificationPollSchema'' verificationPollSchema (postVerificationStatus h)"
| "auth_route z pp h R_redeem_link = checked z ''redeemEmailLinkSchema'' redeemEmailLinkSchema (redeemEmailLink h)"
| "auth_route z pp h R_oauth_prepare = checked z ''oauthPrepareSchema'' (oauthPrepareSchema z) (prepareOAuth h)"
| "auth_route z pp h R_register = csrf_checked h (checked z ''registerSchema'' (registerSchema z) (register h))"
| "auth_route z pp h R_login = csrf_checked h (checked z ''loginSchema'' (loginSchema z) (login h))"
| "auth_route z pp h R_verify_email = csrf_checked h (checked z ''emailVerifySchema'' emailVerifySchema (verifyEmail h))"
| "auth_route z pp h R_resend_verification =
     csrf_checked h (checked z ''resendVerificationSchema'' (resendVerificationSchema z) (resendVerification h))"
| "auth_route z pp h R_forgot_password =
     csrf_checked h (checked z ''passwordResetRequestSchema'' (passwordResetRequestSchema z) (requestPasswordReset h))"
| "auth_route z pp h R_reset_password = csrf_checked h (checked z ''passwordResetSchema'' passwordResetSchema (resetPassword h))"
| "auth_route z pp h R_refresh = csrf_checked h (checked z ''refreshTokenSchema'' refreshTokenSchema (refreshAccessToken h))"
| "auth_route z pp h R_logout = csrf_checked h (logout h)"
| "auth_route z pp h R_oauth_exchange = csrf_checked h (checked z ''oauthExchangeSchema'' oauthExchangeSchema (exchangeOAuthCode h))"
| "auth_route z pp h R_me = signed_in h (getCurrentUser h)"
| "auth_route z pp h R_google = (\<lambda>rq. via (requireOAuthProvider h ''google'' rq)
     (\<lambda>rq. ret (Redirect (pp_begin pp ''google'' (google_options (rq_query rq))))))"
| "auth_route z pp h R_google_callback = (\<lambda>rq. via (requireOAuthProvider h ''google'' rq) (\<lambda>rq. case pp_google pp rq of
      None \<Rightarrow> ret (Redirect (oauthFailureRedirect h))
    | Some p \<Rightarrow> bindE (google_strategy h p) (\<lambda>u. handleOAuthSuccess h (rq\<lparr>rq_user := Some u\<rparr>))))"
| "auth_route z pp h R_github = (\<lambda>rq. via (requireOAuthProvider h ''github'' rq)
     (\<lambda>rq. ret (Redirect (pp_begin pp ''github'' (github_options (rq_query rq))))))"
| "auth_route z pp h R_github_callback = (\<lambda>rq. via (requireOAuthProvider h ''github'' rq) (\<lambda>rq. case pp_github pp rq of
      None \<Rightarrow> ret (Redirect (oauthFailureRedirect h))
    | Some (t, p) \<Rightarrow> bindE (github_strategy (pp_emails pp) h t p) (\<lambda>u. handleOAuthSuccess h (rq\<lparr>rq_user := Some u\<rparr>))))"
| "auth_route z pp h R_migrate_init = signed_in h (checked z ''migrationInitSchema'' (migrationInitSchema z) (initiateMigration h))"
| "auth_route z pp h R_migrate_current = checked z ''migrationVerifySchema'' migrationVerifySchema (verifyCurrentEmail h)"
| "auth_route z pp h R_migrate_new = checked z ''migrationVerifySchema'' migrationVerifySchema (verifyNewEmail h)"
| "auth_route z pp h R_migrate_resend = signed_in h (resendMigrationEmails h)"
| "auth_route z pp h R_migrate_status = signed_in h (getMigrationStatus h)"
| "auth_route z pp h R_migrate_history = signed_in h (getMigrationHistory h)"
| "auth_route z pp h R_migrate_finalize = signed_in h (finalizeMigration h)"
| "auth_route z pp h R_bio = signed_in h (updateBio h)"

text \<open>Methods and paths, with the prefixes under which the tables are mounted.\<close>

definition auth_table :: "((string \<times> string) \<times> route) list" where
  "auth_table = [
     ((''GET'', ''/api/auth/csrf''), R_csrf),
     ((''GET'', ''/api/auth/oauth/providers''), R_providers),
     ((''POST'', ''/api/auth/check-email''), R_check_email),
     ((''POST'', ''/api/auth/verification-status''), R_verification_status),
     ((''POST'', ''/api/auth/redeem-email-link''), R_redeem_link),
     ((''POST'', ''/api/auth/oauth/prepare''), R_oauth_prepare),
     ((''POST'', ''/api/auth/register''), R_register),
     ((''POST'', ''/api/auth/login''), R_login),
     ((''POST'', ''/api/auth/verify-email''), R_verify_email),
     ((''POST'', ''/api/auth/resend-verification''), R_resend_verification),
     ((''POST'', ''/api/auth/forgot-password''), R_forgot_password),
     ((''POST'', ''/api/auth/reset-password''), R_reset_password),
     ((''POST'', ''/api/auth/refresh-token''), R_refresh),
     ((''POST'', ''/api/auth/logout''), R_logout),
     ((''POST'', ''/api/auth/oauth/exchange''), R_oauth_exchange),
     ((''GET'', ''/api/auth/me''), R_me),
     ((''GET'', ''/api/auth/google''), R_google),
     ((''GET'', ''/api/auth/google/callback''), R_google_callback),
     ((''GET'', ''/api/auth/github''), R_github),
     ((''GET'', ''/api/auth/github/callback''), R_github_callback)]"

definition migration_table :: "((string \<times> string) \<times> route) list" where
  "migration_table = [
     ((''POST'', ''/api/auth/migrate/init''), R_migrate_init),
     ((''POST'', ''/api/auth/migrate/verify-current''), R_migrate_current),
     ((''POST'', ''/api/auth/migrate/verify-new''), R_migrate_new),
     ((''POST'', ''/api/auth/migrate/resend''), R_migrate_resend),
     ((''GET'', ''/api/auth/migrate/status''), R_migrate_status),
     ((''GET'', ''/api/auth/migrate/history''), R_migrate_history),
     ((''POST'', ''/api/auth/migrate/finalize''), R_migrate_finalize)]"

definition profile_table :: "((string \<times> string) \<times> route) list" where
  "profile_table = [((''PUT'', ''/api/auth/profile/bio''), R_bio)]"

definition route_table :: "((string \<times> string) \<times> route) list" where
  "route_table = auth_table @ migration_table @ profile_table"

section \<open>The server\<close>

text \<open>The origin check; a request without the header is not a browser's.\<close>

definition cors_origin :: "'r host \<Rightarrow> js \<Rightarrow> ('w, unit) act" where
  "cors_origin h origin =
     (if nodeEnv (h_config h) = ''development'' \<or> \<not> truthy origin then ret ()
      else if origin \<in> JStr ` set ([''http://localhost:5173'', ''http://127.0.0.1:5173'', ''http://localhost:5174'',
             ''http://127.0.0.1:5174'', ''http://localhost:3000'', ''http://localhost:8091'', ''http://127.0.0.1:8091'',
             ''http://localhost:4321'', ''http://127.0.0.1:4321'', clientUrl (h_config h)] @ clientUrls (h_config h))
      then ret () else raise (Error ''Not allowed by CORS''))"

definition error_response :: "passport \<Rightarrow> 'r host \<Rightarrow> exn \<Rightarrow> ('w, outcome) act" where
  "error_response pp h e =
     (if e = Error ''Not allowed by CORS'' then status_json 403 (failed ''Forbidden'')
      else status_json 500 (failed (if nodeEnv (h_config h) = ''development'' then pp_message pp e else ''Internal server error'')))"

definition serve :: "zod \<Rightarrow> passport \<Rightarrow> 'r host \<Rightarrow> string \<Rightarrow> string \<Rightarrow> request \<Rightarrow> ('r exchange, outcome) act" where
  "serve z pp h httpMethod path rq = catchE
     (thenE (cors_origin h (js_get (rq_headers rq) ''origin''))
        (case map_of route_table (httpMethod, path) of
           None \<Rightarrow> status_json 404 (failed ''Route not found'')
         | Some r \<Rightarrow> auth_route z pp h r rq))
     (error_response pp h)"

end
