(* ===== verification/Route_Properties.thy ===== *)
theory Route_Properties
  imports Routes Auth_Properties
begin

text \<open>
  What holds of the server as a whole: every request keeps the constraints of the tables, the routes
  are guarded, and how the OAuth strategies treat accounts with a password.
\<close>

section \<open>The constraints of the tables\<close>

lemma keeps_case_outcome [keeps_rules]:
  "(\<And>n b. keeps P (f n b)) \<Longrightarrow> (\<And>u. keeps P (g u)) \<Longrightarrow> (\<And>rq. keeps P (k rq)) \<Longrightarrow> keeps P (case_outcome f g k out)"
  by (cases out) simp_all

lemma keeps_via [keeps_rules]: "keeps P m \<Longrightarrow> (\<And>rq. keeps P (k rq)) \<Longrightarrow> keeps P (via m k)"
  unfolding via_def by (intro keeps_rules | assumption)+

lemma keeps_guards [keeps_rules]:
  "(\<And>rq. keeps_db db_ok (k rq)) \<Longrightarrow> keeps_db db_ok (signed_in h k rq)"
  "(\<And>rq. keeps_db db_ok (k rq)) \<Longrightarrow> keeps_db db_ok (csrf_checked h k rq)"
  "(\<And>rq. keeps_db db_ok (k rq)) \<Longrightarrow> keeps_db db_ok (checked z name schema k rq)"
  "keeps_db db_ok (requireOAuthProvider h p rq)" "keeps_db db_ok (error_response pp h e)" "keeps_db db_ok (cors_origin h origin)"
  unfolding signed_in_def csrf_checked_def checked_def validate_def requireOAuthProvider_def error_response_def cors_origin_def
  by (intro keeps_rules | assumption)+

lemma keeps_auth_route [keeps_rules]: "keeps_db db_ok (auth_route z pp h r rq)"
  by (cases r; simp only: auth_route.simps; intro keeps_rules)

lemma keeps_serve: "keeps_db db_ok (serve z pp h m p rq)"
  unfolding serve_def by (intro keeps_rules)

text \<open>A sequence of requests, each with its own response.\<close>

fun serve_all :: "zod \<Rightarrow> passport \<Rightarrow> ('r host \<times> string \<times> string \<times> request) list \<Rightarrow> 'r exchange \<Rightarrow> 'r exchange" where
  "serve_all z pp [] w = w"
| "serve_all z pp ((h, m, p, rq) # rs) w = serve_all z pp rs (snd (serve z pp h m p rq (w\<lparr>res_cookies := []\<rparr>)))"

lemma serve_all_ok: "db_ok (database w) \<Longrightarrow> db_ok (database (serve_all z pp rs w))"
proof (induction z pp rs w rule: serve_all.induct)
  case (2 z pp h m p rq rs w)
  obtain x w' where s: "serve z pp h m p rq (w\<lparr>res_cookies := []\<rparr>) = (x, w')" by fastforce
  from keepsD [OF keeps_serve _ s] 2(2) have "db_ok (database w')" by simp
  with 2(1) s show ?case by simp
qed simp

lemma unclashed_distinct:
  "unclashed ks rs \<Longrightarrow> [c] \<in> set ks \<Longrightarrow> \<forall>r \<in> set rs. r c \<noteq> JNull \<Longrightarrow> distinct (map (\<lambda>r. r c) rs)"
proof (induction rs)
  case (Cons r rs)
  have "free_of ks r r'" if "r' \<in> set rs" for r' using Cons.prems(1) that by (simp add: unclashed_def)
  then have "r' c \<noteq> r c" if "r' \<in> set rs" for r'
    using Cons.prems(2,3) that by (fastforce simp: free_of_def list_all_iff clash_def)
  moreover have "unclashed ks rs" using Cons.prems(1) by (simp add: unclashed_def)
  ultimately have "r c \<notin> (\<lambda>r. r c) ` set rs" "unclashed ks rs" by (metis imageE, simp)
  with Cons show ?case by simp
qed simp

lemma db_ok_emails: "db_ok d \<Longrightarrow> distinct (map (\<lambda>r. r ''email'') (users d))"
proof (rule unclashed_distinct)
  assume "db_ok d"
  then show "unclashed users_keys (users d)" "\<forall>r \<in> set (users d). r ''email'' \<noteq> JNull"
    by (auto simp: db_ok_def list_all_iff users_row_ok_def not_nulls_def users_columns_def col_defs)
qed (simp add: users_keys_def)


section \<open>Guards\<close>


lemma via_answer: "via m k w = (Inr (Respond n b), w') \<longleftrightarrow>
    m w = (Inr (Respond n b), w') \<or> (\<exists>rq w1. m w = (Inr (Next rq), w1) \<and> k rq w1 = (Inr (Respond n b), w'))"
  by (cases "m w") (auto simp: via_def bindE_def ret_apply split: sum.splits outcome.splits)

lemma guards_refuse: "authenticate h rq w \<noteq> (Inr (Respond 200 b), w')" "requireVerifiedEmail rq w \<noteq> (Inr (Respond 200 b), w')"
  by (auto simp: authenticate_def requireVerifiedEmail_def handler_simps split: option.splits if_splits)

lemma signed_in_answer:
  assumes "signed_in h k rq w = (Inr (Respond 200 b), w')"
  shows "\<exists>tok payload r. bearer_token rq = Some tok \<and> verifyAccessToken h tok = Some payload
    \<and> user_row (database w) (js_String (js_get payload ''userId'')) = Some r
    \<and> \<not> tokenVersionStale (js_get payload ''tv'') (r ''token_version'') \<and> truthy (r ''is_email_verified'')"
proof -
  from assms obtain rq1 w1 rq2 w2 where a: "authenticate h rq w = (Inr (Next rq1), w1)"
    and v: "requireVerifiedEmail rq1 w1 = (Inr (Next rq2), w2)"
    by (auto simp: signed_in_def via_answer guards_refuse)
  from authenticate_next [OF a] obtain tok payload r where t: "bearer_token rq = Some tok" "verifyAccessToken h tok = Some payload"
      "user_row (database w) (js_String (js_get payload ''userId'')) = Some r"
      "\<not> tokenVersionStale (js_get payload ''tv'') (r ''token_version'')"
    and rq1: "rq1 = rq\<lparr>rq_user := Some (loaded (project (columns_of None) r))\<rparr>" by blast
  have "''isEmailVerified'' \<in> set (resolveFields None)" by code_simp
  from getf_projected [OF known_default this] have "truthy (r ''is_email_verified'')"
    using v by (auto simp: rq1 requireVerifiedEmail_def handler_simps field_columns split: if_splits)
  with t show ?thesis by blast
qed

text \<open>
  (C8) The routes of the account need an account: each of them answers 200 only to a
  bearer token that verifies as an access token of a stored account with a verified address and
  with the token version of that account.
\<close>

theorem account_routes_need_token:
  assumes "r \<in> {R_me, R_migrate_init, R_migrate_resend, R_migrate_status, R_migrate_history, R_migrate_finalize, R_bio}"
    and "auth_route z pp h r rq w = (Inr (Respond 200 b), w')"
  shows "\<exists>tok payload row. bearer_token rq = Some tok \<and> verifyAccessToken h tok = Some payload
    \<and> user_row (database w) (js_String (js_get payload ''userId'')) = Some row
    \<and> coalesce (js_get payload ''tv'') (JNum 0) = coalesce (row ''token_version'') (JNum 0) \<and> truthy (row ''is_email_verified'')"
proof -
  from assms obtain k where "signed_in h k rq w = (Inr (Respond 200 b), w')" by auto
  from signed_in_answer [OF this] show ?thesis by (auto simp: tokenVersionStale_def)
qed

section \<open>Providers\<close>

lemma oauth_columns: "field_value r ''previousEmail'' = r ''previous_email''" "field_value r ''providerId'' = r ''provider_id''"
  "field_value r ''email'' = r ''email''"
proof -
  have "map field_col [''previousEmail'', ''providerId'', ''email''] = [''previous_email'', ''provider_id'', ''email'']" by code_simp
  moreover have "''providerId'' \<in> set ALL_FIELDS" by code_simp
  ultimately show "field_value r ''previousEmail'' = r ''previous_email''" "field_value r ''providerId'' = r ''provider_id''"
    "field_value r ''email'' = r ''email''" by (simp_all add: field_value_col)
qed

lemma default_shows:
  "list_all (\<lambda>f. f \<in> set (resolveFields None)) [''id'', ''provider'', ''previousEmail'', ''isEmailVerified'']"
  "''password'' \<notin> set (resolveFields None)" "''providerId'' \<in> set ALL_FIELDS"
  by code_simp+

lemma default_fields_of:
  "f \<in> {''id'', ''provider'', ''previousEmail'', ''isEmailVerified''} \<Longrightarrow>
     getf (loaded (project (columns_of None) r)) f = field_value r f"
  "getf (loaded (project (columns_of None) r)) ''password'' = JUndef"
  using default_shows(1) getf_found [OF known_default, of "''password''" r] default_shows(2)
  by (auto intro: getf_projected [OF known_default])

lemma stored_oauth:
  "stored h ''provider'' (JStr s) = JStr s" "stored h ''providerId'' (JStr s) = JStr s" "stored h ''isEmailVerified'' (JBool b) = JBool b"
proof -
  have c: "map field_col [''provider'', ''providerId'', ''isEmailVerified''] = [''provider'', ''provider_id'', ''is_email_verified'']"
    by code_simp
  show "stored h ''provider'' (JStr s) = JStr s" "stored h ''providerId'' (JStr s) = JStr s" "stored h ''isEmailVerified'' (JBool b) = JBool b"
    using c by (simp_all add: stored_def write_param_def users_types JSONB_FIELDS_def)
qed

lemma take_over_effect:
  assumes ok: "db_ok (database w)" and r: "user_row (database w) uid = Some r" and l: "r ''provider'' = JStr ''local''"
    and t: "take_over h p pid (loaded (project (columns_of None) r)) w = (Inr x, w')"
  shows "\<exists>u r'. x = Some u \<and> user_row (database w') uid = Some r' \<and> r' ''provider'' = JStr p \<and> r' ''provider_id'' = JStr pid
    \<and> r' ''is_email_verified'' = JBool True \<and> r' ''password'' = r ''password''"
proof -
  let ?u = "loaded (project (columns_of None) r)"
  let ?v = "set_fields [(''provider'', JStr p), (''providerId'', JStr pid), (''isEmailVerified'', JBool True)] ?u"
  have pl: "getf ?u ''provider'' = JStr ''local''" using l by (simp add: default_fields_of field_columns)
  have can: "canOAuthTakeOverLocalAccount ?u" by (simp add: canOAuthTakeOverLocalAccount_def default_fields_of)
  from t pl can obtain u d1 d2 where s: "save h [] ?v (database w) = (Inr u, d1)"
    and y: "syncIdentityIndexesFromUser h u d1 = (Inr (), d2)" and x: "x = Some u" and w': "database w' = d2"
    by (auto simp: take_over_def handler_simps)
  have tv: "tracked ?v" using default_shows(3) by (simp add: set_fields_def)
  have i: "getf ?v ''id'' = JStr uid"
    using user_row_Some [OF r] by (simp add: set_fields_def getf_setf default_fields_of field_columns)
  from save_effect [OF ok s tv i r] obtain r' where r': "user_row d1 uid = Some r'" and wr: "row_written h ?v r r'" by blast
  have m: "f \<in> set (write_fields ?v)" if "f \<in> {''provider'', ''providerId'', ''isEmailVerified''}" for f
    using that by (auto simp: write_fields_def set_fold_add set_fields_def setf_def set_add_def clock_fields_def)
  have n: "''password'' \<notin> set (write_fields ?v)"
    by (auto simp: write_fields_def set_fold_add set_fields_def setf_def set_add_def JSONB_LIST_def)
  have g: "getf ?v ''provider'' = JStr p" "getf ?v ''providerId'' = JStr pid" "getf ?v ''isEmailVerified'' = JBool True"
    by (simp_all add: set_fields_def getf_setf)
  have "field_value r' f = stored h f (getf ?v f)" if "f \<in> {''provider'', ''providerId'', ''isEmailVerified''}" for f
    using wr m [OF that] that default_shows(3) by (auto simp: row_written_def)
  from this [of "''provider''", unfolded g] this [of "''providerId''", unfolded g] this [of "''isEmailVerified''", unfolded g]
  have "r' ''provider'' = JStr p" "r' ''provider_id'' = JStr pid" "r' ''is_email_verified'' = JBool True"
    by (simp_all add: stored_oauth field_columns oauth_columns)
  moreover have "field_value r' ''password'' = field_value r ''password''"
    using wr n by (auto simp: row_written_def)
  ultimately show ?thesis using x r' sync_row_same [OF y] by (simp add: w' field_columns)
qed

text \<open>
  (C12) A verified account with a password is taken over by whoever controls the address at a
  provider: the check that should block this reads the password from a document that was loaded without it.
  When the provider's identity is new and the address leads to a local account (not as a previous address), the
  search for the user never reports a conflict; it turns the account into one of the provider. The
  account keeps its password hash, but password logins need a local account.
\<close>

theorem oauth_takes_over_password_account:
  assumes ok: "db_ok (database w)"
    and o: "findUserIdByOAuth h p pid (database w) = (Inr None, d1)"
    and i: "resolveEmailIdentity h (normalizeEmail email) d1 = (Inr (Some i), d2)"
    and r: "user_row (database w) (js_String (ri_userId i)) = Some r" and l: "r ''provider'' = JStr ''local''"
    and pr: "r ''previous_email'' \<noteq> JStr (normalizeEmail email)"
    and run: "findUserForOAuth h email p pid w = (Inr x, w')"
  shows "\<exists>u r'. x = Some u \<and> user_row (database w') (js_String (ri_userId i)) = Some r' \<and> r' ''provider'' = JStr p
    \<and> r' ''provider_id'' = JStr pid \<and> r' ''is_email_verified'' = JBool True \<and> r' ''password'' = r ''password''"
proof -
  have s: "same_tables (database w) d2"
    using lookup_same(4) [OF o] lookup_same(1) [OF i] by (simp add: same_tables_def)
  from run obtain found d3 where f: "findById h (ri_userId i) None d2 = (Inr found, d3)"
    and t: "(case found of None \<Rightarrow> ret None | Some u \<Rightarrow>
        if getf u ''previousEmail'' = JStr (normalizeEmail email) \<and> getf u ''email'' \<noteq> JStr (normalizeEmail email) then
          (if after (getf u ''migrationExpiry'') (h_now h) then ret (Some u)
           else bindE (on_db (findUserIdByPrimaryEmail h (normalizeEmail email))) (\<lambda>primaryUserId.
                bindE (find_optional h primaryUserId None) (\<lambda>byNewEmail.
                  take_over h p pid (case byNewEmail of None \<Rightarrow> u | Some v \<Rightarrow> v))))
        else take_over h p pid u) (w\<lparr>database := d3\<rparr>) = (Inr x, w')"
    by (auto simp: findUserForOAuth_def bindE_eq_Inr on_db_eq_Inr find_optional_def ret_Inr o i)
  from findById_effect [OF f known_default] r s have u: "found = Some (loaded (project (columns_of None) r))" and s3: "same_tables d2 d3"
    by (auto simp: same_tables_rows)
  from t pr have tk: "take_over h p pid (loaded (project (columns_of None) r)) (w\<lparr>database := d3\<rparr>) = (Inr x, w')"
    by (simp add: u default_fields_of oauth_columns)
  from ok r s s3 have "db_ok (database (w\<lparr>database := d3\<rparr>))" "user_row (database (w\<lparr>database := d3\<rparr>)) (js_String (ri_userId i)) = Some r"
    by (simp_all add: same_tables_ok same_tables_rows)
  from take_over_effect [OF this l tk] show ?thesis .
qed

section \<open>Examples\<close>

definition toy_zod :: zod where
  "toy_zod = \<lparr>z_email = (\<lambda>s. True), z_url = (\<lambda>s. True), z_issues = (\<lambda>n b. JArr [])\<rparr>"

definition toy_passport :: passport where
  "toy_passport = \<lparr>pp_begin = (\<lambda>p os. p), pp_google = (\<lambda>rq. None), pp_github = (\<lambda>rq. None), pp_emails = (\<lambda>t. Inr None),
     pp_message = (\<lambda>e. [])\<rparr>"



theorem account_routes_need_token_witness:
  "\<exists>tok payload row. verifyAccessToken demo_host tok = Some payload
     \<and> user_row account_db (js_String (js_get payload ''userId'')) = Some row \<and> truthy (row ''is_email_verified'')"
proof -
  let ?rq = "(posted [])\<lparr>rq_headers := JObj [(''authorization'', JStr ''Bearer t'')]\<rparr>"
  have "ok_body (fst (auth_route toy_zod toy_passport demo_host R_me ?rq account_exchange)) \<noteq> None" by code_simp
  from ok_bodyD [OF this] obtain b w' where "auth_route toy_zod toy_passport demo_host R_me ?rq account_exchange = (Inr (Respond 200 b), w')"
    by blast
  from account_routes_need_token [OF _ this] show ?thesis by (auto simp: account_exchange_def world.defs)
qed

theorem oauth_takes_over_password_account_witness:
  "\<exists>(w' :: mem exchange) r r'. user_row account_db ''u1'' = Some r \<and> truthy (r ''is_email_verified'') \<and> r ''password'' = JStr ''$pw''
     \<and> user_row (database w') ''u1'' = Some r' \<and> r' ''provider'' = JStr ''google''"
proof -
  have db: "database account_exchange = account_db" by (simp add: account_exchange_def world.defs)
  have "case findUserIdByOAuth demo_host ''google'' ''g1'' account_db of (Inr None, _) \<Rightarrow> True | _ \<Rightarrow> False" by code_simp
  then obtain d1 where o: "findUserIdByOAuth demo_host ''google'' ''g1'' account_db = (Inr None, d1)"
    by (auto split: prod.splits sum.splits option.splits)
  have "case resolveEmailIdentity demo_host (normalizeEmail ''a@b.c'') (snd (findUserIdByOAuth demo_host ''google'' ''g1'' account_db)) of
      (Inr (Some i), _) \<Rightarrow> ri_userId i = JStr ''u1'' | _ \<Rightarrow> False" by code_simp
  then obtain i d2 where i: "resolveEmailIdentity demo_host (normalizeEmail ''a@b.c'') d1 = (Inr (Some i), d2)" "ri_userId i = JStr ''u1''"
    by (auto simp: o split: prod.splits sum.splits option.splits)
  have "case findUserForOAuth demo_host ''a@b.c'' ''google'' ''g1'' account_exchange of (Inr _, _) \<Rightarrow> True | _ \<Rightarrow> False" by code_simp
  then obtain x w' where run: "findUserForOAuth demo_host ''a@b.c'' ''google'' ''g1'' account_exchange = (Inr x, w')"
    by (auto split: prod.splits sum.splits)
  have r: "user_row account_db ''u1'' = Some demo_account" by (simp add: user_row_def account_db_def demo_account_def demo_user_def)
  have f: "demo_account ''provider'' = JStr ''local''" "demo_account ''previous_email'' \<noteq> JStr (normalizeEmail ''a@b.c'')"
    "truthy (demo_account ''is_email_verified'')" "demo_account ''password'' = JStr ''$pw''" by code_simp+
  from oauth_takes_over_password_account [OF account_ok, unfolded db, OF o i(1) _ f(1,2) run] r i(2) f(3,4)
  show ?thesis by auto
qed

end
