(* ===== verification/Client_Server.thy ===== *)
theory Client_Server
  imports Api_Client Route_Properties
begin

text \<open>
  The page and the server together: the browser's transport delivers the requests of the client of
  \<open>Api_Client\<close> to the dispatch of \<open>Routes\<close> and keeps the cookies of the answers.
\<close>

section \<open>The browser between page and server\<close>

text \<open>A cookie jar, newest first. The cookies are those of the path \<open>/api/auth\<close>, which all requests have.\<close>

type_synonym jar = "(string \<times> string) list"

fun keep_cookie :: "cookie \<Rightarrow> jar \<Rightarrow> jar" where
  "keep_cookie (SetCookie n v httpOnly maxAge secure sameSite path) jar = (n, v) # filter (\<lambda>(k, _). k \<noteq> n) jar"
| "keep_cookie (ClearCookie n secure sameSite path) jar = filter (\<lambda>(k, _). k \<noteq> n) jar"

text \<open>The value that the page parses from the text of an answer: no undefined fields, dates as text.\<close>

fun serial :: "(ms \<Rightarrow> string) \<Rightarrow> js \<Rightarrow> js" where
  "serial date_text (JObj fs) = JObj (filter (\<lambda>(k, v). v \<noteq> JUndef) (map (\<lambda>(k, v). (k, serial date_text v)) fs))"
| "serial date_text (JArr xs) = JArr (map (\<lambda>v. case serial date_text v of JUndef \<Rightarrow> JNull | w \<Rightarrow> w) xs)"
| "serial date_text (JDate t) = JStr (date_text t)"
| "serial date_text v = v"

text \<open>Header names arrive in lower case; the browser adds the origin of the page, which is a configured client.\<close>

definition server_request :: "'r host \<Rightarrow> jar \<Rightarrow> fetch_request \<Rightarrow> request" where
  "server_request h jar fr =
     \<lparr>rq_body = (case fr_body fr of None \<Rightarrow> JUndef | Some t \<Rightarrow> (case JSON_parse t of None \<Rightarrow> JUndef | Some v \<Rightarrow> v)),
      rq_cookies = JObj (map (\<lambda>(k, v). (k, JStr v)) jar),
      rq_headers = JObj ((''origin'', JStr (clientUrl (h_config h))) # map (\<lambda>(k, v). (toLowerCase k, v)) (fr_headers fr)),
      rq_query = JObj [], rq_user = None\<rparr>"

definition backend_fetch :: "zod \<Rightarrow> passport \<Rightarrow> 'r host \<Rightarrow> (ms \<Rightarrow> string) \<Rightarrow> fetch_request \<Rightarrow> jar \<times> 'r exchange \<Rightarrow> fetch_result \<times> (jar \<times> 'r exchange)" where
  "backend_fetch z pp h date_text fr n = (case n of (jar, w) \<Rightarrow>
     case serve z pp h (fr_method fr) (fr_url fr) (server_request h jar fr) (w\<lparr>res_cookies := []\<rparr>) of
       (Inr (Respond s b), w') \<Rightarrow>
         (Response (s, ''application/json; charset=utf-8'', Some (serial date_text b)), (fold keep_cookie (res_cookies w') jar, w'))
     | (_, w') \<Rightarrow> (NetworkError, (fold keep_cookie (res_cookies w') jar, w')))"

text \<open>A page outside \<open>/api/auth\<close> does not read these cookies.\<close>

definition backend_web :: "zod \<Rightarrow> passport \<Rightarrow> 'r host \<Rightarrow> (ms \<Rightarrow> string) \<Rightarrow> (jar \<times> 'r exchange) web" where
  "backend_web z pp h date_text = \<lparr>w_fetch = backend_fetch z pp h date_text, w_cookie = (\<lambda>_. []), w_decode = Some, w_now = h_now h,
     w_random = replicate 32 0, w_digest = (\<lambda>_. replicate 32 0), w_url = (\<lambda>_. None), w_query = (\<lambda>_. []), API_BASE_URL = ''/api''\<rparr>"

abbreviation jar_of :: "(jar \<times> 'r exchange) page \<Rightarrow> jar" where
  "jar_of p \<equiv> fst (network p)"

abbreviation server_of :: "(jar \<times> 'r exchange) page \<Rightarrow> 'r exchange" where
  "server_of p \<equiv> snd (network p)"

definition in_sync :: "(jar \<times> 'r exchange) page \<Rightarrow> string \<Rightarrow> bool" where
  "in_sync p s \<longleftrightarrow> s \<noteq> [] \<and> pg_csrfToken p = JStr s \<and> map_of (jar_of p) CSRF_COOKIE = Some s"

section \<open>Shared rules\<close>

lemma js_get_jar: "js_get (JObj (map (\<lambda>(k, v). (k, JStr v)) jar)) k = (case map_of jar k of None \<Rightarrow> JUndef | Some v \<Rightarrow> JStr v)"
  by (induction jar) auto

lemma cors_own: "cors_origin h (js_get (rq_headers (server_request h jar fr)) ''origin'') w = (Inr (), w)"
  by (simp add: cors_origin_def server_request_def ret_apply)

lemma serve_own:
  "map_of route_table (fr_method fr, fr_url fr) = Some r \<Longrightarrow>
     serve z pp h (fr_method fr) (fr_url fr) (server_request h jar fr) w = catchE (auth_route z pp h r (server_request h jar fr)) (error_response pp h) w"
  unfolding serve_def by (simp add: catchE_def thenE_def bindE_def cors_own)

lemma filter_other [simp]: "k \<noteq> n \<Longrightarrow> map_of (filter (\<lambda>(a, _). a \<noteq> n) jar) k = map_of jar k"
  by (induction jar) auto

lemma routes:
  "map_of route_table (''GET'', ''/api/auth/csrf'') = Some R_csrf" "map_of route_table (''POST'', ''/api/auth/logout'') = Some R_logout"
  "map_of route_table (''POST'', ''/api/auth/verify-email'') = Some R_verify_email"
  by code_simp+

lemma csrf_header:
  "js_get (rq_headers (server_request h jar \<lparr>fr_method = m, fr_url = u,
     fr_headers = [(''Content-Type'', JStr ''application/json''), (''X-CSRF-Token'', t)] @ hs, fr_body = b\<rparr>)) ''x-csrf-token'' = t"
proof -
  have "map toLowerCase [''Content-Type'', ''X-CSRF-Token''] = [''content-type'', ''x-csrf-token'']" by code_simp
  then show ?thesis by (simp add: server_request_def)
qed

lemma csrf_cookie: "js_get (rq_cookies (server_request h jar fr)) CSRF_COOKIE = (case map_of jar CSRF_COOKIE of None \<Rightarrow> JUndef | Some v \<Rightarrow> JStr v)"
  by (simp add: server_request_def js_get_jar del: js_get.simps)

section \<open>The token of the page and the cookie\<close>

lemma json_type: "str_includes ''application/json; charset=utf-8'' ''application/json''"
  by code_simp

lemma fetch_served:
  assumes "map_of route_table (fr_method fr, fr_url fr) = Some r"
    and "auth_route z pp h r (server_request h jar fr) (w\<lparr>res_cookies := []\<rparr>) = (Inr (Respond s b), w')"
  shows "backend_fetch z pp h date_text fr (jar, w)
    = (Response (s, ''application/json; charset=utf-8'', Some (serial date_text b)), (fold keep_cookie (res_cookies w') jar, w'))"
  using assms by (simp add: backend_fetch_def serve_own catchE_def)

lemma csrf_served:
  assumes "map_of jar CSRF_COOKIE \<noteq> Some []" "h_fresh h 0 \<noteq> []"
  shows "\<exists>s jar' w'. backend_fetch z pp h date_text \<lparr>fr_method = ''GET'', fr_url = ''/api/auth/csrf'', fr_headers = [], fr_body = None\<rparr> (jar, w)
      = (Response (200, ''application/json; charset=utf-8'', Some (JObj [(''success'', JBool True), (''csrfToken'', JStr s)])), (jar', w'))
    \<and> s \<noteq> [] \<and> map_of jar' CSRF_COOKIE = Some s"
proof -
  let ?fr = "\<lparr>fr_method = ''GET'', fr_url = ''/api/auth/csrf'', fr_headers = [], fr_body = None\<rparr>"
  let ?w = "w\<lparr>res_cookies := []\<rparr>"
  have r: "map_of route_table (fr_method ?fr, fr_url ?fr) = Some R_csrf" using routes(1) by simp
  show ?thesis
  proof (cases "map_of jar CSRF_COOKIE")
    case None
    then have "auth_route z pp h R_csrf (server_request h jar ?fr) ?w
        = (Inr (Respond 200 (JObj [(''success'', JBool True), (''csrfToken'', JStr (h_fresh h 0))])), ?w\<lparr>res_cookies :=
            [SetCookie CSRF_COOKIE (h_fresh h 0) False CSRF_MAX_AGE_MS (cookie_secure (h_config h)) (cookie_sameSite (h_config h)) (cookie_path (h_config h))]\<rparr>)"
      by (simp add: getCsrfToken_def issueCsrfCookie_def csrf_cookie res_cookie_def json_def bindE_def thenE_def act_simps del: js_get.simps)
    from fetch_served [OF r this] assms(2) show ?thesis by simp
  next
    case (Some s)
    then have "auth_route z pp h R_csrf (server_request h jar ?fr) ?w
        = (Inr (Respond 200 (JObj [(''success'', JBool True), (''csrfToken'', JStr s)])), ?w)"
      using assms(1) by (simp add: getCsrfToken_def issueCsrfCookie_def csrf_cookie json_def bindE_def act_simps del: js_get.simps)
    from fetch_served [OF r this] Some assms(1) show ?thesis by simp
  qed
qed

lemma ensure_syncs:
  assumes "map_of jar CSRF_COOKIE \<noteq> Some []" "h_fresh h 0 \<noteq> []" "\<not> truthy (pg_csrfToken p)" "pg_csrfInit p = None" "network p = (jar, w)"
  shows "\<exists>s p'. ensureCsrf (backend_web z pp h date_text) p = (Inr (), p') \<and> in_sync p' s"
proof -
  from csrf_served [OF assms(1,2)] obtain s jar' w' where f: "backend_fetch z pp h date_text
      \<lparr>fr_method = ''GET'', fr_url = ''/api/auth/csrf'', fr_headers = [], fr_body = None\<rparr> (jar, w)
      = (Response (200, ''application/json; charset=utf-8'', Some (JObj [(''success'', JBool True), (''csrfToken'', JStr s)])), (jar', w'))"
    "s \<noteq> []" "map_of jar' CSRF_COOKIE = Some s" by blast
  show ?thesis
    using f assms(3-5)
    by (simp add: ensureCsrf_def start_csrf_def await_csrf_def csrf_bootstrap_def send_def backend_web_def bindE_def thenE_def act_simps
        parseJsonResponse_def json_type field_of_def in_sync_def)
qed


section \<open>Logging out after a verification\<close>

lemma cookies_cache [simp]:
  "res_cookies (cacheSet ex now rnd k v n w) = res_cookies w" "res_cookies (cacheDel ex now rnd k w) = res_cookies w"
  "res_cookies (snd (cacheGet ex now rnd k w)) = res_cookies w"
  by (rule cacheSet_frame [of ex now rnd k v n w], simp) (rule cacheDel_frame [of ex now rnd k w], simp,
    rule cacheGet_frame [of ex now rnd k w], simp)

lemma cookies_fetch [simp]: "res_cookies (snd (fetch_and_delete ex now rnd k w)) = res_cookies w"
proof -
  obtain v w' where g: "cacheGet ex now rnd k w = (v, w')" by fastforce
  with cookies_cache(3) [of ex now rnd k w] show ?thesis
    by (simp add: fetch_and_delete_def split: option.splits)
qed

lemma cookies_fetchD: "fetch_and_delete ex now rnd k w = (r, w') \<Longrightarrow> res_cookies w' = res_cookies w"
  by (metis cookies_fetch snd_conv)

lemma cookies_form: "consumeFormToken ex now rnd tok kind w = (r, w') \<Longrightarrow> res_cookies w' = res_cookies w"
  by (auto simp: consumeFormToken_def Let_def split: if_splits prod.splits option.splits dest: cookies_fetchD)

lemma cookies_publish: "publishTokenVersion h uid v w = (r, w') \<Longrightarrow> res_cookies w' = res_cookies w"
proof -
  have "res_cookies (snd (publishTokenVersion h uid v w)) = res_cookies w"
    by (simp add: publishTokenVersion_def Let_def case_prod_unfold)
  then show "publishTokenVersion h uid v w = (r, w') \<Longrightarrow> res_cookies w' = res_cookies w" by simp
qed

lemma cookies_persist: "persistSessionTokens h uid a t v w = (Inr x, w') \<Longrightarrow> res_cookies w' = res_cookies w"
  by (auto simp: persistSessionTokens_def handler_simps dest: cookies_publish)

text \<open>A verification that answers well has opened a session, with a new double-submit cookie.\<close>

lemma verify_cookies:
  assumes "verifyEmail h rq w = (Inr (Respond n b), w')" "n < 300" "res_cookies w = []"
  shows "\<exists>t a. res_cookies w' = [SetCookie REFRESH_COOKIE t True a (cookie_secure (h_config h)) (cookie_sameSite (h_config h)) (cookie_path (h_config h)),
    SetCookie CSRF_COOKIE (h_fresh h 5) False a (cookie_secure (h_config h)) (cookie_sameSite (h_config h)) (cookie_path (h_config h))]"
proof -
  from assms(1,2) obtain form w1 u w2 tokens where
      f: "redeem_form h (js_get (rq_body rq) ''formToken'') VerifyEmail w = (Inr (Some form), w1)"
    and o: "open_session h u w2 = (Inr tokens, w')" and c: "res_cookies w2 = res_cookies w1"
    by (auto simp: verifyEmail_def handler_simps split: option.splits)
  have "res_cookies w1 = []" using f assms(3) by (auto simp: redeem_form_def handler_simps dest: cookies_form)
  moreover from o obtain t a w3 where "persistSessionTokens h (getf u ''_id'') (fst tokens) t (version_of u) w2 = (Inr (), w3)"
    "issueSessionCookies h (h_fresh h 5) t w3 = (Inr (), w')"
    by (auto simp: open_session_def handler_simps split: prod.splits)
  ultimately show ?thesis using c cookies_persist
    by (fastforce simp: issueSessionCookies_def setAuthCookies_def res_cookie_def thenE_def bindE_def act_simps Let_def)
qed

text \<open>What the server made of a request that the client took for a success.\<close>

lemma fetch_answer:
  assumes "backend_fetch z pp h date_text fr (jar, w) = (Response (n, ct, b), (jar', w'))" and "n < 300"
    and "map_of route_table (fr_method fr, fr_url fr) = Some r"
  shows "\<exists>b0. auth_route z pp h r (server_request h jar fr) (w\<lparr>res_cookies := []\<rparr>) = (Inr (Respond n b0), w')
    \<and> ct = ''application/json; charset=utf-8'' \<and> b = Some (serial date_text b0) \<and> jar' = fold keep_cookie (res_cookies w') jar"
proof -
  obtain x w1 where a: "auth_route z pp h r (server_request h jar fr) (w\<lparr>res_cookies := []\<rparr>) = (x, w1)" by fastforce
  show ?thesis
  proof (cases x)
    case (Inl e)
    with assms a show ?thesis
      by (auto simp: backend_fetch_def serve_own catchE_def error_response_def status_json_def ret_apply split: if_splits)
  next
    case (Inr out)
    with assms a show ?thesis by (cases out) (auto simp: backend_fetch_def serve_own catchE_def)
  qed
qed

lemma verify_request:
  assumes "in_sync p s" "api_verifyEmail (backend_web z pp h date_text) ft pw p = (Inr data, p')"
  shows "\<exists>fr n w' b. map_of route_table (fr_method fr, fr_url fr) = Some R_verify_email \<and> n < 300
    \<and> auth_route z pp h R_verify_email (server_request h (jar_of p) fr) ((server_of p)\<lparr>res_cookies := []\<rparr>) = (Inr (Respond n b), w')
    \<and> network p' = (fold keep_cookie (res_cookies w') (jar_of p), w') \<and> pg_csrfToken p' = JStr s"
proof -
  let ?wb = "backend_web z pp h date_text"
  let ?fr = "\<lparr>fr_method = ''POST'', fr_url = ''/api/auth/verify-email'',
      fr_headers = [(''Content-Type'', JStr ''application/json''), (''X-CSRF-Token'', JStr s)]
        @ (if truthy (pg_accessToken p) then [(''Authorization'', JStr (''Bearer '' @ js_String (pg_accessToken p)))] else []),
      fr_body = Some (stringify [(''formToken'', ft), (''password'', pw)])\<rparr>"
  have rt: "map_of route_table (fr_method ?fr, fr_url ?fr) = Some R_verify_email" using routes(3) by simp
  obtain x jar' w' where f: "backend_fetch z pp h date_text ?fr (jar_of p, server_of p) = (x, (jar', w'))" by (metis surj_pair)
  from assms f obtain n ct b where x: "x = Response (n, ct, b)" "n < 300" and p': "network p' = (jar', w')" "pg_csrfToken p' = JStr s"
    by (auto simp: api_verifyEmail_def api_post_def api_request_def ensureCsrf_def sessionHeaders_def in_sync_def send_def backend_web_def
        thenE_def bindE_def act_simps take_token_def setTokens_def field_of_def parseJsonResponse_def response_ok_def
        split: if_splits fetch_result.splits prod.splits option.splits)
  from fetch_answer [OF f [unfolded x(1)] x(2) rt] obtain b0 where
      "auth_route z pp h R_verify_email (server_request h (jar_of p) ?fr) ((server_of p)\<lparr>res_cookies := []\<rparr>) = (Inr (Respond n b0), w')"
    "jar' = fold keep_cookie (res_cookies w') (jar_of p)" by blast
  with rt x(2) p' show ?thesis by blast
qed

lemma verify_route_cookies:
  assumes "auth_route z pp h R_verify_email rq w = (Inr (Respond n b), w')" "n < 300" "res_cookies w = []"
  shows "\<exists>t a. res_cookies w' = [SetCookie REFRESH_COOKIE t True a (cookie_secure (h_config h)) (cookie_sameSite (h_config h)) (cookie_path (h_config h)),
    SetCookie CSRF_COOKIE (h_fresh h 5) False a (cookie_secure (h_config h)) (cookie_sameSite (h_config h)) (cookie_path (h_config h))]"
proof -
  from assms(1,2) have "\<exists>rq'. verifyEmail h rq' w = (Inr (Respond n b), w')"
    by (auto simp: csrf_checked_def checked_def via_answer requireCsrf_def validate_def handler_simps Let_def split: if_splits)
  with verify_cookies [OF _ assms(2,3)] show ?thesis by blast
qed



section \<open>Examples\<close>



text \<open>A page whose token is in step, in front of a server with an account that waits for its verification.\<close>

definition browser_host :: "mem host" where
  "browser_host = demo_host\<lparr>h_config := demo_config\<lparr>omitRefreshInBody := True\<rparr>\<rparr>"

definition waiting_account :: row where
  "waiting_account = (\<lambda>c. JNull)(''id'' := JStr ''u1'', ''email'' := JStr ''a@b.c'', ''display_name'' := JStr ''N'', ''login_count'' := JNum 0,
     ''provider'' := JStr ''local'', ''is_email_verified'' := JBool False, ''refresh_tokens'' := JArr [], ''active_access_jtis'' := JArr [],
     ''migration_history'' := JArr [], ''token_version'' := JNum 0, ''email_verification_token'' := JStr ''#s'',
     ''email_verification_expires'' := JDate 9000, ''created_at'' := JDate 0, ''updated_at'' := JDate 0)"

definition waiting_exchange :: "mem exchange" where
  "waiting_exchange = cacheSet mem_exec 1000 0 (form_key demo_code)
     (Json (link_payload (JStr (kind_name VerifyEmail)) (JStr ''s'') JUndef)) (Some 600)
     (account_exchange\<lparr>database := account_db\<lparr>users := [waiting_account]\<rparr>\<rparr>)"

definition waiting_page :: "(jar \<times> mem exchange) page" where
  "waiting_page = (new_page (\<lambda>_. None) ([(CSRF_COOKIE, ''t'')], waiting_exchange))\<lparr>pg_csrfToken := JStr ''t''\<rparr>"

lemma waiting_run: "ok_body (fst (verifyEmail browser_host (posted [(''formToken'', JStr demo_code), (''password'', JStr ''Abcdef1!'')]) (waiting_exchange\<lparr>res_cookies := []\<rparr>))) \<noteq> None"
  by code_simp

lemma verifyEmail_body:
  assumes e: "rq_body r1 = rq_body r2"
  shows "verifyEmail h r1 = verifyEmail h r2"
  unfolding verifyEmail_def e ..

text \<open>A verification that the server completes is a success for the client.\<close>

lemma verify_reaches:
  assumes "in_sync p s" "verifyEmail h (posted [(''formToken'', JStr ft), (''password'', JStr pw)]) ((server_of p)\<lparr>res_cookies := []\<rparr>) = (Inr (Respond 200 b), w')"
    and "emailVerifySchema (JObj [(''formToken'', JStr ft), (''password'', JStr pw)])" "b = JObj fs"
  shows "\<exists>data p'. api_verifyEmail (backend_web z pp h date_text) (JStr ft) (JStr pw) p = (Inr data, p')"
proof -
  define hs where "hs = (if truthy (pg_accessToken p) then [(''Authorization'', JStr (''Bearer '' @ js_String (pg_accessToken p)))] else [])"
  let ?fr = "\<lparr>fr_method = ''POST'', fr_url = ''/api/auth/verify-email'',
      fr_headers = (''Content-Type'', JStr ''application/json'') # (''X-CSRF-Token'', JStr s) # hs,
      fr_body = Some (stringify [(''formToken'', JStr ft), (''password'', JStr pw)])\<rparr>"
  let ?rq = "server_request h (jar_of p) ?fr"
  have bd: "rq_body ?rq = JObj [(''formToken'', JStr ft), (''password'', JStr pw)]" by (simp add: server_request_def stringify_def)
  have "requireCsrf h ?rq w = (Inr (Next ?rq), w)" for w
    using assms(1) csrf_header [of h "jar_of p" "''POST''" "''/api/auth/verify-email''" "JStr s"]
    by (simp add: requireCsrf_def in_sync_def csrf_cookie Let_def ret_apply del: js_get.simps)
  moreover have "verifyEmail h ?rq = verifyEmail h (posted [(''formToken'', JStr ft), (''password'', JStr pw)])"
    by (rule verifyEmail_body, rule trans [OF bd]) (simp add: posted_def)
  ultimately have "auth_route z pp h R_verify_email ?rq ((server_of p)\<lparr>res_cookies := []\<rparr>) = (Inr (Respond 200 b), w')"
    using assms(2,3) by (simp add: csrf_checked_def checked_def validate_def via_def bindE_def ret_apply bd)
  from fetch_served [OF _ this] routes(3) have "\<exists>n. backend_fetch z pp h date_text ?fr (network p)
      = (Response (200, ''application/json; charset=utf-8'', Some (serial date_text b)), n)" by (cases "network p") simp
  then obtain n where f: "backend_fetch z pp h date_text ?fr (network p)
      = (Response (200, ''application/json; charset=utf-8'', Some (serial date_text b)), n)" by blast
  show ?thesis
    using assms(1,4) f
    by (simp add: api_verifyEmail_def api_post_def api_request_def ensureCsrf_def sessionHeaders_def in_sync_def send_def backend_web_def
        thenE_def bindE_def act_simps take_token_def setTokens_def field_of_def parseJsonResponse_def response_ok_def json_type hs_def)
qed

lemma verify_answer_object: "verifyEmail h rq w = (Inr (Respond 200 b), w') \<Longrightarrow> \<exists>fs. b = JObj fs"
  by (auto simp: verifyEmail_def handler_simps split: option.splits)


end
