(* ===== verification/Demo_Service.thy ===== *)
theory Demo_Service
  imports UAM_Prelude
begin

text \<open>
  The sample upstream of the gateway (\<open>src/demo-backend/src\<close>): the credential store \<open>users.ts\<close> on one
  JSON file, and the handlers of \<open>server.ts\<close> that register users, log them in and mint tokens.
\<close>

section \<open>The environment\<close>

text \<open>
  The variables of the process, the clock, HMAC and bcrypt, the signature of a token, random ids,
  the text of an instant, and whether the disk accepts writes. The state is the file of the store.
\<close>

record demo =
  dm_env :: env
  dm_now :: ms
  dm_iso :: "ms \<Rightarrow> string"
  dm_hmac :: "string \<Rightarrow> string \<Rightarrow> string"
  dm_bcrypt :: "int \<Rightarrow> string \<Rightarrow> string"
  dm_compare :: "string \<Rightarrow> string \<Rightarrow> bool"
  dm_sign :: "string \<Rightarrow> js \<Rightarrow> string"
  dm_uuid :: string
  dm_writable :: bool

type_synonym 'a demo_act = "(rtext option, 'a) act"

section \<open>Credentials\<close>

definition DEFAULT_COST :: int where "DEFAULT_COST = 12"
definition MIN_PASSWORD_LEN :: nat where "MIN_PASSWORD_LEN = 8"
definition MAX_PASSWORD_LEN :: nat where "MAX_PASSWORD_LEN = 128"

definition demo_DEV_PEPPERS :: "string list" where
  "demo_DEV_PEPPERS = [[], ''dev_pepper_change_in_production'', ''change_me_use_a_long_random_pepper_at_least_32_chars'']"

definition bcryptCost :: "demo \<Rightarrow> int" where
  "bcryptCost dm = (case parseInt (or_str (dm_env dm ''BCRYPT_COST'') (show_int DEFAULT_COST)) of
      None \<Rightarrow> DEFAULT_COST
    | Some n \<Rightarrow> if n < 10 \<or> 15 < n then DEFAULT_COST else n)"

definition demo_getPepper :: "demo \<Rightarrow> string" where
  "demo_getPepper dm = or_str (dm_env dm ''PASSWORD_PEPPER'') []"

definition warnInsecurePepper :: "demo \<Rightarrow> bool" where
  "warnInsecurePepper dm \<longleftrightarrow> demo_getPepper dm \<in> set demo_DEV_PEPPERS"

definition pepperedMaterial :: "demo \<Rightarrow> string \<Rightarrow> string \<Rightarrow> string" where
  "pepperedMaterial dm password pepper = dm_hmac dm pepper password"

definition demo_hashPassword :: "demo \<Rightarrow> string \<Rightarrow> string \<Rightarrow> string" where
  "demo_hashPassword dm password pepper = dm_bcrypt dm (bcryptCost dm) (pepperedMaterial dm password pepper)"

text \<open>bcrypt throws when the stored hash is not a string.\<close>

definition demo_verifyPassword :: "demo \<Rightarrow> string \<Rightarrow> string \<Rightarrow> js \<Rightarrow> ('w, bool) act" where
  "demo_verifyPassword dm password pepper storedHash = (case storedHash of
      JStr s \<Rightarrow> ret (dm_compare dm (pepperedMaterial dm password pepper) s)
    | _ \<Rightarrow> raise (Error ''data and hash arguments required''))"

definition username_char :: "char \<Rightarrow> bool" where
  "username_char c \<longleftrightarrow> is_upper c \<or> 97 \<le> (of_char c :: nat) \<and> (of_char c :: nat) \<le> 122 \<or> is_digit c \<or> c \<in> set ''._-''"

definition validateUsername :: "string \<Rightarrow> string option" where
  "validateUsername username =
     (if 3 \<le> length username \<and> length username \<le> 64 \<and> list_all username_char username then None
      else Some ''username must be 3-64 chars (letters, digits, . _ -)'')"

definition demo_validatePassword :: "string \<Rightarrow> string option" where
  "demo_validatePassword password =
     (if length password < MIN_PASSWORD_LEN \<or> MAX_PASSWORD_LEN < length password
      then Some ''password must be 8-128 characters'' else None)"

section \<open>The store\<close>

text \<open>
  A property of a plain object that is not its own comes from \<open>Object.prototype\<close>. The module writes
  objects only; the further members of an array that someone else put into the file are left out.
\<close>

definition PROTO_MEMBERS :: "string list" where
  "PROTO_MEMBERS = [''constructor'', ''__defineGetter__'', ''__defineSetter__'', ''hasOwnProperty'', ''__lookupGetter__'',
     ''__lookupSetter__'', ''isPrototypeOf'', ''propertyIsEnumerable'', ''toString'', ''valueOf'', ''__proto__'', ''toLocaleString'']"

definition member :: "js \<Rightarrow> string \<Rightarrow> ('w, js) act" where
  "member v k = (case v of
      JObj fs \<Rightarrow> ret (case map_of fs k of Some x \<Rightarrow> x | None \<Rightarrow> if k \<in> set PROTO_MEMBERS then JObj [] else JUndef)
    | JNull \<Rightarrow> raise type_error
    | _ \<Rightarrow> ret (if k \<in> set PROTO_MEMBERS then JObj [] else JUndef))"

text \<open>\<open>loadStore\<close>: the object of users, which is null when the file says so.\<close>

definition loadStore :: "js demo_act" where
  "loadStore file = (case file of
      None \<Rightarrow> (Inr (JObj []), file)
    | Some t \<Rightarrow> (case JSON_parse t of
         None \<Rightarrow> (Inl (Error ''user store read failed''), file)
       | Some parsed \<Rightarrow> (case js_get parsed ''users'' of
            JObj fs \<Rightarrow> (Inr (JObj fs), file)
          | JNull \<Rightarrow> (Inr JNull, file)
          | JArr xs \<Rightarrow> (Inr (JArr xs), file)
          | _ \<Rightarrow> (Inr (JObj []), file))))"

definition saveStore :: "demo \<Rightarrow> js \<Rightarrow> unit demo_act" where
  "saveStore dm store file =
     (if dm_writable dm then (Inr (), Some (Json (JObj [(''users'', store)]))) else (Inl (Error ''EACCES''), file))"

text \<open>Assigning a property keeps the place of an existing one.\<close>

fun assign_key :: "string \<Rightarrow> js \<Rightarrow> (string \<times> js) list \<Rightarrow> (string \<times> js) list" where
  "assign_key k v [] = [(k, v)]"
| "assign_key k v ((k', v') # fs) = (if k' = k then (k, v) # fs else (k', v') # assign_key k v fs)"

text \<open>An index that is not a number leaves the elements of an array, which is all that is written back.\<close>

fun set_member :: "js \<Rightarrow> string \<Rightarrow> js \<Rightarrow> js" where
  "set_member (JObj fs) k v = JObj (assign_key k v fs)"
| "set_member w k v = w"

datatype auth_result = Auth_ok string js | Auth_error int string

definition user_record :: "demo \<Rightarrow> string \<Rightarrow> string \<Rightarrow> js" where
  "user_record dm passwordHash homeRegion = JObj
     [(''password_hash'', JStr passwordHash), (''home_region'', JStr (if homeRegion = [] then ''US'' else homeRegion)),
      (''created_at'', JStr (dm_iso dm (dm_now dm)))]"

text \<open>
  Registration in two parts: up to the \<open>await\<close> of the hash, where other requests may run, and the
  write of the store that was read before it.
\<close>

definition register_check :: "string \<Rightarrow> string \<Rightarrow> string \<Rightarrow> (auth_result + js) demo_act" where
  "register_check username password pepper =
     (case validateUsername username of
        Some e \<Rightarrow> ret (Inl (Auth_error 400 e))
      | None \<Rightarrow> (case demo_validatePassword password of
          Some e \<Rightarrow> ret (Inl (Auth_error 400 e))
        | None \<Rightarrow>
            if pepper = [] then ret (Inl (Auth_error 500 ''PASSWORD_PEPPER not configured''))
            else bindE loadStore (\<lambda>store.
                 bindE (member store username) (\<lambda>record.
                   if truthy record then ret (Inl (Auth_error 409 ''username already exists'')) else ret (Inr store)))))"

definition register_commit :: "demo \<Rightarrow> string \<Rightarrow> string \<Rightarrow> string \<Rightarrow> string \<Rightarrow> js \<Rightarrow> auth_result demo_act" where
  "register_commit dm username password homeRegion pepper store =
     (let record = user_record dm (demo_hashPassword dm password pepper) homeRegion
      in thenE (saveStore dm (set_member store username record)) (ret (Auth_ok username (js_get record ''home_region''))))"

definition registerUser :: "demo \<Rightarrow> string \<Rightarrow> string \<Rightarrow> string \<Rightarrow> string \<Rightarrow> auth_result demo_act" where
  "registerUser dm username password homeRegion pepper =
     bindE (register_check username password pepper) (\<lambda>r. case r of
        Inl result \<Rightarrow> ret result
      | Inr store \<Rightarrow> register_commit dm username password homeRegion pepper store)"

definition DUMMY_HASH :: "demo \<Rightarrow> string" where
  "DUMMY_HASH dm = dm_bcrypt dm (bcryptCost dm) ''no-such-user-dummy''"

definition authenticateUser :: "demo \<Rightarrow> string \<Rightarrow> string \<Rightarrow> string \<Rightarrow> auth_result demo_act" where
  "authenticateUser dm username password pepper =
     (if username = [] \<or> password = [] then ret (Auth_error 400 ''username and password required'')
      else if pepper = [] then ret (Auth_error 500 ''PASSWORD_PEPPER not configured'')
      else bindE loadStore (\<lambda>store.
           bindE (member store username) (\<lambda>record.
           bindE (demo_verifyPassword dm password pepper (if truthy record then js_get record ''password_hash'' else JStr (DUMMY_HASH dm))) (\<lambda>match.
             if \<not> truthy record \<or> \<not> match then ret (Auth_error 401 ''invalid username or password'')
             else ret (Auth_ok username (if truthy (js_get record ''home_region'') then js_get record ''home_region'' else JStr ''US''))))))"

section \<open>The handlers\<close>

datatype reply = Reply int js

text \<open>\<open>String(v)\<close>.\<close>

fun String_of :: "js \<Rightarrow> string" and String_list :: "js list \<Rightarrow> string" where
  "String_of (JObj fs) = ''[object Object]''"
| "String_of (JArr xs) = String_list xs"
| "String_of v = js_String v"
| "String_list [] = []"
| "String_list [v] = (if nullish v then [] else String_of v)"
| "String_list (v # vs) = (if nullish v then [] else String_of v) @ '','' @ String_list vs"

definition or_value :: "js \<Rightarrow> js \<Rightarrow> js" where
  "or_value a b = (if truthy a then a else b)"

definition mintJwt :: "demo \<Rightarrow> string \<Rightarrow> js \<Rightarrow> js \<Rightarrow> int \<Rightarrow> string \<times> js" where
  "mintJwt dm sub homeRegion jti ttlSecs =
     (let now = dm_now dm div 1000;
          payload = JObj [(''sub'', JStr sub), (''home_region'', homeRegion),
            (''iss'', JStr (or_str (dm_env dm ''EXPECTED_ISSUER'') ''api-gateway-auth-server'')),
            (''aud'', JStr (or_str (dm_env dm ''EXPECTED_AUDIENCE'') ''api-gateway-clients'')),
            (''iat'', JNum now), (''nbf'', JNum now), (''exp'', JNum (now + (if ttlSecs = 0 then 3600 else ttlSecs))),
            (''jti'', or_value jti (JStr (dm_uuid dm)))]
      in (dm_sign dm (or_str (dm_env dm ''JWT_SECRET'') []) payload, payload))"

text \<open>Life times in whole seconds.\<close>

definition ttl_of :: "js \<Rightarrow> int" where
  "ttl_of v = (case v of JNum n \<Rightarrow> max 1 (min 86400 n) | _ \<Rightarrow> 3600)"

definition error_reply :: "int \<Rightarrow> string \<Rightarrow> reply" where
  "error_reply n msg = Reply n (JObj [(''error'', JStr msg)])"

text \<open>\<open>req.body || {}\<close>, and the message of an error for the answer 500.\<close>

definition body_of :: "js \<Rightarrow> js" where
  "body_of b = or_value b (JObj [])"

definition message_of :: "exn \<Rightarrow> string" where
  "message_of e = (case e of Error s \<Rightarrow> s | _ \<Rightarrow> ''internal error'')"

definition login_name :: "js \<Rightarrow> string" where
  "login_name body = trim (String_of (or_value (js_get body ''username'') (or_value (js_get body ''sub'') (JStr []))))"

definition demo_register :: "demo \<Rightarrow> js \<Rightarrow> reply demo_act" where
  "demo_register dm b = catchE
     (let body = body_of b
      in bindE (registerUser dm (login_name body) (String_of (or_value (js_get body ''password'') (JStr [])))
            (String_of (or_value (js_get body ''home_region'') (JStr ''US''))) (demo_getPepper dm)) (\<lambda>result. case result of
          Auth_error n e \<Rightarrow> ret (error_reply n e)
        | Auth_ok username region \<Rightarrow> ret (Reply 201 (JObj [(''status'', JStr ''registered''), (''username'', JStr username),
            (''home_region'', region), (''note'', JStr ''password stored as bcrypt hash; pepper never persisted (ADR-0049)'')]))))
     (\<lambda>e. ret (error_reply 500 (message_of e)))"

definition demo_signin :: "demo \<Rightarrow> js \<Rightarrow> reply demo_act" where
  "demo_signin dm b = catchE
     (if or_str (dm_env dm ''JWT_SECRET'') [] = [] then ret (error_reply 500 ''JWT_SECRET not configured'')
      else let body = body_of b
           in bindE (authenticateUser dm (login_name body) (String_of (or_value (js_get body ''password'') (JStr []))) (demo_getPepper dm))
                (\<lambda>auth. case auth of
                   Auth_error n e \<Rightarrow> ret (error_reply n e)
                 | Auth_ok username region \<Rightarrow>
                     (case mintJwt dm username region JUndef (ttl_of (js_get body ''ttl'')) of
                        (token, claims) \<Rightarrow> ret (Reply 200 (JObj [(''token'', JStr token), (''claims'', claims)])))))
     (\<lambda>e. ret (error_reply 500 (message_of e)))"

definition dev_token :: "demo \<Rightarrow> js \<Rightarrow> reply" where
  "dev_token dm b =
     (if dm_env dm ''AUTH_DEV_TOKENS'' = Some ''0''
      then Reply 403 (JObj [(''error'', JStr ''dev token minting disabled''),
             (''hint'', JStr ''AUTH_DEV_TOKENS=0 -- point the frontend /auth proxy at a real auth service.'')])
      else if or_str (dm_env dm ''JWT_SECRET'') [] = []
      then error_reply 500 ''JWT_SECRET not configured on backend-test-service''
      else let body = body_of b
           in case mintJwt dm (String_of (or_value (js_get body ''sub'') (JStr ''test-user'')))
                 (JStr (String_of (or_value (js_get body ''home_region'') (JStr ''US'')))) (js_get body ''jti'') (ttl_of (js_get body ''ttl'')) of
                (token, claims) \<Rightarrow> Reply 200 (JObj [(''token'', JStr token), (''claims'', claims),
                   (''note'', JStr ''dev token -- signed with shared JWT_SECRET'')]))"

section \<open>What the store guarantees\<close>

lemma map_of_assign [simp]: "map_of (assign_key k v fs) k' = (if k' = k then Some v else map_of fs k')"
  by (induction k v fs rule: assign_key.induct) auto

definition own :: "(string \<times> js) list \<Rightarrow> string \<Rightarrow> js" where
  "own fs k = (case map_of fs k of Some x \<Rightarrow> x | None \<Rightarrow> if k \<in> set PROTO_MEMBERS then JObj [] else JUndef)"

lemma member_obj: "member (JObj fs) k = ret (own fs k)"
  by (simp add: member_def own_def)

lemma own_assign [simp]: "own (assign_key k v fs) k' = (if k' = k then v else own fs k')"
  by (simp add: own_def)

lemma load_saved [simp]: "loadStore (Some (Json (JObj [(''users'', JObj fs)]))) = (Inr (JObj fs), Some (Json (JObj [(''users'', JObj fs)])))"
  by (simp add: loadStore_def)

lemma check_ok:
  assumes "register_check u pw pepper file = (Inr (Inr st), file')" and "loadStore file = (Inr (JObj fs), file)"
  shows "st = JObj fs" "file' = file" "u \<noteq> []" "pw \<noteq> []" "pepper \<noteq> []" "\<not> truthy (own fs u)"
  using assms
  by (auto simp: register_check_def validateUsername_def demo_validatePassword_def MIN_PASSWORD_LEN_def bindE_def member_obj ret_def
      split: if_splits)

lemma check_errors: "register_check u pw pepper file = (Inr (Inl result), f) \<Longrightarrow> \<exists>n e. result = Auth_error n e"
  by (auto simp: register_check_def bindE_eq_Inr ret_def split: option.splits if_splits)

lemma commit_ok:
  assumes "register_commit dm u pw region pepper (JObj fs) file = (Inr result, file')"
  shows "file' = Some (Json (JObj [(''users'', JObj (assign_key u (user_record dm (demo_hashPassword dm pw pepper) region) fs))]))"
    "result = Auth_ok u (JStr (if region = [] then ''US'' else region))"
  using assms
  by (auto simp: register_commit_def saveStore_def thenE_def bindE_def ret_def user_record_def Let_def split: if_splits)


text \<open>
  Names of members of \<open>Object.prototype\<close> cannot be used: on an empty store a registration as
  \<open>constructor\<close> is refused with 409 as already existing, and a login under such a name fails with an error of
  bcrypt instead of the refusal of an unknown user.
\<close>

theorem prototype_names_taken:
  assumes "name \<in> set PROTO_MEMBERS" and "demo_validatePassword pw = None" and "pepper \<noteq> []"
  shows "registerUser dm name pw region pepper None = (Inr (Auth_error 409 ''username already exists''), None)
    \<and> authenticateUser dm name pw pepper None = (Inl (Error ''data and hash arguments required''), None)"
proof -
  have "list_all (\<lambda>n. validateUsername n = None \<and> n \<noteq> []) PROTO_MEMBERS" by code_simp
  with assms(1) have n: "validateUsername name = None" "name \<noteq> []" by (auto simp: list_all_iff)
  have p: "pw \<noteq> []" using assms(2) by (auto simp: demo_validatePassword_def MIN_PASSWORD_LEN_def)
  have o: "own [] name = JObj []" using assms(1) by (simp add: own_def)
  show ?thesis using n p assms(2,3)
    by (simp add: registerUser_def register_check_def authenticateUser_def bindE_def loadStore_def member_obj o ret_def raise_def demo_verifyPassword_def)
qed

text \<open>
  (C40) Two registrations that overlap lose one of the users: when both read the store before either has
  written it, both are answered as registered, and afterwards the first user is unknown.
\<close>

theorem overlapping_registrations_lose_user:
  assumes "loadStore file = (Inr (JObj fs), file)" and "u1 \<noteq> u2"
    and c1: "register_check u1 pw1 pepper file = (Inr (Inr s1), file)" and c2: "register_check u2 pw2 pepper file = (Inr (Inr s2), file)"
    and m1: "register_commit dm u1 pw1 r1 pepper s1 file = (Inr a1, f1)" and m2: "register_commit dm u2 pw2 r2 pepper s2 f1 = (Inr a2, f2)"
  shows "(\<exists>x. a1 = Auth_ok u1 x) \<and> (\<exists>x. a2 = Auth_ok u2 x)
    \<and> authenticateUser dm u1 pw1 pepper f2 = (Inr (Auth_error 401 ''invalid username or password''), f2)"
proof -
  note k1 = check_ok [OF c1 assms(1)] and k2 = check_ok [OF c2 assms(1)]
  note n1 = commit_ok [OF m1 [unfolded k1(1)]] and n2 = commit_ok [OF m2 [unfolded k2(1)]]
  show ?thesis using k1(3-6) n1(2) n2(2) assms(2)
    by (simp add: n2(1) authenticateUser_def bindE_def member_obj ret_def demo_verifyPassword_def)
qed

section \<open>Examples\<close>

definition toy_demo :: demo where
  "toy_demo = \<lparr>dm_env = (\<lambda>_. None), dm_now = 0, dm_iso = show_int, dm_hmac = (\<lambda>k m. k @ m), dm_bcrypt = (\<lambda>c m. CHR ''$'' # m),
     dm_compare = (\<lambda>m s. s = CHR ''$'' # m), dm_sign = (\<lambda>k v. k), dm_uuid = ''u'', dm_writable = True\<rparr>"


theorem prototype_names_taken_witness:
  "registerUser toy_demo ''constructor'' ''password'' ''EU'' ''p'' None = (Inr (Auth_error 409 ''username already exists''), None)"
proof -
  have "''constructor'' \<in> set PROTO_MEMBERS" "demo_validatePassword ''password'' = None" by code_simp+
  from prototype_names_taken [OF this, of "''p''" toy_demo "''EU''"] show ?thesis by simp
qed

theorem overlapping_registrations_lose_user_witness:
  "\<exists>f2. authenticateUser toy_demo ''ada'' ''password'' ''p'' f2 = (Inr (Auth_error 401 ''invalid username or password''), f2)"
proof -
  have l: "loadStore None = (Inr (JObj []), None)" by (simp add: loadStore_def)
  have "list_all (\<lambda>u. register_check u ''password'' ''p'' None = (Inr (Inr (JObj [])), None)) [''ada'', ''bob'']" by code_simp
  then have c: "register_check ''ada'' ''password'' ''p'' None = (Inr (Inr (JObj [])), None)"
    "register_check ''bob'' ''password'' ''p'' None = (Inr (Inr (JObj [])), None)" by simp_all
  have w: "\<exists>a f'. register_commit toy_demo u pw r p s f = (Inr a, f')" for u pw r p s f
    by (simp add: register_commit_def saveStore_def toy_demo_def thenE_def bindE_def ret_def Let_def)
  obtain a1 f1 where m1: "register_commit toy_demo ''ada'' ''password'' ''EU'' ''p'' (JObj []) None = (Inr a1, f1)" using w by blast
  obtain a2 f2 where m2: "register_commit toy_demo ''bob'' ''password'' ''EU'' ''p'' (JObj []) f1 = (Inr a2, f2)" using w by blast
  from overlapping_registrations_lose_user [OF l _ c m1 m2] show ?thesis by auto
qed

end
