(* ===== verification/Spec2Isabelle.thy ===== *)
theory Spec2Isabelle
  imports Breaker_Machine Robust_Limiter Login_Limiter Limit_Stores Migration_Properties Client_Server Demo_Service
begin

text \<open>
  Verification library of the authentication service in \<open>src/uam-backend\<close>, of its browser client in
  \<open>src/uam-frontend\<close>, and of the demo service in \<open>src/demo-backend\<close>.

  \<^bold>\<open>The program.\<close> An Express server with a PostgreSQL store and a Redis cache. A request passes the
  origin check, is dispatched by the route tables, and runs through middleware (double-submit token,
  bearer token, body validation) into a handler. The handlers of the authentication, migration and
  profile controllers read and write the table of users through a document layer that compiles
  filters to SQL, keep an inverted index from e-mail addresses and provider identities to users,
  issue token pairs and cookies, keep one-time codes in Redis, and send mails. All Redis commands run
  under a circuit breaker; two rate limiters count requests in Redis and fall back to memory. The page
  talks to the server through one client object, which holds the access token and the double-submit
  token in memory. The demo service is a separate process with its own file of users.

  \<^bold>\<open>The theories\<close>, each with the source it models (paths below \<open>src/uam-backend/src\<close>):

  \<^item> \<open>UAM_Prelude\<close>: JavaScript strings, numbers and values, the clock, computations with state and
    exceptions (\<open>act\<close>) and the predicates they keep (\<open>keeps\<close>), runs of a step function
    (\<open>invariant_system\<close>).
  \<^item> \<open>Breaker\<close>, \<open>Breaker_Window\<close>, \<open>Breaker_Machine\<close>: \<open>config/redisCircuitBreaker.ts\<close>. The record
    \<open>breaker\<close> has the fields of the class; \<open>acquire\<close>, \<open>release\<close> and \<open>reset\<close> are its methods,
    \<open>withCircuitBreaker\<close> the wrapper. Shown: the ring of buckets is the log of the samples of the
    window, percentiles are right, the invariant and the transition diagram hold on every run, an open
    circuit refuses for its cooldown and recovers through probes, a call settles once.
  \<^item> \<open>App_Config\<close>: \<open>config/env.util.ts\<close>, \<open>config/index.ts\<close>, \<open>utils/secrets.util.ts\<close>,
    \<open>utils/password.util.ts\<close>. Shown: what a production boot excludes, and that a stored hash verifies
    exactly its password.
  \<^item> \<open>Redis_Pool\<close>: \<open>config/redis.ts\<close>. Shown: cache values are read back until they expire; an open
    circuit does not reach the server.
  \<^item> \<open>Robust_Limiter\<close>, \<open>Login_Limiter\<close>, \<open>Limit_Stores\<close>: \<open>robustRateLimiter.ts\<close>,
    \<open>middleware/advancedLimiter.ts\<close>, \<open>middleware/limiter.middleware.ts\<close>, \<open>config/rateLimit.config.ts\<close>.
    The counting contract is the locale \<open>fixed_window\<close>, interpreted on both in-memory counters.
  \<^item> \<open>One_Time_Codes\<close>: the services for OAuth codes, PKCE states, mail links and verification polls.
    The contract is the locale \<open>one_time_store\<close>, interpreted on the expiring store and on the
    exchange codes.
  \<^item> \<open>Where_Filter\<close>, \<open>Database\<close>, \<open>User_Model\<close>, \<open>Store_Effects\<close>: \<open>db/columns.ts\<close>, \<open>db/filter.ts\<close>,
    \<open>db/migrations.ts\<close>, \<open>db/User.ts\<close>. A row is a function from columns to values, a table a list of
    rows with the constraints \<open>db_ok\<close>; a statement may fail, as the list \<open>faults\<close> says. Shown: the
    compiled condition means what the filter means, no value reaches its text, and what saves and
    updates do to the tables, faults or not (\<open>save_effect\<close>, \<open>update_effect\<close>).
  \<^item> \<open>Identity_Index\<close>: \<open>db/UserIdentityIndex.ts\<close>, \<open>services/identity-index.service.ts\<close>. Shown: a
    synchronised user is found under exactly the expected keys, and the backfill ends and reaches
    every user.
  \<^item> \<open>Host\<close>, \<open>Http\<close>, \<open>Sessions\<close>, \<open>Mailer\<close>, \<open>Handler_Logic\<close>: what handlers see. A handler is a
    computation on the exchange (cache, database, codes, outbox, response cookies) that ends with an
    \<open>outcome\<close>. \<open>Sessions\<close> holds \<open>services/token.service.ts\<close>, \<open>session.service.ts\<close>,
    \<open>revoke.service.ts\<close> and \<open>middleware/auth.middleware.ts\<close>.
  \<^item> \<open>Auth_Controller\<close>, \<open>Migration\<close>, \<open>OAuth\<close>, \<open>Routes\<close>: the controllers, \<open>config/passport.ts\<close>, the
    validators, the route tables and the dispatch of \<open>index.ts\<close>.
  \<^item> \<open>Auth_Properties\<close>, \<open>Migration_Properties\<close>, \<open>Route_Properties\<close>: what the whole stack guarantees. A
    session needs the password, a refresh token works once, a reset ends the sessions, an access
    token must have the version of its account, a finalised move changes the address and keeps the
    account, every request keeps the constraints of the tables, and the routes are guarded.
  \<^item> \<open>Api_Client\<close>: \<open>api/client.ts\<close>, \<open>context/AuthContext.tsx\<close> and \<open>utils/*.ts\<close> below
    \<open>src/uam-frontend/src\<close>. The record \<open>page\<close> is what the client object, the context and the storages
    hold. Shown: starting the page ends whatever the network does, logging out clears the page, the list
    of recent accounts keeps its shape, and a failed bootstrap of the double-submit token is final.
  \<^item> \<open>Client_Server\<close>: page and server in one state, with the browser's cookie jar between them. Shown: the
    requests of the page pass the double-submit check after the bootstrap, but not after the
    verification of an address; the checks of the page and the schemas of the server agree.
  \<^item> \<open>Demo_Service\<close>: \<open>src/demo-backend/src/users.ts\<close> and the handlers of \<open>server.ts\<close>. Shown: a registered
    user is let in with the right password only; overlapping registrations lose a user; names of
    members of \<open>Object.prototype\<close> cannot be used.

  \<^bold>\<open>Parameters.\<close> Code outside the sources is a field of a record that the definitions take: \<open>host\<close>
  (clock, random strings, digests, signatures, bcrypt, regular expressions, mail transport, control
  plane), the Redis server with its settlement times, \<open>zod\<close> (the grammars of addresses and URLs),
  \<open>passport\<close>, \<open>web\<close> (what the page takes from the browser) and \<open>demo\<close>. Theorems that need a law of such a parameter have it as a hypothesis, and the
  witnesses discharge it on concrete functions.

  \<^bold>\<open>Bounds.\<close> Numbers are integers or rationals, as the code stores counters, versions and
  instants below \<open>2 ^ 53\<close>. The only loop without a structural bound is the paged backfill; it takes
  the number of pages as fuel, and \<open>backfill_returns\<close> shows that one page more than the table needs is
  enough. The retries of a mail are bounded by the code.

  \<^bold>\<open>Order of events.\<close> A request runs to its end before the next one; within it, faults may hit any
  statement. Interleavings of two requests are modelled for the registration of the demo service only,
  and the settlement of a Redis command against its timer. On the page, an operation ends before the
  next one starts.

  \<^bold>\<open>Not modelled.\<close> Log lines, metrics and tracing (\<open>metrics.ts\<close>, \<open>otel.ts\<close>, \<open>utils/boot.ts\<close>) do not
  change the state that the handlers see. Process start-up, connection pools and the loading of
  \<open>.env\<close> files are input and output. The texts of the mails are abstracted to their kind, address
  and link. The pages and components of the frontend are rendering code. The gateway, the control
  plane and the packet filter are written in Rust, Lua and C and are reached over the network only.
\<close>

end
